(* ===== verification/Uvcc_Prelude.thy ===== *)
theory Uvcc_Prelude
  imports Main "HOL-Library.Word"
begin

text \<open>
  Vocabulary shared by every component: the faults a C++ operation can end in, the result
  type and its sequencing operator, the total-correctness judgement \<open>ok\<close> with its rules,
  the record of calls made to code outside the library, the libuv constants the sources
  name, and the counting lemmas behind reference counting.
\<close>

named_theorems ok_intro \<open>introduction rules of the total-correctness judgement\<close>
named_theorems store_simps \<open>what an elementary store operation changes and leaves alone\<close>

section \<open>Results\<close>

text \<open>
  An operation of the library ends normally, throws, or does something the language gives no
  meaning to. Each way of not ending normally is a value: reading an instance that has been
  deleted, following a null pointer, using a program variable that is out of scope, following
  a pointer computed from the wrong base, spinning forever on a lock the same thread holds,
  casting a reference to the wrong class, calling an empty \<open>std::function\<close>, and the exceptions the
  sources throw.
  \<open>Out_of_fuel\<close> stands for a loop that has not ended within the given number of rounds.
\<close>

datatype fault =
    Use_after_free
  | Null_deref
  | Dead_variable
  | Wild_pointer
  | Bad_cast
  | Bad_function_call
  | Deadlock
  | Runtime_error
  | Logic_error
  | Invalid_argument
  | Out_of_fuel

type_synonym 'a res = "fault + 'a"

definition rbind :: "'e + 'a \<Rightarrow> ('a \<Rightarrow> 'e + 'b) \<Rightarrow> 'e + 'b" where
  "rbind m f = (case m of Inl e \<Rightarrow> Inl e | Inr x \<Rightarrow> f x)"

lemma rbind_Inl [simp]: "rbind (Inl e) f = Inl e"
  by (simp add: rbind_def)

lemma rbind_Inr [simp]: "rbind (Inr x) f = f x"
  by (simp add: rbind_def)

lemma rbind_assoc: "rbind (rbind m f) g = rbind m (\<lambda>x. rbind (f x) g)"
  by (simp add: rbind_def split: sum.split)

lemma rbind_eq_Inr: "rbind m f = Inr y \<longleftrightarrow> (\<exists>x. m = Inr x \<and> f x = Inr y)"
  by (cases m) auto

lemma rbind_cong [fundef_cong]:
  "m = m' \<Longrightarrow> (\<And>x. m' = Inr x \<Longrightarrow> f x = g x) \<Longrightarrow> rbind m f = rbind m' g"
  by (cases m') auto

text \<open>\<open>ok P r\<close>: the operation ends normally, with a result that satisfies \<open>P\<close>.\<close>

definition ok :: "('a \<Rightarrow> bool) \<Rightarrow> 'e + 'a \<Rightarrow> bool" where
  "ok P r = (case r of Inl e \<Rightarrow> False | Inr x \<Rightarrow> P x)"

lemma ok_Inl [simp]: "ok P (Inl e) = False"
  by (simp add: ok_def)

lemma ok_Inr [simp]: "ok P (Inr x) = P x"
  by (simp add: ok_def)

lemma ok_iff: "ok P r \<longleftrightarrow> (\<exists>x. r = Inr x \<and> P x)"
  by (cases r) auto

lemma ok_bind [ok_intro]:
  "ok P m \<Longrightarrow> (\<And>x. P x \<Longrightarrow> ok Q (f x)) \<Longrightarrow> ok Q (rbind m f)"
  by (cases m) auto

lemma ok_weaken: "ok P r \<Longrightarrow> (\<And>x. P x \<Longrightarrow> Q x) \<Longrightarrow> ok Q r"
  by (cases r) auto

lemma ok_conj: "ok P r \<Longrightarrow> ok Q r \<Longrightarrow> ok (\<lambda>x. P x \<and> Q x) r"
  by (cases r) auto

text \<open>\<open>faults e r\<close>: the operation ends in the fault \<open>e\<close>; unlike the equation it can be evaluated.\<close>

definition faults :: "fault \<Rightarrow> 'a res \<Rightarrow> bool" where
  "faults e r = (case r of Inl e' \<Rightarrow> e' = e | Inr x \<Rightarrow> False)"

lemma faults_iff: "faults e r \<longleftrightarrow> r = Inl e"
  by (cases r) (simp_all add: faults_def)

section \<open>Counting pointers\<close>

text \<open>
  \<open>count_ptr m p\<close> is the number of cells of the store \<open>m\<close> that hold the pointer \<open>p\<close>;
  a cell may also be absent (\<open>None\<close>) or hold the null pointer (\<open>Some None\<close>).
\<close>

definition count_ptr :: "(nat \<rightharpoonup> 'p option) \<Rightarrow> 'p \<Rightarrow> nat" where
  "count_ptr m p = card {v. m v = Some (Some p)}"

definition holds :: "(nat \<rightharpoonup> 'p option) \<Rightarrow> nat \<Rightarrow> 'p \<Rightarrow> nat" where
  "holds m v p = (if m v = Some (Some p) then 1 else 0)"

lemma finite_cells: "finite (dom m) \<Longrightarrow> finite {v. m v = Some (Some p)}"
  by (rule finite_subset [of _ "dom m"]) auto

lemma count_ptr_empty [simp]: "count_ptr (\<lambda>x. None) p = 0"
  by (simp add: count_ptr_def)

lemma count_ptr_upd_aux:
  assumes "finite (dom m)"
  shows "count_ptr (m(v := c)) p + holds m v p
       = count_ptr m p + (if c = Some (Some p) then 1 else 0)"
proof -
  let ?A = "{u. u \<noteq> v \<and> m u = Some (Some p)}"
  have fin: "finite ?A"
    using finite_cells [OF assms, of p] by (rule finite_subset [rotated]) auto
  have new: "{u. (m(v := c)) u = Some (Some p)} = (if c = Some (Some p) then insert v ?A else ?A)"
    by auto
  have old: "{u. m u = Some (Some p)} = (if m v = Some (Some p) then insert v ?A else ?A)"
    by auto
  show ?thesis
    unfolding count_ptr_def holds_def new old using fin by auto
qed

lemma count_ptr_upd:
  assumes "finite (dom m)"
  shows "count_ptr (m(v := c)) p
       = count_ptr m p + (if c = Some (Some p) then 1 else 0) - holds m v p"
  using count_ptr_upd_aux [OF assms, of v c p] by linarith

lemma holds_le_count: "finite (dom m) \<Longrightarrow> holds m v p \<le> count_ptr m p"
  using count_ptr_upd_aux [of m v "None" p] by simp

lemma count_ptr_pos: "finite (dom m) \<Longrightarrow> m v = Some (Some p) \<Longrightarrow> 0 < count_ptr m p"
  using holds_le_count [of m v p] by (simp add: holds_def)

lemma count_ptr_zero:
  "finite (dom m) \<Longrightarrow> count_ptr m p = 0 \<longleftrightarrow> (\<forall>v. m v \<noteq> Some (Some p))"
  using finite_cells [of m p] by (auto simp: count_ptr_def)

section \<open>Calls to code outside the library\<close>

text \<open>
  libuv and the operating system are reached through C functions. A call is recorded with
  its name and the arguments that matter; the record is what the environment of the model
  bases its answers on, so that an answer can depend on everything asked before.
\<close>

type_synonym addr = nat
type_synonym var = nat
type_synonym cb = nat

datatype arg =
    Ptr "addr option"
  | Num int
  | U64 "64 word"
  | Str string
  | Flag bool
  | Callback bool

datatype event =
    Call string "arg list"
  | Destroy_cb cb

section \<open>libuv constants\<close>

text \<open>
  The numeric values are those of a build on Linux, where \<^verbatim>\<open>uv-errno.h\<close> negates the
  system's \<^verbatim>\<open>errno\<close> numbers; \<^verbatim>\<open>UV_EOF\<close> is fixed by that header.
\<close>

definition UV_EINVAL :: int where "UV_EINVAL = -22"
definition UV_EBADF :: int where "UV_EBADF = -9"
definition UV_EAGAIN :: int where "UV_EAGAIN = -11"
definition UV_ENOTSUP :: int where "UV_ENOTSUP = -95"
definition UV_ENOBUFS :: int where "UV_ENOBUFS = -105"
definition UV_EAFNOSUPPORT :: int where "UV_EAFNOSUPPORT = -97"
definition UV_EOF :: int where "UV_EOF = -4095"

lemmas uv_errno_defs = UV_EINVAL_def UV_EBADF_def UV_EAGAIN_def UV_ENOTSUP_def UV_ENOBUFS_def
  UV_EAFNOSUPPORT_def UV_EOF_def

text \<open>The conversion of a wider integer to a 32-bit \<^verbatim>\<open>int\<close>.\<close>

definition c_int :: "int \<Rightarrow> int" where
  "c_int x = signed_take_bit 31 x"

lemma c_int_id: "- (2 ^ 31) \<le> x \<Longrightarrow> x < 2 ^ 31 \<Longrightarrow> c_int x = x"
  by (simp add: c_int_def signed_take_bit_int_eq_self)

end
