(* ===== verification/Uvcc_Utility.thy ===== *)
theory Uvcc_Utility
  imports Uvcc_Prelude
begin

text \<open>
  \<^verbatim>\<open>utility.hpp\<close>: the atomic reference counter and the spinlock.
\<close>

section \<open>The reference counter\<close>

text \<open>
  \<open>inc()\<close> retries a compare-and-exchange. Each attempt meets the value \<open>m\<close> another thread may
  have left in memory and may fail spuriously; the list gives these for the attempts made, and
  \<open>None\<close> means that the loop is still running when the list is used up.
\<close>

fun ref_count_inc_loop :: "int \<Rightarrow> (int \<times> bool) list \<Rightarrow> int res option" where
  "ref_count_inc_loop c attempts =
     (if c = 0 then Some (Inl Runtime_error)
      else case attempts of
          [] \<Rightarrow> None
        | (m, spurious) # rest \<Rightarrow>
            if m = c \<and> \<not> spurious then Some (Inr (c + 1)) else ref_count_inc_loop m rest)"

declare ref_count_inc_loop.simps [simp del]

text \<open>Without contention the first attempt succeeds.\<close>

definition ref_count_inc :: "int \<Rightarrow> int res" where
  "ref_count_inc c = (if c = 0 then Inl Runtime_error else Inr (c + 1))"

definition ref_count_dec :: "int \<Rightarrow> int" where
  "ref_count_dec c = c - 1"

lemma ref_count_inc_uncontended: "ref_count_inc_loop c [(c, False)] = Some (ref_count_inc c)"
  by (simp add: ref_count_inc_loop.simps ref_count_inc_def)

lemma ref_count_inc_simps [simp]:
  "ref_count_inc 0 = Inl Runtime_error" "c \<noteq> 0 \<Longrightarrow> ref_count_inc c = Inr (c + 1)"
  by (simp_all add: ref_count_inc_def)

end
