(* ===== verification/Uvcc_World.thy ===== *)
theory Uvcc_World
  imports Uvcc_Utility
begin

text \<open>
  The state the library works on. Every class of uvcc is a pointer to a reference-counted
  instance allocated on the heap; the heap is modelled by one store per kind of instance, in
  which a deleted instance is absent. The program's variables of the wrapper classes are a
  further store. The environment \<open>env\<close> collects what is not part of the library: libuv, the
  operating system, and the callbacks the client registers.
\<close>

section \<open>Enumerations\<close>

datatype uv_handle_type =
    UV_UNKNOWN_HANDLE | UV_ASYNC | UV_CHECK | UV_FS_EVENT | UV_FS_POLL | UV_HANDLE | UV_IDLE
  | UV_NAMED_PIPE | UV_POLL | UV_PREPARE | UV_PROCESS | UV_STREAM | UV_TCP | UV_TIMER | UV_TTY
  | UV_UDP | UV_SIGNAL | UV_FILE | UV_HANDLE_TYPE_MAX

datatype uv_req_type =
    UV_UNKNOWN_REQ | UV_REQ | UV_CONNECT | UV_WRITE | UV_SHUTDOWN | UV_UDP_SEND | UV_FS
  | UV_WORK | UV_GETADDRINFO | UV_GETNAMEINFO

datatype uv_fs_type =
    UV_FS_UNKNOWN | UV_FS_CLOSE | UV_FS_READ | UV_FS_WRITE | UV_FS_SENDFILE | UV_FS_STAT
  | UV_FS_FTRUNCATE | UV_FS_UTIME | UV_FS_ACCESS | UV_FS_CHMOD | UV_FS_FSYNC | UV_FS_UNLINK
  | UV_FS_RMDIR | UV_FS_MKDIR | UV_FS_MKDTEMP | UV_FS_RENAME | UV_FS_SCANDIR | UV_FS_LINK
  | UV_FS_READLINK | UV_FS_CHOWN | UV_FS_REALPATH

datatype uv_run_mode = UV_RUN_DEFAULT | UV_RUN_ONCE | UV_RUN_NOWAIT

fun uv_run_mode_num :: "uv_run_mode \<Rightarrow> int" where
  "uv_run_mode_num UV_RUN_DEFAULT = 0"
| "uv_run_mode_num UV_RUN_ONCE = 1"
| "uv_run_mode_num UV_RUN_NOWAIT = 2"

text \<open>The numbers libuv gives the handle types.\<close>

definition uv_handle_types :: "uv_handle_type list" where
  "uv_handle_types = [UV_UNKNOWN_HANDLE, UV_ASYNC, UV_CHECK, UV_FS_EVENT, UV_FS_POLL, UV_HANDLE,
     UV_IDLE, UV_NAMED_PIPE, UV_POLL, UV_PREPARE, UV_PROCESS, UV_STREAM, UV_TCP, UV_TIMER, UV_TTY,
     UV_UDP, UV_SIGNAL, UV_FILE]"

definition uv_handle_type_of :: "int \<Rightarrow> uv_handle_type" where
  "uv_handle_type_of n =
     (if 0 \<le> n \<and> nat n < length uv_handle_types then uv_handle_types ! nat n else UV_HANDLE_TYPE_MAX)"

text \<open>The command last issued on the reading side of an I/O endpoint (\<open>io::rdcmd\<close>).\<close>

datatype rdcmd = Rd_UNKNOWN | Rd_STOP | Rd_PAUSE | Rd_START | Rd_RESUME

text \<open>The command last issued on an event watcher; only signals have the one-shot command.\<close>

datatype opcmd = Op_UNKNOWN | Op_STOP | Op_START | Op_START_ONESHOT

text \<open>The four final overriders of the virtual interface behind a handle.\<close>

datatype iface = If_handle | If_stream | If_udp | If_file

section \<open>Instances\<close>

text \<open>The fields of the libuv handle structure the sources read or write themselves.\<close>

record uv_struct =
  u_type :: uv_handle_type
  u_loop :: "addr option"
  u_result :: int
  u_repeat :: "64 word"
  u_signum :: int
  u_queue_size :: "64 word"
  u_ipc :: int
  u_pid :: int
  u_path :: "string option"

text \<open>\<open>io::properties\<close>; an empty \<open>std::function\<close> is \<open>None\<close>.\<close>

record io_properties =
  rdstate_switch :: bool
  rdcmd_state :: rdcmd
  rdsize :: "64 word"
  rdoffset :: int
  alloc_cb :: "cb option"
  read_cb :: "cb option"

text \<open>What \<open>file::properties\<close> adds; \<open>rd_base\<close> is the \<open>.base\<close> of the pending read.\<close>

record file_properties =
  open_cb :: "cb option"
  rd_base :: "addr option"
  write_queue_size :: "64 word"
  is_closing_flag :: int

text \<open>
  The properties of the remaining handle classes: the command state and callback of the event
  watchers, the extra-reference flag of a timer, the signal number, the path and flags of a
  file-system watcher, and the connection callback of a stream.
\<close>

record watch_properties =
  opcmd_state :: opcmd
  event_cb :: "cb option"
  has_extra_ref :: bool
  signum_prop :: int
  event_flags :: int
  watch_path :: string
  connection_cb :: "cb option"

record handle_instance =
  h_uv_error :: int
  h_refs :: int
  h_destroy_cb :: "cb option"
  h_iface :: iface
  h_loop :: "addr option"
  h_uv :: uv_struct
  h_io :: io_properties
  h_file :: file_properties
  h_watch :: watch_properties

record loop_instance =
  l_uv_error :: int
  l_refs :: int
  l_destroy_cb :: "cb option"
  l_exit_cb :: "cb option"

text \<open>
  A buffer instance: the \<open>.len\<close> fields of its array of \<open>uv_buf_t\<close>, and whether the \<open>.base\<close>
  fields were null-initialised.
\<close>

record buffer_instance =
  b_refs :: int
  b_sink_cb :: "cb option"
  b_lens :: "64 word list"
  b_null :: bool

record uv_req_struct =
  q_type :: uv_req_type
  q_fs_type :: uv_fs_type
  q_handle :: "addr option"
  q_send_handle :: "addr option"
  q_loop :: "addr option"
  q_result :: int
  q_addrinfo :: "addr option"
  q_path :: "string option"
  q_new_path :: "string option"
  q_ptr :: "string option"

text \<open>
  What the destructor of a request's properties calls, if anything. The properties of an output
  request are a union, the destructor of which depends on the class the request has become; the parameter
  is the pointer at the beginning of the union, which is \<open>uv_buf\<close> for a write or a datagram and
  \<open>uv_req\<close> for a file write.
\<close>

datatype cleanup = No_cleanup | Fs_cleanup | Addrinfo_cleanup | Output_cleanup "addr option"

text \<open>
  The properties of all request classes. \<open>p_peer\<close> is the memory of the \<open>sockaddr_storage\<close> of a
  datagram; \<open>p_task\<close> is the task of a work request and \<open>p_future\<close> its result: absent, or ready
  or not. \<open>p_io_offset\<close> is the offset an output request is given, a field of its own.
\<close>

record req_properties =
  p_cleanup :: cleanup
  p_handle :: "addr option"
  p_handle_out :: "addr option"
  p_buf :: "addr option"
  p_offset :: int
  p_pending_size :: "64 word"
  p_peer :: "8 word list"
  p_task :: "cb option"
  p_future :: "bool option"
  p_io_offset :: int

record req_instance =
  r_uv_error :: int
  r_refs :: int
  r_destroy_cb :: "cb option"
  r_request_cb :: "cb option"
  r_uv :: uv_req_struct
  r_props :: req_properties

section \<open>The world\<close>

datatype obj = LoopO addr | HandleO addr | BufferO addr | RequestO addr

text \<open>
  \<open>vars\<close> is the store of program variables of the wrapper classes: absent when the variable
  is out of scope, \<open>Some None\<close> when its pointer is null, \<open>Some (Some p)\<close> when it refers to
  the instance \<open>p\<close>. Addresses and variables are drawn from the counter \<open>nxt\<close>.
\<close>

record world =
  loops :: "addr \<rightharpoonup> loop_instance"
  handles :: "addr \<rightharpoonup> handle_instance"
  buffers :: "addr \<rightharpoonup> buffer_instance"
  requests :: "addr \<rightharpoonup> req_instance"
  vars :: "var \<rightharpoonup> obj option"
  nxt :: nat
  trace :: "event list"

text \<open>
  \<open>uv_ret\<close> gives the value a call returns and \<open>uv_eff\<close> (\<open>uv_req_eff\<close>) what it writes into the
  handle (request) structure it is given, \<open>uv_out\<close> what it leaves in an integer it is given the
  address of, all depending on all earlier calls. \<open>usr\<close> runs a
  client callback with its by-value parameters in the given variables; \<open>usr_alloc\<close> runs a
  buffer-allocation callback, which hands over one reference to the buffer it returns.
  \<open>uv_walked\<close> lists the handles \<open>uv_walk()\<close> visits on a loop, and \<open>dispatch\<close> is everything the
  callbacks do that \<open>uv_run()\<close> makes before it returns.
  \<open>unwinding\<close> is the answer of \<open>std::uncaught_exception()\<close>; \<open>run_fuel\<close> bounds the rounds of the
  loop destructor.
\<close>

record env =
  uv_ret :: "event list \<Rightarrow> event \<Rightarrow> int"
  uv_eff :: "event list \<Rightarrow> event \<Rightarrow> uv_struct \<Rightarrow> uv_struct"
  uv_req_eff :: "event list \<Rightarrow> event \<Rightarrow> uv_req_struct \<Rightarrow> uv_req_struct"
  uv_out :: "event list \<Rightarrow> event \<Rightarrow> int"
  usr :: "cb \<Rightarrow> var list \<Rightarrow> arg list \<Rightarrow> world \<Rightarrow> world res"
  usr_alloc :: "cb \<Rightarrow> var \<Rightarrow> 64 word \<Rightarrow> world \<Rightarrow> (addr option \<times> world) res"
  uv_walked :: "event list \<Rightarrow> addr \<Rightarrow> addr list"
  dispatch :: "addr \<Rightarrow> uv_run_mode \<Rightarrow> world \<Rightarrow> world res"
  unwinding :: bool
  run_fuel :: nat

definition emit :: "event \<Rightarrow> world \<Rightarrow> world" where
  "emit e w = w\<lparr>trace := trace w @ [e]\<rparr>"

text \<open>A call that concerns no instance's structure: its value and the extended record.\<close>

definition uv :: "env \<Rightarrow> string \<Rightarrow> arg list \<Rightarrow> world \<Rightarrow> int \<times> world" where
  "uv env f args w = (uv_ret env (trace w) (Call f args), emit (Call f args) w)"

section \<open>Access to instances\<close>

definition handle_at :: "addr \<Rightarrow> world \<Rightarrow> handle_instance res" where
  "handle_at a w = (case handles w a of None \<Rightarrow> Inl Use_after_free | Some i \<Rightarrow> Inr i)"

definition handle_put :: "addr \<Rightarrow> handle_instance \<Rightarrow> world \<Rightarrow> world" where
  "handle_put a i w = w\<lparr>handles := (handles w)(a \<mapsto> i)\<rparr>"

definition handle_mod :: "addr \<Rightarrow> (handle_instance \<Rightarrow> handle_instance) \<Rightarrow> world \<Rightarrow> world res" where
  "handle_mod a f w = rbind (handle_at a w) (\<lambda>i. Inr (handle_put a (f i) w))"

definition request_at :: "addr \<Rightarrow> world \<Rightarrow> req_instance res" where
  "request_at a w = (case requests w a of None \<Rightarrow> Inl Use_after_free | Some i \<Rightarrow> Inr i)"

definition request_put :: "addr \<Rightarrow> req_instance \<Rightarrow> world \<Rightarrow> world" where
  "request_put a i w = w\<lparr>requests := (requests w)(a \<mapsto> i)\<rparr>"

definition request_mod :: "addr \<Rightarrow> (req_instance \<Rightarrow> req_instance) \<Rightarrow> world \<Rightarrow> world res" where
  "request_mod a f w = rbind (request_at a w) (\<lambda>i. Inr (request_put a (f i) w))"

definition loop_at :: "addr \<Rightarrow> world \<Rightarrow> loop_instance res" where
  "loop_at a w = (case loops w a of None \<Rightarrow> Inl Use_after_free | Some i \<Rightarrow> Inr i)"

definition loop_put :: "addr \<Rightarrow> loop_instance \<Rightarrow> world \<Rightarrow> world" where
  "loop_put a i w = w\<lparr>loops := (loops w)(a \<mapsto> i)\<rparr>"

definition buffer_at :: "addr \<Rightarrow> world \<Rightarrow> buffer_instance res" where
  "buffer_at a w = (case buffers w a of None \<Rightarrow> Inl Use_after_free | Some i \<Rightarrow> Inr i)"

definition buffer_put :: "addr \<Rightarrow> buffer_instance \<Rightarrow> world \<Rightarrow> world" where
  "buffer_put a i w = w\<lparr>buffers := (buffers w)(a \<mapsto> i)\<rparr>"

text \<open>Following a pointer that may be null.\<close>

definition deref :: "addr option \<Rightarrow> addr res" where
  "deref p = (case p of None \<Rightarrow> Inl Null_deref | Some a \<Rightarrow> Inr a)"

lemma deref_simps [simp]: "deref None = Inl Null_deref" "deref (Some a) = Inr a"
  by (simp_all add: deref_def)

text \<open>A call that is given the structure of the handle \<open>a\<close> and may write into it.\<close>

definition uv_on_handle ::
  "env \<Rightarrow> string \<Rightarrow> addr \<Rightarrow> arg list \<Rightarrow> world \<Rightarrow> (int \<times> world) res" where
  "uv_on_handle env f a args w =
     (let e = Call f (Ptr (Some a) # args) in
      rbind (handle_at a w) (\<lambda>i.
        Inr (uv_ret env (trace w) e,
             emit e (handle_put a (i\<lparr>h_uv := uv_eff env (trace w) e (h_uv i)\<rparr>) w))))"

text \<open>The same for the structure of a request.\<close>

definition uv_on_request ::
  "env \<Rightarrow> string \<Rightarrow> addr \<Rightarrow> arg list \<Rightarrow> world \<Rightarrow> (int \<times> world) res" where
  "uv_on_request env f a args w =
     (let e = Call f (Ptr (Some a) # args) in
      rbind (request_at a w) (\<lambda>i.
        Inr (uv_ret env (trace w) e,
             emit e (request_put a (i\<lparr>r_uv := uv_req_eff env (trace w) e (r_uv i)\<rparr>) w))))"

section \<open>Program variables\<close>

text \<open>
  The counter stays above every variable in use, so that \<open>nxt\<close> is always fresh.
\<close>

definition var_load :: "var \<Rightarrow> world \<Rightarrow> obj option res" where
  "var_load v w = (case vars w v of None \<Rightarrow> Inl Dead_variable | Some p \<Rightarrow> Inr p)"

definition var_store :: "var \<Rightarrow> obj option \<Rightarrow> world \<Rightarrow> world" where
  "var_store v p w = w\<lparr>vars := (vars w)(v \<mapsto> p), nxt := max (nxt w) (Suc v)\<rparr>"

definition var_drop :: "var \<Rightarrow> world \<Rightarrow> world" where
  "var_drop v w = w\<lparr>vars := (vars w)(v := None)\<rparr>"

text \<open>A fresh variable holding the given pointer, as for a parameter passed by value.\<close>

definition var_new :: "obj option \<Rightarrow> world \<Rightarrow> var \<times> world" where
  "var_new p w = (nxt w, w\<lparr>vars := (vars w)(nxt w \<mapsto> p), nxt := Suc (nxt w)\<rparr>)"

section \<open>Initial values\<close>

text \<open>The default member initialisers of the instances.\<close>

definition uv_struct_init :: uv_struct where
  "uv_struct_init = \<lparr>u_type = UV_UNKNOWN_HANDLE, u_loop = None, u_result = 0, u_repeat = 0,
     u_signum = 0, u_queue_size = 0, u_ipc = 0, u_pid = 0, u_path = None\<rparr>"

definition io_properties_init :: io_properties where
  "io_properties_init = \<lparr>rdstate_switch = False, rdcmd_state = Rd_UNKNOWN, rdsize = 0,
     rdoffset = 0, alloc_cb = None, read_cb = None\<rparr>"

definition file_properties_init :: file_properties where
  "file_properties_init = \<lparr>open_cb = None, rd_base = None, write_queue_size = 0,
     is_closing_flag = 0\<rparr>"

definition watch_properties_init :: watch_properties where
  "watch_properties_init = \<lparr>opcmd_state = Op_UNKNOWN, event_cb = None, has_extra_ref = False,
     signum_prop = 0, event_flags = 0, watch_path = [], connection_cb = None\<rparr>"

definition world_init :: world where
  "world_init = \<lparr>loops = (\<lambda>_. None), handles = (\<lambda>_. None), buffers = (\<lambda>_. None),
     requests = (\<lambda>_. None), vars = (\<lambda>_. None), nxt = 0, trace = []\<rparr>"

end
