(* ===== verification/Uvcc_Refcount.thy ===== *)
theory Uvcc_Refcount
  imports Uvcc_World
begin

text \<open>
  Reference counting. The invariant \<open>winv E w\<close> says that the count stored in every live
  instance is the number of references that exist to it: program variables, bookings of a loop
  by handles, the references active handles keep to themselves, and the references \<open>E\<close> that running code and pending requests own. The
  constructors and assignments of the wrapper classes are written once, for any class; their
  correctness is proved once, in the locale \<open>refcounted\<close>.
\<close>

section \<open>The invariant\<close>

definition live_refs :: "world \<Rightarrow> obj \<Rightarrow> int option" where
  "live_refs w p = (case p of
      LoopO a \<Rightarrow> map_option l_refs (loops w a)
    | HandleO a \<Rightarrow> map_option h_refs (handles w a)
    | BufferO a \<Rightarrow> map_option b_refs (buffers w a)
    | RequestO a \<Rightarrow> map_option r_refs (requests w a))"

definition booking :: "world \<Rightarrow> addr \<rightharpoonup> addr option" where
  "booking w = (\<lambda>a. map_option h_loop (handles w a))"

text \<open>
  A handle keeps itself alive while it is being read from, while its watcher is started, and
  while its timer is armed: the commands that bring it into such a state take a reference to
  it, which \<open>owes\<close> counts, and those that leave the state give it back.
\<close>

fun reading :: "rdcmd \<Rightarrow> bool" where
  "reading Rd_START = True"
| "reading Rd_RESUME = True"
| "reading _ = False"

fun watching :: "opcmd \<Rightarrow> bool" where
  "watching Op_START = True"
| "watching Op_START_ONESHOT = True"
| "watching _ = False"

definition owes :: "handle_instance \<Rightarrow> nat" where
  "owes i = of_bool (reading (rdcmd_state (h_io i))) + of_bool (watching (opcmd_state (h_watch i)))
     + of_bool (has_extra_ref (h_watch i))"

lemma owes_upd [simp]:
  "owes (i\<lparr>h_refs := c\<rparr>) = owes i" "owes (i\<lparr>h_uv_error := r\<rparr>) = owes i"
  "owes (i\<lparr>h_uv := u\<rparr>) = owes i" "owes (i\<lparr>h_loop := l\<rparr>) = owes i"
  "owes (i\<lparr>h_destroy_cb := d\<rparr>) = owes i" "owes (i\<lparr>h_file := f\<rparr>) = owes i"
  by (simp_all add: owes_def)

text \<open>The references kept in instances: of a loop by its handles, of a handle by itself.\<close>

definition booked :: "world \<Rightarrow> obj \<Rightarrow> nat" where
  "booked w p = (case p of
      LoopO l \<Rightarrow> count_ptr (booking w) l
    | HandleO a \<Rightarrow> (case handles w a of None \<Rightarrow> 0 | Some i \<Rightarrow> owes i)
    | _ \<Rightarrow> 0)"

definition bounded :: "world \<Rightarrow> bool" where
  "bounded w \<longleftrightarrow> (\<forall>v \<in> dom (vars w). v < nxt w) \<and> (\<forall>a \<in> dom (handles w). a < nxt w) \<and>
     (\<forall>a \<in> dom (loops w). a < nxt w) \<and> (\<forall>a \<in> dom (buffers w). a < nxt w) \<and>
     (\<forall>a \<in> dom (requests w). a < nxt w)"

definition held :: "(obj \<Rightarrow> nat) \<Rightarrow> world \<Rightarrow> obj \<Rightarrow> nat" where
  "held E w p = count_ptr (vars w) p + booked w p + E p"

fun agrees :: "int option \<Rightarrow> nat \<Rightarrow> bool" where
  "agrees None n = (n = 0)"
| "agrees (Some c) n = (c = int n \<and> 0 < n)"

definition winv :: "(obj \<Rightarrow> nat) \<Rightarrow> world \<Rightarrow> bool" where
  "winv E w \<longleftrightarrow> bounded w \<and> (\<forall>p. agrees (live_refs w p) (held E w p))"

definition inc :: "obj \<Rightarrow> (obj \<Rightarrow> nat) \<Rightarrow> obj \<Rightarrow> nat" where
  "inc p E = E(p := Suc (E p))"

lemma inc_apply: "inc p E q = (if q = p then Suc (E q) else E q)"
  by (simp add: inc_def)

lemma inc_commute: "inc p (inc q E) = inc q (inc p E)"
  unfolding inc_def by (cases "p = q") (simp_all add: fun_upd_twist)

lemma agrees_Some: "agrees x n \<Longrightarrow> 0 < n \<Longrightarrow> x = Some (int n)"
  by (cases x) auto

lemma bounded_finite:
  assumes "bounded w"
  shows "finite (dom (vars w))" and "finite (dom (booking w))"
proof -
  have "dom (vars w) \<subseteq> {..<nxt w}"
    using assms by (auto simp: bounded_def)
  then show "finite (dom (vars w))"
    by (rule finite_subset) simp
  have "dom (booking w) \<subseteq> {..<nxt w}"
    using assms by (auto simp: bounded_def booking_def)
  then show "finite (dom (booking w))"
    by (rule finite_subset) simp
qed

lemma winv_bounded: "winv E w \<Longrightarrow> bounded w"
  by (simp add: winv_def)

lemma winv_finite: "winv E w \<Longrightarrow> finite (dom (vars w))" "winv E w \<Longrightarrow> finite (dom (booking w))"
  by (simp_all add: winv_def bounded_finite)

lemma winv_agrees: "winv E w \<Longrightarrow> agrees (live_refs w p) (held E w p)"
  by (simp add: winv_def)

lemma winv_live: "winv E w \<Longrightarrow> 0 < held E w p \<Longrightarrow> live_refs w p = Some (int (held E w p))"
  by (rule agrees_Some [OF winv_agrees])

text \<open>A variable never dangles, and neither does a reference owned by running code.\<close>

lemma winv_var_live:
  assumes "winv E w" and "vars w v = Some (Some p)"
  shows "live_refs w p \<noteq> None"
  using winv_live [OF assms(1), of p] count_ptr_pos [OF winv_finite(1) [OF assms(1)] assms(2)]
  by (simp add: held_def)

lemma winv_owned_live: "winv (inc p E) w \<Longrightarrow> live_refs w p = Some (int (held E w p) + 1)"
  using winv_live [of "inc p E" w p] by (simp add: held_def inc_apply)

lemma winv_owned_live': "winv E w \<Longrightarrow> 0 < E p \<Longrightarrow> live_refs w p \<noteq> None"
  using winv_live [of E w p] by (simp add: held_def)

lemma live_handle: "live_refs w (HandleO a) = map_option h_refs (handles w a)"
  and live_loop: "live_refs w (LoopO a) = map_option l_refs (loops w a)"
  and live_buffer: "live_refs w (BufferO a) = map_option b_refs (buffers w a)"
  and live_request: "live_refs w (RequestO a) = map_option r_refs (requests w a)"
  by (simp_all add: live_refs_def)

lemmas live_simps = live_handle live_loop live_buffer live_request

section \<open>Changes of the world and the invariant\<close>

text \<open>Only the counts, the variables, the bookings and the counter matter.\<close>

lemma winv_view:
  assumes "live_refs w' = live_refs w" "vars w' = vars w" "booked w' = booked w" "bounded w'"
  shows "winv E w \<Longrightarrow> winv E w'"
  using assms by (simp add: winv_def held_def)

text \<open>A count goes up together with the references owned by running code.\<close>

lemma winv_count_up:
  assumes inv: "winv E w" and live: "live_refs w p = Some c"
    and new: "live_refs w' = (live_refs w)(p \<mapsto> c + 1)"
    and same: "vars w' = vars w" "booked w' = booked w" "bounded w'"
  shows "winv (inc p E) w'"
  unfolding winv_def
proof (intro conjI allI)
  show "bounded w'" by fact
  fix q
  show "agrees (live_refs w' q) (held (inc p E) w' q)"
    using winv_agrees [OF inv, of q] live by (auto simp: new same held_def inc_apply)
qed

text \<open>It goes down again while it stays positive.\<close>

lemma winv_count_down:
  assumes inv: "winv (inc p E) w" and live: "live_refs w p = Some c" "c \<noteq> 1"
    and new: "live_refs w' = (live_refs w)(p \<mapsto> c - 1)"
    and same: "vars w' = vars w" "booked w' = booked w" "bounded w'"
  shows "winv E w'"
  unfolding winv_def
proof (intro conjI allI)
  show "bounded w'" by fact
  fix q
  show "agrees (live_refs w' q) (held E w' q)"
    using winv_agrees [OF inv, of q] winv_agrees [OF inv, of p] live
    by (auto simp: new same held_def inc_apply split: if_splits)
qed

text \<open>When the last reference goes the instance may go.\<close>

lemma winv_last:
  assumes inv: "winv (inc p E) w" and live: "live_refs w p = Some 1"
    and new: "live_refs w' = (live_refs w)(p := None)"
    and same: "vars w' = vars w" "booked w' = booked w" "bounded w'"
  shows "winv E w'"
  unfolding winv_def
proof (intro conjI allI)
  show "bounded w'" by fact
  fix q
  show "agrees (live_refs w' q) (held E w' q)"
    using winv_agrees [OF inv, of q] winv_agrees [OF inv, of p] live
    by (auto simp: new same held_def inc_apply split: if_splits)
qed

text \<open>Moving a reference between a variable and the running code.\<close>

lemma live_refs_cong:
  "loops w' = loops w \<Longrightarrow> handles w' = handles w \<Longrightarrow> buffers w' = buffers w \<Longrightarrow>
   requests w' = requests w \<Longrightarrow> live_refs w' = live_refs w"
  by (rule ext) (simp add: live_refs_def split: obj.split)

lemma booked_cong: "handles w' = handles w \<Longrightarrow> booked w' = booked w"
  by (rule ext) (simp add: booked_def booking_def split: obj.split)

lemma winv_vars:
  assumes inv: "winv E w"
    and same: "loops w' = loops w" "handles w' = handles w" "buffers w' = buffers w"
      "requests w' = requests w"
    and bnd: "bounded w'"
    and cnt: "\<And>p. count_ptr (vars w') p + E' p = count_ptr (vars w) p + E p"
  shows "winv E' w'"
proof -
  have "held E' w' p = held E w p" for p
    using cnt [of p] booked_cong [OF same(2)] by (simp add: held_def)
  with inv bnd show ?thesis
    by (simp add: winv_def live_refs_cong [OF same])
qed

lemma bounded_var_store: "bounded w \<Longrightarrow> bounded (var_store v p w)"
  by (auto simp: bounded_def var_store_def less_max_iff_disj less_Suc_eq_le)

lemma bounded_var_drop: "bounded w \<Longrightarrow> bounded (var_drop v w)"
  by (auto simp: bounded_def var_drop_def)

lemma vars_var_store [store_simps]: "vars (var_store v p w) = (vars w)(v \<mapsto> p)"
  by (simp add: var_store_def)

lemma vars_var_drop [store_simps]: "vars (var_drop v w) = (vars w)(v := None)"
  by (simp add: var_drop_def)

lemma stores_var_store [store_simps]:
  "loops (var_store v p w) = loops w" "handles (var_store v p w) = handles w"
  "buffers (var_store v p w) = buffers w" "requests (var_store v p w) = requests w"
  "trace (var_store v p w) = trace w"
  by (simp_all add: var_store_def)

lemma stores_var_drop [store_simps]:
  "loops (var_drop v w) = loops w" "handles (var_drop v w) = handles w"
  "buffers (var_drop v w) = buffers w" "requests (var_drop v w) = requests w"
  "trace (var_drop v w) = trace w"
  by (simp_all add: var_drop_def)

definition owned :: "obj option \<Rightarrow> (obj \<Rightarrow> nat) \<Rightarrow> obj \<Rightarrow> nat" where
  "owned p E = (case p of None \<Rightarrow> E | Some q \<Rightarrow> inc q E)"

lemma owned_simps [simp]: "owned None E = E" "owned (Some q) E = inc q E"
  by (simp_all add: owned_def)

lemma owned_apply: "owned p E q = E q + (if p = Some q then 1 else 0)"
  by (auto simp: owned_def inc_apply split: option.split)

lemma owned_commute: "owned p (owned q E) = owned q (owned p E)"
  by (rule ext) (simp add: owned_apply)

text \<open>A variable that holds no reference takes over one that running code owns.\<close>

lemma winv_var_acquire:
  assumes inv: "winv (owned p E) w" and empty: "vars w v = None \<or> vars w v = Some None"
  shows "winv E (var_store v p w)"
proof (rule winv_vars [OF inv])
  show "bounded (var_store v p w)"
    by (rule bounded_var_store [OF winv_bounded [OF inv]])
  show "count_ptr (vars (var_store v p w)) q + E q = count_ptr (vars w) q + owned p E q" for q
    using count_ptr_upd_aux [OF winv_finite(1) [OF inv], of v "Some p" q] empty
    by (auto simp: owned_apply store_simps holds_def)
qed (simp_all add: store_simps)

text \<open>A variable gives its reference to the running code and is nulled.\<close>

lemma winv_var_release:
  assumes inv: "winv E w" and holds: "vars w v = Some p"
  shows "winv (owned p E) (var_store v None w)"
proof (rule winv_vars [OF inv])
  show "bounded (var_store v None w)"
    by (rule bounded_var_store [OF winv_bounded [OF inv]])
  show "count_ptr (vars (var_store v None w)) q + owned p E q = count_ptr (vars w) q + E q" for q
    using count_ptr_upd_aux [OF winv_finite(1) [OF inv], of v "Some None" q] holds
    by (auto simp: owned_apply store_simps holds_def)
qed (simp_all add: store_simps)

text \<open>The same when the variable goes out of scope.\<close>

lemma winv_var_drop:
  assumes inv: "winv E w" and holds: "vars w v = Some p"
  shows "winv (owned p E) (var_drop v w)"
proof (rule winv_vars [OF inv])
  show "bounded (var_drop v w)"
    by (rule bounded_var_drop [OF winv_bounded [OF inv]])
  show "count_ptr (vars (var_drop v w)) q + owned p E q = count_ptr (vars w) q + E q" for q
    using count_ptr_upd_aux [OF winv_finite(1) [OF inv], of v None q] holds
    by (auto simp: owned_apply store_simps holds_def)
qed (simp_all add: store_simps)

text \<open>A fresh variable takes over a reference.\<close>

lemma var_new_store: "var_new p w = (nxt w, var_store (nxt w) p w)"
  by (simp add: var_new_def var_store_def)

lemma fresh_var: "winv E w \<Longrightarrow> vars w (nxt w) = None"
  using winv_bounded [of E w] by (auto simp: bounded_def)

lemma winv_var_new: "winv (owned p E) w \<Longrightarrow> winv E (var_store (nxt w) p w)"
  by (rule winv_var_acquire) (simp_all add: fresh_var)

section \<open>The elementary store operations\<close>

lemma live_refs_put [store_simps]:
  "live_refs (handle_put a i w) = (live_refs w)(HandleO a \<mapsto> h_refs i)"
  "live_refs (loop_put a l w) = (live_refs w)(LoopO a \<mapsto> l_refs l)"
  "live_refs (buffer_put a b w) = (live_refs w)(BufferO a \<mapsto> b_refs b)"
  "live_refs (request_put a q w) = (live_refs w)(RequestO a \<mapsto> r_refs q)"
  by (rule ext; simp add: live_refs_def handle_put_def loop_put_def buffer_put_def
      request_put_def split: obj.split)+

lemma live_refs_emit [store_simps]: "live_refs (emit e w) = live_refs w"
  by (rule live_refs_cong) (simp_all add: emit_def)

lemma vars_put [store_simps]:
  "vars (handle_put a i w) = vars w" "vars (loop_put a l w) = vars w"
  "vars (buffer_put a b w) = vars w" "vars (request_put a q w) = vars w"
  "vars (emit e w) = vars w"
  by (simp_all add: handle_put_def loop_put_def buffer_put_def request_put_def emit_def)

lemma nxt_put [store_simps]:
  "nxt (handle_put a i w) = nxt w" "nxt (loop_put a l w) = nxt w"
  "nxt (buffer_put a b w) = nxt w" "nxt (request_put a q w) = nxt w"
  "nxt (emit e w) = nxt w"
  by (simp_all add: handle_put_def loop_put_def buffer_put_def request_put_def emit_def)

lemma trace_put [store_simps]:
  "trace (handle_put a i w) = trace w" "trace (loop_put a l w) = trace w"
  "trace (buffer_put a b w) = trace w" "trace (request_put a q w) = trace w"
  "trace (emit e w) = trace w @ [e]"
  by (simp_all add: handle_put_def loop_put_def buffer_put_def request_put_def emit_def)

lemma handles_put [store_simps]:
  "handles (handle_put a i w) = (handles w)(a \<mapsto> i)" "handles (loop_put a l w) = handles w"
  "handles (buffer_put a b w) = handles w" "handles (request_put a q w) = handles w"
  "handles (emit e w) = handles w"
  by (simp_all add: handle_put_def loop_put_def buffer_put_def request_put_def emit_def)

lemma loops_put [store_simps]:
  "loops (handle_put a i w) = loops w" "loops (loop_put a l w) = (loops w)(a \<mapsto> l)"
  "loops (buffer_put a b w) = loops w" "loops (request_put a q w) = loops w"
  "loops (emit e w) = loops w"
  by (simp_all add: handle_put_def loop_put_def buffer_put_def request_put_def emit_def)

lemma buffers_put [store_simps]:
  "buffers (handle_put a i w) = buffers w" "buffers (loop_put a l w) = buffers w"
  "buffers (buffer_put a b w) = (buffers w)(a \<mapsto> b)" "buffers (request_put a q w) = buffers w"
  "buffers (emit e w) = buffers w"
  by (simp_all add: handle_put_def loop_put_def buffer_put_def request_put_def emit_def)

lemma requests_put [store_simps]:
  "requests (handle_put a i w) = requests w" "requests (loop_put a l w) = requests w"
  "requests (buffer_put a b w) = requests w" "requests (request_put a q w) = (requests w)(a \<mapsto> q)"
  "requests (emit e w) = requests w"
  by (simp_all add: handle_put_def loop_put_def buffer_put_def request_put_def emit_def)

lemma booked_put [store_simps]:
  "booked (loop_put a l w) = booked w" "booked (buffer_put a b w) = booked w"
  "booked (request_put a q w) = booked w" "booked (emit e w) = booked w"
  by (rule booked_cong, simp add: store_simps)+

lemma booking_handle_put: "booking (handle_put a i w) = (booking w)(a \<mapsto> h_loop i)"
  by (auto simp: booking_def handle_put_def)

lemma booked_handle_put:
  assumes "handles w a = Some i" "h_loop j = h_loop i" "owes j = owes i"
  shows "booked (handle_put a j w) = booked w"
proof -
  have "booking (handle_put a j w) = booking w"
    using assms by (auto simp: booking_def handle_put_def fun_eq_iff)
  then show ?thesis
    using assms by (intro ext) (simp add: booked_def store_simps split: obj.split)
qed

lemma bounded_put:
  "bounded w \<Longrightarrow> handles w a \<noteq> None \<Longrightarrow> bounded (handle_put a i w)"
  "bounded w \<Longrightarrow> loops w a \<noteq> None \<Longrightarrow> bounded (loop_put a l w)"
  "bounded w \<Longrightarrow> buffers w a \<noteq> None \<Longrightarrow> bounded (buffer_put a b w)"
  "bounded w \<Longrightarrow> requests w a \<noteq> None \<Longrightarrow> bounded (request_put a q w)"
  by (auto simp: bounded_def store_simps)

lemma bounded_emit [simp]: "bounded (emit e w) = bounded w"
  by (simp add: bounded_def store_simps)

lemma winv_emit [simp]: "winv E (emit e w) = winv E w"
  by (simp add: winv_def held_def store_simps)

text \<open>Updating an instance without touching its count or booking keeps the invariant.\<close>

lemma winv_handle_put:
  assumes "winv E w" "handles w a = Some i" "h_refs j = h_refs i" "h_loop j = h_loop i" "owes j = owes i"
  shows "winv E (handle_put a j w)"
proof (rule winv_view [OF _ _ _ _ assms(1)])
  show "live_refs (handle_put a j w) = live_refs w"
    using assms by (simp add: store_simps fun_upd_idem live_simps)
  show "bounded (handle_put a j w)"
    using assms by (intro bounded_put winv_bounded) auto
qed (use assms in \<open>simp_all add: store_simps booked_handle_put\<close>)

lemma winv_loop_put:
  assumes "winv E w" "loops w a = Some i" "l_refs j = l_refs i"
  shows "winv E (loop_put a j w)"
proof (rule winv_view [OF _ _ _ _ assms(1)])
  show "live_refs (loop_put a j w) = live_refs w"
    using assms by (simp add: store_simps fun_upd_idem live_simps)
  show "bounded (loop_put a j w)"
    using assms by (intro bounded_put winv_bounded) auto
qed (simp_all add: store_simps)

lemma winv_buffer_put:
  assumes "winv E w" "buffers w a = Some i" "b_refs j = b_refs i"
  shows "winv E (buffer_put a j w)"
proof (rule winv_view [OF _ _ _ _ assms(1)])
  show "live_refs (buffer_put a j w) = live_refs w"
    using assms by (simp add: store_simps fun_upd_idem live_simps)
  show "bounded (buffer_put a j w)"
    using assms by (intro bounded_put winv_bounded) auto
qed (simp_all add: store_simps)

lemma winv_request_put:
  assumes "winv E w" "requests w a = Some i" "r_refs j = r_refs i"
  shows "winv E (request_put a j w)"
proof (rule winv_view [OF _ _ _ _ assms(1)])
  show "live_refs (request_put a j w) = live_refs w"
    using assms by (simp add: store_simps fun_upd_idem live_simps)
  show "bounded (request_put a j w)"
    using assms by (intro bounded_put winv_bounded) auto
qed (simp_all add: store_simps)

text \<open>One reference more, owned by the running code, and one less.\<close>

lemma winv_handle_change:
  assumes inv: "winv E w" and i: "handles w a = Some i" and loop: "h_loop j = h_loop i"
    and sum: "h_refs j - int (owes j) - int (E' (HandleO a)) = h_refs i - int (owes i) - int (E (HandleO a))"
    and other: "\<And>p. p \<noteq> HandleO a \<Longrightarrow> E' p = E p" and pos: "0 < h_refs j"
  shows "winv E' (handle_put a j w)"
  unfolding winv_def
proof (intro conjI allI)
  show "bounded (handle_put a j w)"
    using i by (intro bounded_put winv_bounded [OF inv]) auto
  fix p
  have "booking (handle_put a j w) = booking w"
    using i loop by (auto simp: booking_def handle_put_def fun_eq_iff)
  then have book: "booked (handle_put a j w) p = (if p = HandleO a then owes j else booked w p)"
    by (auto simp: booked_def store_simps split: obj.split)
  show "agrees (live_refs (handle_put a j w) p) (held E' (handle_put a j w) p)"
  proof (cases "p = HandleO a")
    case True
    then show ?thesis
      using winv_agrees [OF inv, of p] book i sum pos
      by (auto simp: store_simps held_def live_handle booked_def [of w])
  next
    case False
    then show ?thesis
      using winv_agrees [OF inv, of p] other by (simp add: store_simps held_def book)
  qed
qed

lemma winv_handle_up:
  assumes "winv E w" "handles w a = Some i" "h_refs j = h_refs i + 1" "h_loop j = h_loop i" "owes j = owes i"
  shows "winv (inc (HandleO a) E) (handle_put a j w)"
  by (rule winv_count_up [OF assms(1), of _ "h_refs i"])
    (use assms winv_bounded [OF assms(1)] in
      \<open>simp_all add: store_simps booked_handle_put live_simps bounded_put\<close>)

lemma winv_handle_down:
  assumes "winv (inc (HandleO a) E) w" "handles w a = Some i" "h_refs i \<noteq> 1"
    "h_refs j = h_refs i - 1" "h_loop j = h_loop i" "owes j = owes i"
  shows "winv E (handle_put a j w)"
  by (rule winv_count_down [OF assms(1), of "h_refs i"])
    (use assms winv_bounded [OF assms(1)] in
      \<open>simp_all add: store_simps booked_handle_put live_simps bounded_put\<close>)

lemma winv_loop_up:
  assumes "winv E w" "loops w a = Some i" "l_refs j = l_refs i + 1"
  shows "winv (inc (LoopO a) E) (loop_put a j w)"
  by (rule winv_count_up [OF assms(1), of _ "l_refs i"])
    (use assms winv_bounded [OF assms(1)] in \<open>simp_all add: store_simps live_simps bounded_put\<close>)

lemma winv_buffer_up:
  assumes "winv E w" "buffers w a = Some i" "b_refs j = b_refs i + 1"
  shows "winv (inc (BufferO a) E) (buffer_put a j w)"
  by (rule winv_count_up [OF assms(1), of _ "b_refs i"])
    (use assms winv_bounded [OF assms(1)] in \<open>simp_all add: store_simps live_simps bounded_put\<close>)

lemma winv_buffer_down:
  assumes "winv (inc (BufferO a) E) w" "buffers w a = Some i" "b_refs i \<noteq> 1"
    "b_refs j = b_refs i - 1"
  shows "winv E (buffer_put a j w)"
  by (rule winv_count_down [OF assms(1), of "b_refs i"])
    (use assms winv_bounded [OF assms(1)] in \<open>simp_all add: store_simps live_simps bounded_put\<close>)

lemma winv_request_up:
  assumes "winv E w" "requests w a = Some i" "r_refs j = r_refs i + 1"
  shows "winv (inc (RequestO a) E) (request_put a j w)"
  by (rule winv_count_up [OF assms(1), of _ "r_refs i"])
    (use assms winv_bounded [OF assms(1)] in \<open>simp_all add: store_simps live_simps bounded_put\<close>)

lemma winv_request_down:
  assumes "winv (inc (RequestO a) E) w" "requests w a = Some i" "r_refs i \<noteq> 1"
    "r_refs j = r_refs i - 1"
  shows "winv E (request_put a j w)"
  by (rule winv_count_down [OF assms(1), of "r_refs i"])
    (use assms winv_bounded [OF assms(1)] in \<open>simp_all add: store_simps live_simps bounded_put\<close>)

text \<open>A live instance has a positive count.\<close>

lemma winv_refs_pos:
  "winv E w \<Longrightarrow> handles w a = Some i \<Longrightarrow> 0 < h_refs i"
  "winv E w \<Longrightarrow> loops w a = Some l \<Longrightarrow> 0 < l_refs l"
  "winv E w \<Longrightarrow> buffers w a = Some b \<Longrightarrow> 0 < b_refs b"
  "winv E w \<Longrightarrow> requests w a = Some q \<Longrightarrow> 0 < r_refs q"
  using winv_agrees [of E w "HandleO a"] winv_agrees [of E w "LoopO a"]
    winv_agrees [of E w "BufferO a"] winv_agrees [of E w "RequestO a"]
  by (auto simp: live_simps)

end
