(* ===== verification/Uvcc_Pointer.thy ===== *)
theory Uvcc_Pointer
  imports Uvcc_Refcount
begin

text \<open>
  The wrapper classes \<open>handle\<close>, \<open>request\<close>, \<open>buffer\<close> and \<open>loop\<close> hold one pointer and repeat the
  same constructors, assignments, destructor and \<open>swap\<close>, differing in whose \<open>ref()\<close> and
  \<open>unref()\<close> they call. The functions below take these two as arguments; each class
  instantiates them in its own theory. The locale \<open>refcounted\<close> states what a class must
  promise of its \<open>ref()\<close> and \<open>unref()\<close> and proves the operations correct from that.
\<close>

section \<open>The operations\<close>

definition sp_from :: "(obj \<Rightarrow> world \<Rightarrow> world res) \<Rightarrow> var \<Rightarrow> obj option \<Rightarrow> world \<Rightarrow> world res" where
  "sp_from ref v p w =
     rbind (case p of None \<Rightarrow> Inr w | Some q \<Rightarrow> ref q w) (\<lambda>w.
     Inr (var_store v p w))"

definition sp_copy_ctor :: "(obj \<Rightarrow> world \<Rightarrow> world res) \<Rightarrow> var \<Rightarrow> var \<Rightarrow> world \<Rightarrow> world res" where
  "sp_copy_ctor ref v that w = rbind (var_load that w) (\<lambda>p. sp_from ref v p w)"

definition sp_copy_assign ::
  "(obj \<Rightarrow> world \<Rightarrow> world res) \<Rightarrow> (obj \<Rightarrow> world \<Rightarrow> world res) \<Rightarrow>
   var \<Rightarrow> var \<Rightarrow> world \<Rightarrow> world res" where
  "sp_copy_assign ref unref v that w =
     (if v \<noteq> that then
        rbind (var_load that w) (\<lambda>p.
        rbind (case p of None \<Rightarrow> Inr w | Some q \<Rightarrow> ref q w) (\<lambda>w.
        rbind (var_load v w) (\<lambda>t.
        let w = var_store v p w in
        case t of None \<Rightarrow> Inr w | Some q \<Rightarrow> unref q w)))
      else Inr w)"

definition sp_move_ctor :: "var \<Rightarrow> var \<Rightarrow> world \<Rightarrow> world res" where
  "sp_move_ctor v that w =
     rbind (var_load that w) (\<lambda>p. Inr (var_store that None (var_store v p w)))"

definition sp_move_assign ::
  "(obj \<Rightarrow> world \<Rightarrow> world res) \<Rightarrow> var \<Rightarrow> var \<Rightarrow> world \<Rightarrow> world res" where
  "sp_move_assign unref v that w =
     (if v \<noteq> that then
        rbind (var_load v w) (\<lambda>t.
        rbind (var_load that w) (\<lambda>p.
        let w = var_store that None (var_store v p w) in
        case t of None \<Rightarrow> Inr w | Some q \<Rightarrow> unref q w))
      else Inr w)"

text \<open>The lifetime of a variable ends when its destructor begins.\<close>

definition sp_dtor :: "(obj \<Rightarrow> world \<Rightarrow> world res) \<Rightarrow> var \<Rightarrow> world \<Rightarrow> world res" where
  "sp_dtor unref v w =
     rbind (var_load v w) (\<lambda>p.
     let w = var_drop v w in
     case p of None \<Rightarrow> Inr w | Some q \<Rightarrow> unref q w)"

definition sp_swap :: "var \<Rightarrow> var \<Rightarrow> world \<Rightarrow> world res" where
  "sp_swap v that w =
     rbind (var_load v w) (\<lambda>p.
     rbind (var_load that w) (\<lambda>q.
     Inr (var_store that p (var_store v q w))))"

lemmas sp_defs = sp_from_def sp_copy_ctor_def sp_copy_assign_def sp_move_ctor_def
  sp_move_assign_def sp_dtor_def sp_swap_def

lemma var_load_Some: "vars w v = Some p \<Longrightarrow> var_load v w = Inr p"
  by (simp add: var_load_def)

section \<open>Correctness from a contract\<close>

text \<open>
  The contract: \<open>ref\<close> on a live instance succeeds, adds one reference owned by the caller and
  touches no variable; \<open>unref\<close> uses up one reference the caller owns. \<open>mine\<close> are the instances
  of the class, \<open>usable\<close> what the environment has to guarantee.
\<close>

locale refcounted =
  fixes ref unref :: "obj \<Rightarrow> world \<Rightarrow> world res"
    and mine :: "obj \<Rightarrow> bool"
    and usable :: bool
  assumes ref_law: "usable \<Longrightarrow> winv E w \<Longrightarrow> mine p \<Longrightarrow> live_refs w p \<noteq> None \<Longrightarrow>
      ok (\<lambda>w'. winv (inc p E) w' \<and> vars w' = vars w) (ref p w)"
    and unref_law: "usable \<Longrightarrow> winv (inc p E) w \<Longrightarrow> mine p \<Longrightarrow> ok (winv E) (unref p w)"
begin

definition fits :: "obj option \<Rightarrow> bool" where
  "fits p \<longleftrightarrow> (\<forall>q. p = Some q \<longrightarrow> mine q)"

lemma ref_opt_ok:
  assumes "usable" "winv E w" "fits p" "\<And>q. p = Some q \<Longrightarrow> live_refs w q \<noteq> None"
  shows "ok (\<lambda>w'. winv (owned p E) w' \<and> vars w' = vars w)
           (case p of None \<Rightarrow> Inr w | Some q \<Rightarrow> ref q w)"
  using assms ref_law by (cases p) (auto simp: fits_def)

lemma unref_opt_ok:
  assumes "usable" "winv (owned p E) w" "fits p"
  shows "ok (winv E) (case p of None \<Rightarrow> Inr w | Some q \<Rightarrow> unref q w)"
  using assms unref_law by (cases p) (auto simp: fits_def)

text \<open>Copying leaves two variables with the same pointer, each counted.\<close>

lemma from_ok:
  assumes "usable" "winv E w" "fits p" "\<And>q. p = Some q \<Longrightarrow> live_refs w q \<noteq> None"
    and "vars w v = None"
  shows "ok (\<lambda>w'. winv E w' \<and> vars w' = (vars w)(v \<mapsto> p)) (sp_from ref v p w)"
  unfolding sp_from_def
  by (rule ok_bind [OF ref_opt_ok [OF assms(1-4)]])
    (use assms(5) in \<open>auto simp: store_simps intro: winv_var_acquire\<close>)

lemma copy_ctor_ok:
  assumes "usable" "winv E w" "vars w that = Some p" "fits p" "vars w v = None"
  shows "ok (\<lambda>w'. winv E w' \<and> vars w' = (vars w)(v \<mapsto> p)) (sp_copy_ctor ref v that w)"
  unfolding sp_copy_ctor_def var_load_Some [OF assms(3)] rbind_Inr
  by (rule from_ok [OF assms(1,2,4) _ assms(5)]) (use assms winv_var_live in auto)

text \<open>
  Assigning takes the new reference, stores it, and releases the reference held before.
\<close>

lemma copy_assign_step:
  assumes "usable" "winv E w" "vars w that = Some p" "fits p" "vars w v = Some t" "v \<noteq> that"
  shows "\<exists>w'. sp_copy_assign ref unref v that w = (case t of None \<Rightarrow> Inr w' | Some q \<Rightarrow> unref q w') \<and>
    winv (owned t E) w' \<and> vars w' = (vars w)(v \<mapsto> p)"
proof -
  have "ok (\<lambda>w'. winv (owned p E) w' \<and> vars w' = vars w)
      (case p of None \<Rightarrow> Inr w | Some q \<Rightarrow> ref q w)"
    using assms winv_var_live by (intro ref_opt_ok) auto
  then obtain w1 where r: "(case p of None \<Rightarrow> Inr w | Some q \<Rightarrow> ref q w) = Inr w1"
    and w1: "winv (owned p E) w1" "vars w1 = vars w"
    by (auto simp: ok_iff)
  from w1 assms(5) have v: "vars w1 v = Some t" by simp
  have "winv (owned t (owned p E)) (var_store v None w1)"
    using w1 v by (blast intro: winv_var_release)
  then have "winv (owned p (owned t E)) (var_store v None w1)"
    by (simp add: owned_commute)
  then have "winv (owned t E) (var_store v p (var_store v None w1))"
    by (rule winv_var_acquire) (simp add: store_simps)
  moreover have "var_store v p (var_store v None w1) = var_store v p w1"
    by (simp add: var_store_def)
  ultimately have "winv (owned t E) (var_store v p w1)" by simp
  moreover have "vars (var_store v p w1) = (vars w)(v \<mapsto> p)"
    by (simp add: store_simps w1)
  moreover have "sp_copy_assign ref unref v that w =
      (case t of None \<Rightarrow> Inr (var_store v p w1) | Some q \<Rightarrow> unref q (var_store v p w1))"
    using assms(6) by (simp add: sp_copy_assign_def var_load_Some [OF assms(3)] r
      var_load_Some [OF v] Let_def)
  ultimately show ?thesis by blast
qed

lemma copy_assign_ok:
  assumes "usable" "winv E w" "vars w that = Some p" "fits p" "vars w v = Some t" "fits t"
  shows "ok (winv E) (sp_copy_assign ref unref v that w)"
proof (cases "v = that")
  case True
  with assms(2) show ?thesis by (simp add: sp_copy_assign_def)
next
  case False
  with copy_assign_step [OF assms(1-5)] unref_opt_ok [OF assms(1) _ assms(6)]
  show ?thesis by fastforce
qed

text \<open>Moving transfers the reference and nulls the source; the old target is released.\<close>

lemma move_transfer:
  assumes "winv E w" "vars w that = Some p" "vars w v = None \<or> vars w v = Some None" "v \<noteq> that"
  shows "winv E (var_store that None (var_store v p w))"
proof -
  have "winv (owned p E) (var_store that None w)"
    using assms by (blast intro: winv_var_release)
  then have "winv E (var_store v p (var_store that None w))"
    by (rule winv_var_acquire) (use assms in \<open>auto simp: store_simps\<close>)
  moreover have "var_store v p (var_store that None w) = var_store that None (var_store v p w)"
    using assms(4) by (simp add: var_store_def fun_upd_twist max.commute max.left_commute)
  ultimately show ?thesis by simp
qed

lemma move_ctor_ok:
  assumes "winv E w" "vars w that = Some p" "vars w v = None"
  shows "ok (\<lambda>w'. winv E w' \<and> vars w' = (vars w)(v \<mapsto> p, that \<mapsto> None)) (sp_move_ctor v that w)"
proof -
  have "v \<noteq> that" using assms by auto
  with assms have "winv E (var_store that None (var_store v p w))"
    by (blast intro: move_transfer)
  then show ?thesis
    by (simp add: sp_move_ctor_def var_load_Some [OF assms(2)] store_simps)
qed

lemma move_assign_step:
  assumes "winv E w" "vars w that = Some p" "vars w v = Some t" "v \<noteq> that"
  shows "\<exists>w'. sp_move_assign unref v that w = (case t of None \<Rightarrow> Inr w' | Some q \<Rightarrow> unref q w') \<and>
    winv (owned t E) w' \<and> vars w' = (vars w)(v \<mapsto> p, that \<mapsto> None)"
proof -
  have "winv (owned t E) (var_store v None w)"
    using assms by (blast intro: winv_var_release)
  then have "winv (owned t E) (var_store that None (var_store v p (var_store v None w)))"
    by (rule move_transfer) (use assms in \<open>auto simp: store_simps\<close>)
  moreover have "var_store v p (var_store v None w) = var_store v p w"
    by (simp add: var_store_def)
  ultimately have "winv (owned t E) (var_store that None (var_store v p w))" by simp
  then show ?thesis
    using assms(4)
    by (intro exI [of _ "var_store that None (var_store v p w)"])
      (simp add: sp_move_assign_def var_load_Some [OF assms(2)] var_load_Some [OF assms(3)]
        Let_def store_simps)
qed

lemma move_assign_ok:
  assumes "usable" "winv E w" "vars w that = Some p" "vars w v = Some t" "fits t"
  shows "ok (winv E) (sp_move_assign unref v that w)"
proof (cases "v = that")
  case True
  with assms(2) show ?thesis by (simp add: sp_move_assign_def)
next
  case False
  with move_assign_step [OF assms(2-4)] unref_opt_ok [OF assms(1) _ assms(5)]
  show ?thesis by fastforce
qed

lemma dtor_ok:
  assumes "usable" "winv E w" "vars w v = Some p" "fits p"
  shows "ok (winv E) (sp_dtor unref v w)"
  using unref_opt_ok [OF assms(1) winv_var_drop [OF assms(2,3)] assms(4)]
  by (simp add: sp_dtor_def var_load_Some [OF assms(3)] Let_def)

end

text \<open>Swapping two variables leaves every count alone.\<close>

lemma count_ptr_swap:
  assumes "finite (dom m)" "m v = Some p" "m u = Some q"
  shows "count_ptr (m(v \<mapsto> q, u \<mapsto> p)) r = count_ptr m r"
proof (cases "v = u")
  case True
  with assms show ?thesis by (simp add: fun_upd_idem)
next
  case False
  with assms count_ptr_upd_aux [OF assms(1), of v "Some q" r]
    count_ptr_upd_aux [of "m(v \<mapsto> q)" u "Some p" r]
  show ?thesis by (auto simp: holds_def split: if_splits)
qed

lemma swap_ok:
  assumes "winv E w" "vars w v = Some p" "vars w that = Some q"
  shows "ok (\<lambda>w'. winv E w' \<and> vars w' = (vars w)(v \<mapsto> q, that \<mapsto> p)) (sp_swap v that w)"
proof -
  have "winv E (var_store that p (var_store v q w))"
  proof (rule winv_vars [OF assms(1)])
    show "bounded (var_store that p (var_store v q w))"
      by (intro bounded_var_store winv_bounded [OF assms(1)])
  qed (simp_all add: store_simps count_ptr_swap [OF winv_finite(1) [OF assms(1)] assms(2,3)])
  with assms show ?thesis
    by (simp add: sp_swap_def var_load_Some store_simps)
qed

text \<open>
  A class whose \<open>unref\<close> runs no client code moreover leaves the variables as they are, so the
  assignments can be described completely.
\<close>

locale refcounted_quiet = refcounted +
  assumes unref_quiet: "usable \<Longrightarrow> winv (inc p E) w \<Longrightarrow> mine p \<Longrightarrow>
      ok (\<lambda>w'. winv E w' \<and> vars w' = vars w) (unref p w)"
begin

lemma unref_opt_quiet:
  assumes "usable" "winv (owned p E) w" "fits p"
  shows "ok (\<lambda>w'. winv E w' \<and> vars w' = vars w) (case p of None \<Rightarrow> Inr w | Some q \<Rightarrow> unref q w)"
  using assms unref_quiet by (cases p) (auto simp: fits_def)

lemma copy_assign_quiet:
  assumes "usable" "winv E w" "vars w that = Some p" "fits p" "vars w v = Some t" "fits t"
  shows "ok (\<lambda>w'. winv E w' \<and> vars w' = (vars w)(v \<mapsto> p)) (sp_copy_assign ref unref v that w)"
proof (cases "v = that")
  case True
  with assms show ?thesis by (simp add: sp_copy_assign_def fun_upd_idem)
next
  case False
  with copy_assign_step [OF assms(1-5)] unref_opt_quiet [OF assms(1) _ assms(6)]
  show ?thesis by fastforce
qed

lemma move_assign_quiet:
  assumes "usable" "winv E w" "vars w that = Some p" "vars w v = Some t" "fits t" "v \<noteq> that"
  shows "ok (\<lambda>w'. winv E w' \<and> vars w' = (vars w)(v \<mapsto> p, that \<mapsto> None))
           (sp_move_assign unref v that w)"
  using move_assign_step [OF assms(2-4,6)] unref_opt_quiet [OF assms(1) _ assms(5)] by fastforce

lemma dtor_quiet:
  assumes "usable" "winv E w" "vars w v = Some p" "fits p"
  shows "ok (\<lambda>w'. winv E w' \<and> vars w' = (vars w)(v := None)) (sp_dtor unref v w)"
  using unref_opt_quiet [OF assms(1) winv_var_drop [OF assms(2,3)] assms(4)]
  by (simp add: sp_dtor_def var_load_Some [OF assms(3)] Let_def store_simps)

end

end
