(* ===== verification/Uvcc_Loop.thy ===== *)
theory Uvcc_Loop
  imports Uvcc_Pointer
begin

text \<open>
  \<^verbatim>\<open>loop.hpp\<close>: the event loop instance, its reference counting and its destructor, the wrapper
  class \<open>loop\<close>, and \<open>loop::run()\<close>.
\<close>

section \<open>The instance\<close>

definition loop_create :: "env \<Rightarrow> world \<Rightarrow> addr \<times> world" where
  "loop_create env w =
     (let a = nxt w;
          (r, w) = uv env ''uv_loop_init'' [Ptr (Some a)] w
      in (a, w\<lparr>loops := (loops w)(a \<mapsto> \<lparr>l_uv_error = r, l_refs = 1, l_destroy_cb = None,
                                      l_exit_cb = None\<rparr>),
               nxt := Suc a\<rparr>))"

definition loop_set_error :: "addr \<Rightarrow> int \<Rightarrow> world \<Rightarrow> world res" where
  "loop_set_error a r w = rbind (loop_at a w) (\<lambda>i. Inr (loop_put a (i\<lparr>l_uv_error := r\<rparr>) w))"

text \<open>The callback of the destructor's \<open>uv_walk()\<close>: count the handles that are not closing.\<close>

fun count_open_handles :: "env \<Rightarrow> addr list \<Rightarrow> 32 word \<Rightarrow> world \<Rightarrow> 32 word \<times> world" where
  "count_open_handles env [] n w = (n, w)"
| "count_open_handles env (h # hs) n w =
     (let (c, w) = uv env ''uv_is_closing'' [Ptr (Some h)] w
      in count_open_handles env hs (if c = 0 then n + 1 else n) w)"

text \<open>The loop of non-blocking runs before the second attempt to close.\<close>

fun premortal_run :: "env \<Rightarrow> nat \<Rightarrow> addr \<Rightarrow> world \<Rightarrow> world res" where
  "premortal_run env 0 a w = Inl Out_of_fuel"
| "premortal_run env (Suc fuel) a w =
     (let (r, w) = uv env ''uv_run'' [Ptr (Some a), Num (uv_run_mode_num UV_RUN_NOWAIT)] w
      in rbind (loop_set_error a r w) (\<lambda>w.
         if r \<noteq> 0 then premortal_run env fuel a w else Inr w))"

definition loop_dtor :: "env \<Rightarrow> addr \<Rightarrow> world \<Rightarrow> world res" where
  "loop_dtor env a w =
     (let (r, w) = uv env ''uv_loop_close'' [Ptr (Some a)] w
      in rbind (loop_set_error a r w) (\<lambda>w.
         if r = 0 then Inr w
         else
           (let hs = uv_walked env (trace w) a;
                (n, w) = count_open_handles env hs 0 (snd (uv env ''uv_walk'' [Ptr (Some a)] w))
            in if n \<noteq> 0 then (if unwinding env then Inr w else Inl Logic_error)
               else rbind (premortal_run env (run_fuel env) a w) (\<lambda>w.
                    let (r, w) = uv env ''uv_loop_close'' [Ptr (Some a)] w
                    in rbind (loop_set_error a r w) (\<lambda>w.
                       if r = 0 then Inr w else Inl Runtime_error)))))"

definition loop_remove :: "addr \<Rightarrow> world \<Rightarrow> world" where
  "loop_remove a w = w\<lparr>loops := (loops w)(a := None)\<rparr>"

definition call_destroy_cb :: "cb option \<Rightarrow> world \<Rightarrow> world" where
  "call_destroy_cb c w = (case c of None \<Rightarrow> w | Some c \<Rightarrow> emit (Destroy_cb c) w)"

definition loop_destroy :: "env \<Rightarrow> addr \<Rightarrow> world \<Rightarrow> world res" where
  "loop_destroy env a w =
     rbind (loop_at a w) (\<lambda>i.
     rbind (loop_dtor env a (call_destroy_cb (l_destroy_cb i) w)) (\<lambda>w.
     Inr (loop_remove a w)))"

definition loop_ref :: "addr \<Rightarrow> world \<Rightarrow> world res" where
  "loop_ref a w =
     rbind (loop_at a w) (\<lambda>i.
     rbind (ref_count_inc (l_refs i)) (\<lambda>c.
     Inr (loop_put a (i\<lparr>l_refs := c\<rparr>) w)))"

definition loop_unref :: "env \<Rightarrow> addr \<Rightarrow> world \<Rightarrow> world res" where
  "loop_unref env a w =
     rbind (loop_at a w) (\<lambda>i.
     let nrefs = ref_count_dec (l_refs i);
         w = loop_put a (i\<lparr>l_refs := nrefs\<rparr>) w
     in if nrefs = 0 then loop_destroy env a w else Inr w)"

section \<open>The wrapper class\<close>

fun is_loop :: "obj \<Rightarrow> bool" where
  "is_loop (LoopO a) = True"
| "is_loop _ = False"

fun loop_obj_ref :: "obj \<Rightarrow> world \<Rightarrow> world res" where
  "loop_obj_ref (LoopO a) w = loop_ref a w"
| "loop_obj_ref _ w = Inl Bad_cast"

fun loop_obj_unref :: "env \<Rightarrow> obj \<Rightarrow> world \<Rightarrow> world res" where
  "loop_obj_unref env (LoopO a) w = loop_unref env a w"
| "loop_obj_unref env _ w = Inl Bad_cast"

definition loop_ctor :: "env \<Rightarrow> var \<Rightarrow> world \<Rightarrow> world" where
  "loop_ctor env v w = (let (a, w) = loop_create env w in var_store v (Some (LoopO a)) w)"

definition loop_copy_ctor :: "var \<Rightarrow> var \<Rightarrow> world \<Rightarrow> world res" where
  "loop_copy_ctor = sp_copy_ctor loop_obj_ref"

definition loop_copy_assign :: "env \<Rightarrow> var \<Rightarrow> var \<Rightarrow> world \<Rightarrow> world res" where
  "loop_copy_assign env = sp_copy_assign loop_obj_ref (loop_obj_unref env)"

definition loop_move_ctor :: "var \<Rightarrow> var \<Rightarrow> world \<Rightarrow> world res" where
  "loop_move_ctor = sp_move_ctor"

definition loop_move_assign :: "env \<Rightarrow> var \<Rightarrow> var \<Rightarrow> world \<Rightarrow> world res" where
  "loop_move_assign env = sp_move_assign (loop_obj_unref env)"

definition loop_var_dtor :: "env \<Rightarrow> var \<Rightarrow> world \<Rightarrow> world res" where
  "loop_var_dtor env = sp_dtor (loop_obj_unref env)"

definition loop_swap :: "var \<Rightarrow> var \<Rightarrow> world \<Rightarrow> world res" where
  "loop_swap = sp_swap"

definition loop_uv_status :: "addr \<Rightarrow> int \<Rightarrow> world \<Rightarrow> (int \<times> world) res" where
  "loop_uv_status a value w = rbind (loop_set_error a value w) (\<lambda>w. Inr (value, w))"

text \<open>
  \<open>run()\<close>: the exit callback gets a \<open>loop\<close> variable of its own, which is destroyed after it.
\<close>

definition loop_run :: "env \<Rightarrow> addr \<Rightarrow> uv_run_mode \<Rightarrow> world \<Rightarrow> (int \<times> world) res" where
  "loop_run env a mode w =
     (let (r, w) = uv env ''uv_run'' [Ptr (Some a), Num (uv_run_mode_num mode)] w
      in rbind (dispatch env a mode w) (\<lambda>w.
         rbind (loop_uv_status a r w) (\<lambda>(uv_ret, w).
         rbind (loop_at a w) (\<lambda>i.
         case l_exit_cb i of
             None \<Rightarrow> Inr (uv_ret, w)
           | Some c \<Rightarrow>
               rbind (loop_ref a w) (\<lambda>w.
               let (v, w) = var_new (Some (LoopO a)) w in
               rbind (usr env c [v] [] w) (\<lambda>w.
               rbind (loop_var_dtor env v w) (\<lambda>w. Inr (uv_ret, w))))))))"

definition loop_is_alive :: "env \<Rightarrow> addr \<Rightarrow> world \<Rightarrow> (int \<times> world) res" where
  "loop_is_alive env a w =
     (let (r, w) = uv env ''uv_loop_alive'' [Ptr (Some a)] w in loop_uv_status a r w)"

definition loop_bool :: "addr \<Rightarrow> world \<Rightarrow> bool res" where
  "loop_bool a w = rbind (loop_at a w) (\<lambda>i. Inr (0 \<le> l_uv_error i))"

text \<open>The functions that only forward to libuv; of these \<open>configure()\<close> records the status.\<close>

definition loop_configure :: "env \<Rightarrow> addr \<Rightarrow> int \<Rightarrow> arg list \<Rightarrow> world \<Rightarrow> (int \<times> world) res" where
  "loop_configure env a opt args w =
     (let (r, w) = uv env ''uv_loop_configure'' (Ptr (Some a) # Num opt # args) w in loop_uv_status a r w)"

definition loop_stop :: "env \<Rightarrow> addr \<Rightarrow> world \<Rightarrow> world" where
  "loop_stop env a w = snd (uv env ''uv_stop'' [Ptr (Some a)] w)"

definition loop_backend_fd :: "env \<Rightarrow> addr \<Rightarrow> world \<Rightarrow> int \<times> world" where
  "loop_backend_fd env a w = uv env ''uv_backend_fd'' [Ptr (Some a)] w"

definition loop_backend_timeout :: "env \<Rightarrow> addr \<Rightarrow> world \<Rightarrow> int \<times> world" where
  "loop_backend_timeout env a w = uv env ''uv_backend_timeout'' [Ptr (Some a)] w"

definition loop_now :: "env \<Rightarrow> addr \<Rightarrow> world \<Rightarrow> 64 word \<times> world" where
  "loop_now env a w = (let (r, w) = uv env ''uv_now'' [Ptr (Some a)] w in (word_of_int r, w))"

definition loop_update_time :: "env \<Rightarrow> addr \<Rightarrow> world \<Rightarrow> world" where
  "loop_update_time env a w = snd (uv env ''uv_update_time'' [Ptr (Some a)] w)"

definition loop_nrefs :: "addr \<Rightarrow> world \<Rightarrow> int res" where
  "loop_nrefs a w = rbind (loop_at a w) (\<lambda>i. Inr (l_refs i))"

section \<open>What the operations change\<close>

text \<open>
  The destructor works on the dying instance and the record of calls only.
\<close>

definition only_loop :: "addr \<Rightarrow> world \<Rightarrow> world \<Rightarrow> bool" where
  "only_loop a w w' \<longleftrightarrow> (\<exists>i tr. w' = w\<lparr>loops := (loops w)(a \<mapsto> i), trace := tr\<rparr>)"

lemma only_loop_trans: "only_loop a w w1 \<Longrightarrow> only_loop a w1 w2 \<Longrightarrow> only_loop a w w2"
  by (fastforce simp: only_loop_def)

lemma only_loop_live: "only_loop a w w' \<Longrightarrow> loops w' a \<noteq> None"
  by (auto simp: only_loop_def)

lemma only_loop_emit:
  assumes "loops w a = Some i"
  shows "only_loop a w (emit e w)"
proof -
  have "emit e w = w\<lparr>loops := (loops w)(a \<mapsto> i), trace := trace w @ [e]\<rparr>"
    using fun_upd_triv [of "loops w" a] assms by (simp add: emit_def)
  then show ?thesis unfolding only_loop_def by blast
qed

lemma only_loop_refl: "loops w a = Some i \<Longrightarrow> only_loop a w w"
  unfolding only_loop_def
  by (rule exI [of _ i], rule exI [of _ "trace w"]) (simp add: fun_upd_idem)

lemma loop_set_error_live:
  assumes "loops w a = Some i"
  shows "loop_set_error a r w = Inr (loop_put a (i\<lparr>l_uv_error := r\<rparr>) w)"
    and "only_loop a w (loop_put a (i\<lparr>l_uv_error := r\<rparr>) w)"
proof -
  show "loop_set_error a r w = Inr (loop_put a (i\<lparr>l_uv_error := r\<rparr>) w)"
    using assms by (simp add: loop_set_error_def loop_at_def)
  have "loop_put a (i\<lparr>l_uv_error := r\<rparr>) w =
      w\<lparr>loops := (loops w)(a \<mapsto> i\<lparr>l_uv_error := r\<rparr>), trace := trace w\<rparr>"
    by (simp add: loop_put_def)
  then show "only_loop a w (loop_put a (i\<lparr>l_uv_error := r\<rparr>) w)"
    unfolding only_loop_def by blast
qed

lemma loop_set_error_only: "loop_set_error a r w = Inr w' \<Longrightarrow> only_loop a w w'"
proof (cases "loops w a")
  case (Some i)
  moreover assume "loop_set_error a r w = Inr w'"
  ultimately show ?thesis using loop_set_error_live [OF Some, of r] by simp
qed (simp add: loop_set_error_def loop_at_def)

lemma uv_only:
  "loops w a \<noteq> None \<Longrightarrow> uv env f args w = (r, w') \<Longrightarrow> only_loop a w w'"
  by (auto simp: uv_def intro: only_loop_emit)

lemma count_open_handles_only:
  "loops w a \<noteq> None \<Longrightarrow> count_open_handles env hs n w = (m, w') \<Longrightarrow> only_loop a w w'"
proof (induction hs arbitrary: n w)
  case Nil
  then show ?case by (auto intro: only_loop_refl)
next
  case (Cons h hs)
  obtain c w1 where step: "uv env ''uv_is_closing'' [Ptr (Some h)] w = (c, w1)" by force
  have "only_loop a w w1" by (rule uv_only [OF Cons.prems(1) step])
  moreover have "only_loop a w1 w'"
    using Cons.IH [of w1 "if c = 0 then n + 1 else n"] Cons.prems(2) step
      only_loop_live [OF \<open>only_loop a w w1\<close>] by simp
  ultimately show ?case by (rule only_loop_trans)
qed

lemma premortal_run_only:
  "loops w a \<noteq> None \<Longrightarrow> premortal_run env fuel a w = Inr w' \<Longrightarrow> only_loop a w w'"
proof (induction fuel arbitrary: w)
  case (Suc fuel)
  obtain r w1 where step:
    "uv env ''uv_run'' [Ptr (Some a), Num (uv_run_mode_num UV_RUN_NOWAIT)] w = (r, w1)" by force
  have o1: "only_loop a w w1" by (rule uv_only [OF Suc.prems(1) step])
  from Suc.prems(2) step obtain w2 where set: "loop_set_error a r w1 = Inr w2"
    and rest: "(if r \<noteq> 0 then premortal_run env fuel a w2 else Inr w2) = Inr w'"
    by (auto simp: rbind_eq_Inr)
  have o2: "only_loop a w w2"
    by (rule only_loop_trans [OF o1 loop_set_error_only [OF set]])
  show ?case
  proof (cases "r = 0")
    case True
    with rest o2 show ?thesis by simp
  next
    case False
    with rest have "premortal_run env fuel a w2 = Inr w'" by simp
    then have "only_loop a w2 w'" by (rule Suc.IH [OF only_loop_live [OF o2]])
    with o2 show ?thesis by (rule only_loop_trans)
  qed
qed simp

lemma loop_dtor_only:
  assumes live: "loops w a \<noteq> None" and run: "loop_dtor env a w = Inr w'"
  shows "only_loop a w w'"
proof -
  obtain r w1 where c1: "uv env ''uv_loop_close'' [Ptr (Some a)] w = (r, w1)" by force
  obtain w2 where s1: "loop_set_error a r w1 = Inr w2"
    using run c1 by (auto simp: loop_dtor_def rbind_eq_Inr)
  have o2: "only_loop a w w2"
    by (rule only_loop_trans [OF uv_only [OF live c1] loop_set_error_only [OF s1]])
  show ?thesis
  proof (cases "r = 0")
    case True
    with run c1 s1 o2 show ?thesis by (simp add: loop_dtor_def)
  next
    case False
    obtain r3 w3 where c3: "uv env ''uv_walk'' [Ptr (Some a)] w2 = (r3, w3)" by force
    obtain n w4 where c4: "count_open_handles env (uv_walked env (trace w2) a) 0 w3 = (n, w4)"
      by force
    have o3: "only_loop a w w3"
      by (rule only_loop_trans [OF o2 uv_only [OF only_loop_live [OF o2] c3]])
    have o4: "only_loop a w w4"
      by (rule only_loop_trans [OF o3 count_open_handles_only [OF only_loop_live [OF o3] c4]])
    from run False c1 s1 c3 c4 have rest: "(if n \<noteq> 0
        then if unwinding env then Inr w4 else Inl Logic_error
        else rbind (premortal_run env (run_fuel env) a w4) (\<lambda>w.
          let (r, w) = uv env ''uv_loop_close'' [Ptr (Some a)] w
          in rbind (loop_set_error a r w) (\<lambda>w. if r = 0 then Inr w else Inl Runtime_error))) = Inr w'"
      by (simp add: loop_dtor_def)
    show ?thesis
    proof (cases "n = 0")
      case False
      with rest o4 show ?thesis by (simp split: if_splits)
    next
      case True
      with rest obtain w5 where p: "premortal_run env (run_fuel env) a w4 = Inr w5"
        by (auto simp: rbind_eq_Inr)
      obtain r5 w6 where c6: "uv env ''uv_loop_close'' [Ptr (Some a)] w5 = (r5, w6)" by force
      from rest True p c6 have s6: "loop_set_error a r5 w6 = Inr w'"
        by (auto simp: rbind_eq_Inr split: if_splits)
      have o5: "only_loop a w w5"
        by (rule only_loop_trans [OF o4 premortal_run_only [OF only_loop_live [OF o4] p]])
      have o6: "only_loop a w w6"
        by (rule only_loop_trans [OF o5 uv_only [OF only_loop_live [OF o5] c6]])
      show ?thesis by (rule only_loop_trans [OF o6 loop_set_error_only [OF s6]])
    qed
  qed
qed

text \<open>
  libuv lets the library close its loops: whenever the destructor runs, it comes to an end
  without throwing.
\<close>

definition closes_loops :: "env \<Rightarrow> bool" where
  "closes_loops env \<longleftrightarrow> (\<forall>a w. loops w a \<noteq> None \<longrightarrow> ok (\<lambda>_. True) (loop_dtor env a w))"

lemma loop_destroy_effect:
  assumes "closes_loops env" "loops w a = Some i"
  shows "\<exists>tr. loop_destroy env a w = Inr (w\<lparr>loops := (loops w)(a := None), trace := tr\<rparr>)"
proof -
  let ?w = "call_destroy_cb (l_destroy_cb i) w"
  have oc: "only_loop a w ?w"
    using assms(2)
    by (auto simp: call_destroy_cb_def intro: only_loop_refl only_loop_emit split: option.split)
  have live: "loops ?w a \<noteq> None" by (rule only_loop_live [OF oc])
  with assms(1) obtain w' where run: "loop_dtor env a ?w = Inr w'"
    by (auto simp: closes_loops_def ok_iff)
  from only_loop_trans [OF oc loop_dtor_only [OF live run]] obtain j tr
    where "w' = w\<lparr>loops := (loops w)(a \<mapsto> j), trace := tr\<rparr>"
    by (auto simp: only_loop_def)
  then have "loop_destroy env a w = Inr (w\<lparr>loops := (loops w)(a := None), trace := tr\<rparr>)"
    using run assms(2) by (simp add: loop_destroy_def loop_at_def loop_remove_def)
  then show ?thesis by blast
qed

lemma loop_unref_effect:
  assumes "closes_loops env" "loops w a = Some i"
  shows "\<exists>lo tr. loop_unref env a w = Inr (w\<lparr>loops := lo, trace := tr\<rparr>) \<and>
    lo = (loops w)(a := if l_refs i = 1 then None else Some (i\<lparr>l_refs := l_refs i - 1\<rparr>))"
proof (cases "l_refs i = 1")
  case True
  then show ?thesis
    using assms loop_destroy_effect [OF assms(1), of "loop_put a (i\<lparr>l_refs := 0\<rparr>) w" a]
    by (auto simp: loop_unref_def loop_at_def loop_put_def ref_count_dec_def)
next
  case False
  then have "loop_unref env a w = Inr (w\<lparr>loops := (loops w)(a \<mapsto> i\<lparr>l_refs := l_refs i - 1\<rparr>),
      trace := trace w\<rparr>)"
    using assms by (simp add: loop_unref_def loop_at_def loop_put_def ref_count_dec_def Let_def)
  with False show ?thesis
    by (intro exI [of _ "(loops w)(a \<mapsto> i\<lparr>l_refs := l_refs i - 1\<rparr>)"] exI [of _ "trace w"] conjI)
      (simp_all only: if_False)
qed

section \<open>The contract\<close>

lemma live_refs_loops_upd:
  "live_refs (w\<lparr>loops := (loops w)(a := x), trace := tr\<rparr>) =
     (live_refs w)(LoopO a := map_option l_refs x)"
  by (rule ext) (auto simp: live_refs_def split: obj.split)

lemma winv_trace: "winv E (w\<lparr>trace := tr\<rparr>) = winv E w"
proof -
  have "live_refs (w\<lparr>trace := tr\<rparr>) = live_refs w" by (rule live_refs_cong) simp_all
  moreover have "booked (w\<lparr>trace := tr\<rparr>) = booked w" by (rule booked_cong) simp
  ultimately show ?thesis by (simp add: winv_def held_def bounded_def)
qed

lemma booked_loops_upd: "booked (w\<lparr>loops := lo, trace := tr\<rparr>) = booked w"
  by (rule booked_cong) simp

lemma bounded_loops_upd:
  "bounded w \<Longrightarrow> loops w a \<noteq> None \<Longrightarrow> bounded (w\<lparr>loops := (loops w)(a := x), trace := tr\<rparr>)"
  by (auto simp: bounded_def)

lemma loop_ref_ok:
  assumes "winv E w" "live_refs w (LoopO a) \<noteq> None"
  shows "ok (\<lambda>w'. winv (inc (LoopO a) E) w' \<and> vars w' = vars w) (loop_ref a w)"
proof -
  from assms(2) obtain i where i: "loops w a = Some i" by (auto simp: live_loop)
  have "winv (inc (LoopO a) E) (loop_put a (i\<lparr>l_refs := l_refs i + 1\<rparr>) w)"
    by (rule winv_loop_up [OF assms(1) i]) simp
  with i winv_refs_pos(2) [OF assms(1) i] show ?thesis
    by (simp add: loop_ref_def loop_at_def store_simps)
qed

lemma loop_unref_ok:
  assumes "closes_loops env" "winv (inc (LoopO a) E) w"
  shows "ok (\<lambda>w'. winv E w' \<and> vars w' = vars w) (loop_unref env a w)"
proof -
  from winv_owned_live [OF assms(2)] obtain i where i: "loops w a = Some i"
    by (auto simp: live_loop)
  let ?x = "if l_refs i = 1 then None else Some (i\<lparr>l_refs := l_refs i - 1\<rparr>)"
  obtain tr where run: "loop_unref env a w = Inr (w\<lparr>loops := (loops w)(a := ?x), trace := tr\<rparr>)"
    (is "_ = Inr ?w")
    using loop_unref_effect [OF assms(1) i] by auto
  have bnd: "bounded ?w"
    using i by (intro bounded_loops_upd [OF winv_bounded [OF assms(2)]]) simp
  have "winv E ?w"
  proof (cases "l_refs i = 1")
    case True
    show ?thesis
      by (rule winv_last [OF assms(2)])
        (use i True bnd in \<open>simp_all add: live_loop live_refs_loops_upd booked_loops_upd\<close>)
  next
    case False
    show ?thesis
      by (rule winv_count_down [OF assms(2), of "l_refs i"])
        (use i False bnd in \<open>simp_all add: live_loop live_refs_loops_upd booked_loops_upd\<close>)
  qed
  with run show ?thesis by simp
qed

lemma loop_ref_vars: "loop_ref a w = Inr w' \<Longrightarrow> vars w' = vars w"
  by (auto simp: loop_ref_def loop_put_def rbind_eq_Inr)

interpretation loop_rc:
  refcounted_quiet loop_obj_ref "loop_obj_unref env" is_loop "closes_loops env" for env
proof unfold_locales
  fix E w p
  show "ok (\<lambda>w'. winv (inc p E) w' \<and> vars w' = vars w) (loop_obj_ref p w)"
    if "winv E w" "is_loop p" "live_refs w p \<noteq> None"
    using that by (cases p) (auto intro: loop_ref_ok)
  show unref: "ok (\<lambda>w'. winv E w' \<and> vars w' = vars w) (loop_obj_unref env p w)"
    if "closes_loops env" "winv (inc p E) w" "is_loop p"
    using that by (cases p) (auto intro: loop_unref_ok)
  show "ok (winv E) (loop_obj_unref env p w)"
    if "closes_loops env" "winv (inc p E) w" "is_loop p"
    by (rule ok_weaken [OF unref [OF that]]) simp
qed

end
