(* ===== verification/Uvcc_Handle.thy ===== *)
theory Uvcc_Handle
  imports Uvcc_Loop
begin

text \<open>
  \<^verbatim>\<open>handle-base.hpp\<close>: the handle instance with its two closing procedures, the booking of the
  loop it runs on, the wrapper class \<open>handle\<close>, and \<open>loop::walk()\<close>.
\<close>

section \<open>The virtual interface\<close>

fun uv_fs_family :: "iface \<Rightarrow> bool" where
  "uv_fs_family If_file = True"
| "uv_fs_family _ = False"

definition iface_type :: "handle_instance \<Rightarrow> uv_handle_type" where
  "iface_type i = (if uv_fs_family (h_iface i) then UV_FILE else u_type (h_uv i))"

definition iface_loop :: "handle_instance \<Rightarrow> addr option" where
  "iface_loop i = u_loop (h_uv i)"

text \<open>
  \<open>fileno\<close> gives the error code and the descriptor; for a file on a Unix-like system the
  descriptor is the result of the open request.
\<close>

definition iface_fileno :: "env \<Rightarrow> addr \<Rightarrow> world \<Rightarrow> ((int \<times> int) \<times> world) res" where
  "iface_fileno env a w =
     rbind (handle_at a w) (\<lambda>i.
     if uv_fs_family (h_iface i) then
       (let h = c_int (u_result (h_uv i)) in Inr ((if h = -1 then UV_EBADF else 0, h), w))
     else
       rbind (uv_on_handle env ''uv_fileno'' a [] w) (\<lambda>(r, w').
       Inr ((r, uv_out env (trace w) (Call ''uv_fileno'' [Ptr (Some a)])), w')))"

definition iface_is_active :: "env \<Rightarrow> addr \<Rightarrow> world \<Rightarrow> (int \<times> world) res" where
  "iface_is_active env a w =
     rbind (handle_at a w) (\<lambda>i.
     if uv_fs_family (h_iface i) then Inr (0, w)
     else uv_on_handle env ''uv_is_active'' a [] w)"

definition iface_is_closing :: "env \<Rightarrow> addr \<Rightarrow> world \<Rightarrow> (int \<times> world) res" where
  "iface_is_closing env a w =
     rbind (handle_at a w) (\<lambda>i.
     if uv_fs_family (h_iface i) then Inr (is_closing_flag (h_file i), w)
     else uv_on_handle env ''uv_is_closing'' a [] w)"

definition iface_has_ref :: "env \<Rightarrow> addr \<Rightarrow> world \<Rightarrow> (int \<times> world) res" where
  "iface_has_ref env a w =
     rbind (handle_at a w) (\<lambda>i.
     if uv_fs_family (h_iface i) then Inr (0, w)
     else uv_on_handle env ''uv_has_ref'' a [] w)"

section \<open>The instance\<close>

definition handle_init :: "iface \<Rightarrow> handle_instance" where
  "handle_init f = \<lparr>h_uv_error = 0, h_refs = 1, h_destroy_cb = None, h_iface = f, h_loop = None,
     h_uv = uv_struct_init, h_io = io_properties_init, h_file = file_properties_init,
     h_watch = watch_properties_init\<rparr>"

definition handle_create :: "iface \<Rightarrow> world \<Rightarrow> addr \<times> world" where
  "handle_create f w =
     (nxt w, w\<lparr>handles := (handles w)(nxt w \<mapsto> handle_init f), nxt := Suc (nxt w)\<rparr>)"

definition unbook_loop :: "env \<Rightarrow> addr \<Rightarrow> world \<Rightarrow> world res" where
  "unbook_loop env a w =
     rbind (handle_at a w) (\<lambda>i.
     case h_loop i of
         None \<Rightarrow> Inr w
       | Some l \<Rightarrow>
           rbind (loop_unref env l w) (\<lambda>w.
           handle_mod a (\<lambda>i. i\<lparr>h_loop := None\<rparr>) w))"

definition book_loop :: "env \<Rightarrow> addr \<Rightarrow> world \<Rightarrow> world res" where
  "book_loop env a w =
     rbind (unbook_loop env a w) (\<lambda>w.
     rbind (handle_at a w) (\<lambda>i.
     rbind (deref (iface_loop i)) (\<lambda>l.
     loop_ref l (handle_put a (i\<lparr>h_loop := Some l\<rparr>) w))))"

text \<open>\<open>delete instance_ptr\<close>: the destructor gives the loop back, then the memory is freed.\<close>

definition handle_delete :: "env \<Rightarrow> addr \<Rightarrow> world \<Rightarrow> world res" where
  "handle_delete env a w =
     rbind (unbook_loop env a w) (\<lambda>w.
     Inr (w\<lparr>handles := (handles w)(a := None)\<rparr>))"

definition close_cb :: "env \<Rightarrow> addr \<Rightarrow> world \<Rightarrow> world res" where
  "close_cb env a w =
     rbind (handle_at a w) (\<lambda>i.
     handle_delete env a (call_destroy_cb (h_destroy_cb i) w))"

definition uv_handle_close :: "env \<Rightarrow> addr \<Rightarrow> world \<Rightarrow> world res" where
  "uv_handle_close env a w =
     rbind (handle_at a w) (\<lambda>i.
     rbind (if u_type (h_uv i) \<noteq> UV_UNKNOWN_HANDLE
            then rbind (uv_on_handle env ''uv_close'' a [Callback False] w) (\<lambda>(r, w). Inr w)
            else Inr w) (\<lambda>w.
     close_cb env a w))"

definition uv_fs_close :: "env \<Rightarrow> addr \<Rightarrow> world \<Rightarrow> world res" where
  "uv_fs_close env a w =
     rbind (handle_at a w) (\<lambda>i.
     let fd = c_int (u_result (h_uv i));
         w = (if 0 \<le> fd then
                snd (uv env ''uv_fs_req_cleanup'' []
                  (snd (uv env ''uv_fs_close'' [Ptr None, Num fd, Callback False] w)))
              else w);
         w = call_destroy_cb (h_destroy_cb i) w
     in rbind (uv_on_handle env ''uv_fs_req_cleanup'' a [] w) (\<lambda>(r, w).
        handle_delete env a w))"

definition handle_close :: "env \<Rightarrow> addr \<Rightarrow> world \<Rightarrow> world res" where
  "handle_close env a w =
     rbind (handle_at a w) (\<lambda>i.
     if uv_fs_family (h_iface i) then uv_fs_close env a w else uv_handle_close env a w)"

definition handle_ref :: "addr \<Rightarrow> world \<Rightarrow> world res" where
  "handle_ref a w =
     rbind (handle_at a w) (\<lambda>i.
     rbind (ref_count_inc (h_refs i)) (\<lambda>c.
     Inr (handle_put a (i\<lparr>h_refs := c\<rparr>) w)))"

definition handle_unref :: "env \<Rightarrow> addr \<Rightarrow> world \<Rightarrow> world res" where
  "handle_unref env a w =
     rbind (handle_at a w) (\<lambda>i.
     let nrefs = ref_count_dec (h_refs i);
         w = handle_put a (i\<lparr>h_refs := nrefs\<rparr>) w
     in if nrefs = 0 then handle_close env a w else Inr w)"

section \<open>The wrapper class\<close>

fun is_handle :: "obj \<Rightarrow> bool" where
  "is_handle (HandleO a) = True"
| "is_handle _ = False"

fun handle_obj_ref :: "obj \<Rightarrow> world \<Rightarrow> world res" where
  "handle_obj_ref (HandleO a) w = handle_ref a w"
| "handle_obj_ref _ w = Inl Bad_cast"

fun handle_obj_unref :: "env \<Rightarrow> obj \<Rightarrow> world \<Rightarrow> world res" where
  "handle_obj_unref env (HandleO a) w = handle_unref env a w"
| "handle_obj_unref env _ w = Inl Bad_cast"

definition handle_from :: "var \<Rightarrow> addr option \<Rightarrow> world \<Rightarrow> world res" where
  "handle_from v p w = sp_from handle_obj_ref v (map_option HandleO p) w"

definition handle_copy_ctor :: "var \<Rightarrow> var \<Rightarrow> world \<Rightarrow> world res" where
  "handle_copy_ctor = sp_copy_ctor handle_obj_ref"

definition handle_copy_assign :: "env \<Rightarrow> var \<Rightarrow> var \<Rightarrow> world \<Rightarrow> world res" where
  "handle_copy_assign env = sp_copy_assign handle_obj_ref (handle_obj_unref env)"

definition handle_move_ctor :: "var \<Rightarrow> var \<Rightarrow> world \<Rightarrow> world res" where
  "handle_move_ctor = sp_move_ctor"

definition handle_move_assign :: "env \<Rightarrow> var \<Rightarrow> var \<Rightarrow> world \<Rightarrow> world res" where
  "handle_move_assign env = sp_move_assign (handle_obj_unref env)"

definition handle_var_dtor :: "env \<Rightarrow> var \<Rightarrow> world \<Rightarrow> world res" where
  "handle_var_dtor env = sp_dtor (handle_obj_unref env)"

definition handle_swap :: "var \<Rightarrow> var \<Rightarrow> world \<Rightarrow> world res" where
  "handle_swap = sp_swap"

text \<open>The pointer of a \<open>handle\<close> variable, for the member functions that follow it.\<close>

definition handle_ptr :: "var \<Rightarrow> world \<Rightarrow> addr option res" where
  "handle_ptr v w =
     rbind (var_load v w) (\<lambda>p.
     case p of None \<Rightarrow> Inr None | Some (HandleO a) \<Rightarrow> Inr (Some a) | Some _ \<Rightarrow> Inl Bad_cast)"

definition handle_set_status :: "addr \<Rightarrow> int \<Rightarrow> world \<Rightarrow> world res" where
  "handle_set_status a value w = handle_mod a (\<lambda>i. i\<lparr>h_uv_error := value\<rparr>) w"

text \<open>\<open>uv_status(value)\<close> on a variable whose pointer may be null.\<close>

definition handle_var_set_status :: "var \<Rightarrow> int \<Rightarrow> world \<Rightarrow> world res" where
  "handle_var_set_status v value w =
     rbind (handle_ptr v w) (\<lambda>p. rbind (deref p) (\<lambda>a. handle_set_status a value w))"

definition handle_nrefs :: "var \<Rightarrow> world \<Rightarrow> int res" where
  "handle_nrefs v w =
     rbind (handle_ptr v w) (\<lambda>p. rbind (deref p) (\<lambda>a.
     rbind (handle_at a w) (\<lambda>i. Inr (h_refs i))))"

definition handle_uv_status :: "var \<Rightarrow> world \<Rightarrow> int res" where
  "handle_uv_status v w =
     rbind (handle_ptr v w) (\<lambda>p. rbind (deref p) (\<lambda>a.
     rbind (handle_at a w) (\<lambda>i. Inr (h_uv_error i))))"

definition handle_bool :: "var \<Rightarrow> world \<Rightarrow> bool res" where
  "handle_bool v w =
     rbind (handle_ptr v w) (\<lambda>p.
     case p of None \<Rightarrow> Inr False
       | Some a \<Rightarrow> rbind (handle_uv_status v w) (\<lambda>s. Inr (0 \<le> s)))"

definition handle_type :: "addr \<Rightarrow> world \<Rightarrow> uv_handle_type res" where
  "handle_type a w = rbind (handle_at a w) (\<lambda>i. Inr (iface_type i))"

fun type_name :: "uv_handle_type \<Rightarrow> string" where
  "type_name UV_UNKNOWN_HANDLE = ''UNKNOWN''"
| "type_name UV_ASYNC = ''async''"
| "type_name UV_CHECK = ''check''"
| "type_name UV_FS_EVENT = ''fs_event''"
| "type_name UV_FS_POLL = ''fs_poll''"
| "type_name UV_HANDLE = ''handle''"
| "type_name UV_IDLE = ''idle''"
| "type_name UV_NAMED_PIPE = ''pipe''"
| "type_name UV_POLL = ''poll''"
| "type_name UV_PREPARE = ''prepare''"
| "type_name UV_PROCESS = ''process''"
| "type_name UV_STREAM = ''stream''"
| "type_name UV_TCP = ''tcp''"
| "type_name UV_TIMER = ''timer''"
| "type_name UV_TTY = ''tty''"
| "type_name UV_UDP = ''udp''"
| "type_name UV_SIGNAL = ''signal''"
| "type_name UV_FILE = ''file''"
| "type_name UV_HANDLE_TYPE_MAX = ''<UNDEFINED>''"

definition handle_set_attached :: "env \<Rightarrow> addr \<Rightarrow> bool \<Rightarrow> world \<Rightarrow> world res" where
  "handle_set_attached env a state w =
     rbind (uv_on_handle env (if state then ''uv_ref'' else ''uv_unref'') a [] w)
       (\<lambda>(r, w). Inr w)"

definition handle_attached :: "env \<Rightarrow> addr \<Rightarrow> world \<Rightarrow> (bool \<times> world) res" where
  "handle_attached env a w = rbind (iface_has_ref env a w) (\<lambda>(r, w). Inr (r \<noteq> 0, w))"

definition handle_is_active :: "env \<Rightarrow> addr \<Rightarrow> world \<Rightarrow> (int \<times> world) res" where
  "handle_is_active env a w =
     rbind (iface_is_active env a w) (\<lambda>(r, w).
     rbind (handle_set_status a r w) (\<lambda>w. Inr (r, w)))"

definition handle_is_closing :: "env \<Rightarrow> addr \<Rightarrow> world \<Rightarrow> (int \<times> world) res" where
  "handle_is_closing env a w =
     rbind (iface_is_closing env a w) (\<lambda>(r, w).
     rbind (handle_set_status a r w) (\<lambda>w. Inr (r, w)))"

definition handle_fileno :: "env \<Rightarrow> addr \<Rightarrow> world \<Rightarrow> (int \<times> world) res" where
  "handle_fileno env a w =
     rbind (iface_fileno env a w) (\<lambda>((r, h), w).
     rbind (handle_set_status a r w) (\<lambda>w. Inr (h, w)))"

text \<open>\<open>handle::loop()\<close>: a new loop variable for the loop the handle runs on.\<close>

definition handle_loop :: "addr \<Rightarrow> var \<Rightarrow> world \<Rightarrow> world res" where
  "handle_loop a v w =
     rbind (handle_at a w) (\<lambda>i. sp_from loop_obj_ref v (map_option LoopO (iface_loop i)) w)"

section \<open>Walking a loop\<close>

text \<open>Each handle visited is passed to the callback in a \<open>handle\<close> variable of its own.\<close>

definition walk_cb :: "env \<Rightarrow> cb \<Rightarrow> addr \<Rightarrow> world \<Rightarrow> world res" where
  "walk_cb env c h w =
     rbind (handle_ref h w) (\<lambda>w.
     let (v, w) = var_new (Some (HandleO h)) w in
     rbind (usr env c [v] [] w) (\<lambda>w. handle_var_dtor env v w))"

fun walk_handles :: "env \<Rightarrow> cb \<Rightarrow> addr list \<Rightarrow> world \<Rightarrow> world res" where
  "walk_handles env c [] w = Inr w"
| "walk_handles env c (h # hs) w = rbind (walk_cb env c h w) (walk_handles env c hs)"

definition loop_walk :: "env \<Rightarrow> addr \<Rightarrow> cb option \<Rightarrow> world \<Rightarrow> world res" where
  "loop_walk env l cb w =
     (case cb of None \<Rightarrow> Inr w
       | Some c \<Rightarrow>
           (let hs = uv_walked env (trace w) l;
                (r, w) = uv env ''uv_walk'' [Ptr (Some l)] w
            in walk_handles env c hs w))"

section \<open>The contract\<close>

lemma handle_at_simps [simp]:
  "handles w a = Some i \<Longrightarrow> handle_at a w = Inr i"
  "handles w a = None \<Longrightarrow> handle_at a w = Inl Use_after_free"
  by (simp_all add: handle_at_def)

lemma handle_mod_simps [simp]:
  "handles w a = Some i \<Longrightarrow> handle_mod a f w = Inr (handle_put a (f i) w)"
  by (simp add: handle_mod_def)

lemma handle_ref_ok:
  assumes "winv E w" "live_refs w (HandleO a) \<noteq> None"
  shows "ok (\<lambda>w'. winv (inc (HandleO a) E) w' \<and> vars w' = vars w) (handle_ref a w)"
proof -
  from assms(2) obtain i where i: "handles w a = Some i" by (auto simp: live_handle)
  have "winv (inc (HandleO a) E) (handle_put a (i\<lparr>h_refs := h_refs i + 1\<rparr>) w)"
    by (rule winv_handle_up [OF assms(1) i]) simp_all
  with i winv_refs_pos(1) [OF assms(1) i] show ?thesis
    by (simp add: handle_ref_def store_simps)
qed

lemma handle_ref_eq:
  "handles w a = Some i \<Longrightarrow> 0 < h_refs i \<Longrightarrow>
   handle_ref a w = Inr (handle_put a (i\<lparr>h_refs := h_refs i + 1\<rparr>) w)"
  by (simp add: handle_ref_def)

lemma handle_unref_shared:
  "handles w a = Some i \<Longrightarrow> h_refs i \<noteq> 1 \<Longrightarrow>
   handle_unref env a w = Inr (handle_put a (i\<lparr>h_refs := h_refs i - 1\<rparr>) w)"
  by (simp add: handle_unref_def ref_count_dec_def Let_def)

text \<open>Taking an instance with its last reference away leaves its booking to be released.\<close>

lemma winv_handle_removed:
  assumes inv: "winv (inc (HandleO a) E) w" and i: "handles w a = Some i" "h_refs i = 1"
  shows "winv (owned (map_option LoopO (h_loop i)) E)
           (w\<lparr>handles := (handles w)(a := None), trace := tr\<rparr>)"
    (is "winv ?E ?w")
proof -
  have live: "live_refs ?w p = (if p = HandleO a then None else live_refs w p)" for p
    by (auto simp: live_refs_def split: obj.split)
  have "booking ?w = (booking w)(a := None)"
    by (auto simp: booking_def)
  then have count: "count_ptr (booking ?w) l + (if h_loop i = Some l then 1 else 0)
      = count_ptr (booking w) l" for l
    using count_ptr_upd_aux [OF winv_finite(2) [OF inv], of a None l] i
    by (auto simp: holds_def booking_def split: if_splits)
  have h1: "held (inc (HandleO a) E) w (HandleO a) = 1"
    using winv_agrees [OF inv, of "HandleO a"] i by (simp add: live_handle)
  then have "owes i = 0"
    using i by (simp add: held_def inc_apply booked_def)
  then have book: "booked ?w p + (if map_option LoopO (h_loop i) = Some p then 1 else 0) = booked w p"
    for p
    using count i by (cases p) (auto simp: booked_def split: if_splits)
  have "held ?E ?w p = (if p = HandleO a then 0 else held (inc (HandleO a) E) w p)" for p
  proof (cases "p = HandleO a")
    case True
    with h1 show ?thesis
      by (auto simp: held_def inc_apply owned_apply booked_def)
  next
    case False
    then show ?thesis using book [of p] by (simp add: held_def inc_apply owned_apply)
  qed
  then show ?thesis
    using inv winv_bounded [OF inv] by (auto simp: winv_def live bounded_def)
qed

text \<open>What the last \<open>unref()\<close> of a handle leaves behind.\<close>

definition loop_released :: "addr option \<Rightarrow> (addr \<rightharpoonup> loop_instance) \<Rightarrow> addr \<rightharpoonup> loop_instance" where
  "loop_released l lo = (case l of None \<Rightarrow> lo
     | Some a \<Rightarrow> (case lo a of None \<Rightarrow> lo
         | Some i \<Rightarrow> lo(a := if l_refs i = 1 then None else Some (i\<lparr>l_refs := l_refs i - 1\<rparr>))))"

lemma handle_delete_effect:
  assumes "closes_loops env" "handles w a = Some i"
    "\<And>l. h_loop i = Some l \<Longrightarrow> loops w l \<noteq> None"
  shows "\<exists>tr. handle_delete env a w = Inr (w\<lparr>loops := loop_released (h_loop i) (loops w),
           handles := (handles w)(a := None), trace := tr\<rparr>)"
proof (cases "h_loop i")
  case None
  have "handle_delete env a w = Inr (w\<lparr>loops := loop_released (h_loop i) (loops w),
           handles := (handles w)(a := None), trace := trace w\<rparr>)"
    using None assms(2) by (simp add: handle_delete_def unbook_loop_def loop_released_def)
  then show ?thesis by blast
next
  case (Some l)
  with assms(3) obtain li where li: "loops w l = Some li" by auto
  from loop_unref_effect [OF assms(1) li] obtain tr where
    run: "loop_unref env l w = Inr (w\<lparr>loops := (loops w)(l := if l_refs li = 1 then None
             else Some (li\<lparr>l_refs := l_refs li - 1\<rparr>)), trace := tr\<rparr>)"
    by auto
  have "handle_delete env a w = Inr (w\<lparr>loops := loop_released (h_loop i) (loops w),
           handles := (handles w)(a := None), trace := tr\<rparr>)"
    using Some assms(2) run li
    by (simp add: handle_delete_def unbook_loop_def loop_released_def handle_put_def)
  then show ?thesis by blast
qed

text \<open>The closing procedures touch the dying instance and the record of calls only.\<close>

definition only_handle :: "addr \<Rightarrow> world \<Rightarrow> world \<Rightarrow> bool" where
  "only_handle a w w' \<longleftrightarrow> (\<exists>i j tr. handles w a = Some i \<and> h_loop j = h_loop i \<and> owes j = owes i \<and>
     w' = w\<lparr>handles := (handles w)(a \<mapsto> j), trace := tr\<rparr>)"

lemma only_handle_trans: "only_handle a w w1 \<Longrightarrow> only_handle a w1 w2 \<Longrightarrow> only_handle a w w2"
  by (fastforce simp: only_handle_def)

lemma only_handle_put:
  assumes "handles w a = Some i" "h_loop j = h_loop i" "owes j = owes i"
  shows "only_handle a w (handle_put a j w)"
proof -
  have "handle_put a j w = w\<lparr>handles := (handles w)(a \<mapsto> j), trace := trace w\<rparr>"
    by (simp add: handle_put_def)
  with assms show ?thesis unfolding only_handle_def by blast
qed

lemma only_handle_emit:
  assumes "handles w a = Some i"
  shows "only_handle a w (emit e w)"
proof -
  have "emit e w = w\<lparr>handles := (handles w)(a \<mapsto> i), trace := trace w @ [e]\<rparr>"
    using fun_upd_triv [of "handles w" a] assms by (simp add: emit_def)
  with assms show ?thesis unfolding only_handle_def by blast
qed

lemma only_handle_refl: "handles w a = Some i \<Longrightarrow> only_handle a w w"
  using only_handle_put [of w a i i] by (simp add: handle_put_def fun_upd_idem)

lemma only_handle_live: "only_handle a w w' \<Longrightarrow> \<exists>i. handles w' a = Some i"
  by (auto simp: only_handle_def)

lemma only_handle_uv:
  "handles w a = Some i \<Longrightarrow> only_handle a w (snd (uv env f args w))"
  by (simp add: uv_def only_handle_emit)

lemma only_handle_destroy_cb:
  "handles w a = Some i \<Longrightarrow> only_handle a w (call_destroy_cb c w)"
  by (auto simp: call_destroy_cb_def intro: only_handle_refl only_handle_emit split: option.split)

lemma uv_on_handle_only:
  assumes "handles w a = Some i"
  shows "\<exists>r w'. uv_on_handle env f a args w = Inr (r, w') \<and> only_handle a w w'"
proof -
  let ?j = "i\<lparr>h_uv := uv_eff env (trace w) (Call f (Ptr (Some a) # args)) (h_uv i)\<rparr>"
  have "only_handle a w (handle_put a ?j w)"
    by (rule only_handle_put [OF assms]) simp_all
  moreover have "only_handle a (handle_put a ?j w)
      (emit (Call f (Ptr (Some a) # args)) (handle_put a ?j w))"
    by (rule only_handle_emit) (simp add: store_simps)
  ultimately show ?thesis
    using assms by (auto simp: uv_on_handle_def Let_def intro: only_handle_trans)
qed

lemma handle_delete_only:
  assumes "closes_loops env" "handles w a = Some i"
    "\<And>l. h_loop i = Some l \<Longrightarrow> loops w l \<noteq> None" and only: "only_handle a w w'"
  shows "\<exists>tr. handle_delete env a w' = Inr (w\<lparr>loops := loop_released (h_loop i) (loops w),
           handles := (handles w)(a := None), trace := tr\<rparr>)"
proof -
  from only assms(2) obtain j tr' where j: "h_loop j = h_loop i"
    and w': "w' = w\<lparr>handles := (handles w)(a \<mapsto> j), trace := tr'\<rparr>"
    by (auto simp: only_handle_def)
  from handle_delete_effect [of env w' a j] assms(1,3) j obtain tr where
    "handle_delete env a w' = Inr (w'\<lparr>loops := loop_released (h_loop j) (loops w'),
       handles := (handles w')(a := None), trace := tr\<rparr>)"
    by (auto simp: w')
  then have "handle_delete env a w' = Inr (w\<lparr>loops := loop_released (h_loop i) (loops w),
           handles := (handles w)(a := None), trace := tr\<rparr>)"
    by (simp add: w' j)
  then show ?thesis by blast
qed

lemma handle_close_effect:
  assumes "closes_loops env" "handles w a = Some i"
    "\<And>l. h_loop i = Some l \<Longrightarrow> loops w l \<noteq> None"
  shows "\<exists>tr. handle_close env a w = Inr (w\<lparr>loops := loop_released (h_loop i) (loops w),
           handles := (handles w)(a := None), trace := tr\<rparr>)"
proof -
  have "\<exists>w'. handle_close env a w = handle_delete env a w' \<and> only_handle a w w'"
  proof (cases "uv_fs_family (h_iface i)")
    case True
    define fd where "fd = c_int (u_result (h_uv i))"
    define w1 where "w1 = snd (uv env ''uv_fs_close'' [Ptr None, Num fd, Callback False] w)"
    define w2 where "w2 = (if 0 \<le> fd then snd (uv env ''uv_fs_req_cleanup'' [] w1) else w)"
    define w3 where "w3 = call_destroy_cb (h_destroy_cb i) w2"
    have o1: "only_handle a w w1"
      unfolding w1_def by (rule only_handle_uv [OF assms(2)])
    then obtain i1 where i1: "handles w1 a = Some i1" using only_handle_live by blast
    have o2: "only_handle a w w2"
      using only_handle_trans [OF o1 only_handle_uv [OF i1]] only_handle_refl [OF assms(2)]
      by (simp add: w2_def)
    then obtain i2 where i2: "handles w2 a = Some i2" using only_handle_live by blast
    have o3: "only_handle a w w3"
      unfolding w3_def by (rule only_handle_trans [OF o2 only_handle_destroy_cb [OF i2]])
    then obtain i3 where i3: "handles w3 a = Some i3" using only_handle_live by blast
    from uv_on_handle_only [OF i3] obtain r w4 where
      c4: "uv_on_handle env ''uv_fs_req_cleanup'' a [] w3 = Inr (r, w4)" and "only_handle a w3 w4"
      by blast
    with o3 have "only_handle a w w4" by (blast intro: only_handle_trans)
    moreover have "handle_close env a w = handle_delete env a w4"
      using assms(2) True c4 unfolding w3_def w2_def w1_def fd_def
      by (cases "0 \<le> c_int (u_result (h_uv i))")
        (simp_all add: handle_close_def uv_fs_close_def Let_def)
    ultimately show ?thesis by blast
  next
    case False
    obtain w1 where c1: "(if u_type (h_uv i) \<noteq> UV_UNKNOWN_HANDLE
            then rbind (uv_on_handle env ''uv_close'' a [Callback False] w) (\<lambda>(r, w). Inr w)
            else Inr w) = Inr w1" and o1: "only_handle a w w1"
    proof (cases "u_type (h_uv i) = UV_UNKNOWN_HANDLE")
      case True
      then show ?thesis using that [of w] only_handle_refl [OF assms(2)] by simp
    next
      case False
      obtain r w' where "uv_on_handle env ''uv_close'' a [Callback False] w = Inr (r, w')"
        "only_handle a w w'"
        using uv_on_handle_only [OF assms(2), of env "''uv_close''" "[Callback False]"] by blast
      then show ?thesis using that [of w'] False by simp
    qed
    then obtain i1 where i1: "handles w1 a = Some i1" using only_handle_live by blast
    have "only_handle a w (call_destroy_cb (h_destroy_cb i1) w1)"
      by (rule only_handle_trans [OF o1 only_handle_destroy_cb [OF i1]])
    moreover have "handle_close env a w = handle_delete env a (call_destroy_cb (h_destroy_cb i1) w1)"
      using assms(2) False c1 i1 by (simp add: handle_close_def uv_handle_close_def close_cb_def)
    ultimately show ?thesis by blast
  qed
  with handle_delete_only [OF assms] show ?thesis by auto
qed

lemma winv_loop_released:
  assumes inv: "winv (owned (map_option LoopO l) E) w"
  shows "winv E (w\<lparr>loops := loop_released l (loops w), trace := tr\<rparr>)"
proof (cases l)
  case None
  with inv show ?thesis by (simp add: loop_released_def winv_trace)
next
  case (Some a)
  with inv have inv': "winv (inc (LoopO a) E) w" by simp
  from winv_owned_live [OF this] obtain i where i: "loops w a = Some i"
    by (auto simp: live_loop)
  let ?x = "if l_refs i = 1 then None else Some (i\<lparr>l_refs := l_refs i - 1\<rparr>)"
  have bnd: "bounded (w\<lparr>loops := (loops w)(a := ?x), trace := tr\<rparr>)"
    using i by (intro bounded_loops_upd [OF winv_bounded [OF inv']]) simp
  have "winv E (w\<lparr>loops := (loops w)(a := ?x), trace := tr\<rparr>)"
  proof (cases "l_refs i = 1")
    case True
    show ?thesis
      by (rule winv_last [OF inv'])
        (use i True bnd in \<open>simp_all add: live_loop live_refs_loops_upd booked_loops_upd\<close>)
  next
    case False
    show ?thesis
      by (rule winv_count_down [OF inv', of "l_refs i"])
        (use i False bnd in \<open>simp_all add: live_loop live_refs_loops_upd booked_loops_upd\<close>)
  qed
  with Some i show ?thesis by (simp add: loop_released_def)
qed

text \<open>A booked loop is alive as long as the handle is.\<close>

lemma winv_booked_live:
  assumes inv: "winv E w" and "handles w a = Some i" "h_loop i = Some l"
  shows "\<exists>li. loops w l = Some li"
proof -
  have "booking w a = Some (Some l)" using assms by (simp add: booking_def)
  then have "0 < booked w (LoopO l)"
    using count_ptr_pos [OF winv_finite(2) [OF inv]] by (simp add: booked_def)
  then show ?thesis
    using winv_live [OF inv, of "LoopO l"] by (auto simp: held_def live_loop)
qed

lemma handle_unref_last:
  assumes "closes_loops env" "winv E w" "handles w a = Some i" "h_refs i = 1"
  shows "\<exists>tr. handle_unref env a w = Inr (w\<lparr>loops := loop_released (h_loop i) (loops w),
           handles := (handles w)(a := None), trace := tr\<rparr>)"
proof -
  let ?w = "handle_put a (i\<lparr>h_refs := 0\<rparr>) w"
  have "\<exists>tr. handle_close env a ?w = Inr (?w\<lparr>loops := loop_released (h_loop i) (loops ?w),
           handles := (handles ?w)(a := None), trace := tr\<rparr>)"
    using handle_close_effect [OF assms(1), of ?w a "i\<lparr>h_refs := 0\<rparr>"]
      winv_booked_live [OF assms(2,3)] by (auto simp: store_simps)
  then show ?thesis
    using assms(3,4) by (simp add: handle_unref_def ref_count_dec_def handle_put_def)
qed

lemma handle_unref_ok:
  assumes "closes_loops env" "winv (inc (HandleO a) E) w"
  shows "ok (\<lambda>w'. winv E w' \<and> vars w' = vars w) (handle_unref env a w)"
proof -
  from winv_owned_live [OF assms(2)] obtain i where i: "handles w a = Some i"
    by (auto simp: live_handle)
  show ?thesis
  proof (cases "h_refs i = 1")
    case False
    then show ?thesis
      using i winv_handle_down [OF assms(2) i False]
      by (simp add: handle_unref_shared store_simps)
  next
    case True
    from handle_unref_last [OF assms(1,2) i True] obtain tr where run: "handle_unref env a w =
        Inr (w\<lparr>loops := loop_released (h_loop i) (loops w), handles := (handles w)(a := None),
          trace := tr\<rparr>)" by blast
    let ?w = "w\<lparr>handles := (handles w)(a := None), trace := tr\<rparr>"
    have "winv E (?w\<lparr>loops := loop_released (h_loop i) (loops ?w), trace := tr\<rparr>)"
      by (rule winv_loop_released [OF winv_handle_removed [OF assms(2) i True]])
    moreover have "?w\<lparr>loops := loop_released (h_loop i) (loops ?w), trace := tr\<rparr> =
        w\<lparr>loops := loop_released (h_loop i) (loops w), handles := (handles w)(a := None), trace := tr\<rparr>"
      by simp
    ultimately show ?thesis by (simp only: run ok_Inr) simp
  qed
qed

lemma handle_ref_vars: "handle_ref a w = Inr w' \<Longrightarrow> vars w' = vars w"
  by (auto simp: handle_ref_def rbind_eq_Inr store_simps)

interpretation handle_rc:
  refcounted_quiet handle_obj_ref "handle_obj_unref env" is_handle "closes_loops env" for env
proof unfold_locales
  fix E w p
  show "ok (\<lambda>w'. winv (inc p E) w' \<and> vars w' = vars w) (handle_obj_ref p w)"
    if "winv E w" "is_handle p" "live_refs w p \<noteq> None"
    using that by (cases p) (auto intro: handle_ref_ok)
  show unref: "ok (\<lambda>w'. winv E w' \<and> vars w' = vars w) (handle_obj_unref env p w)"
    if "closes_loops env" "winv (inc p E) w" "is_handle p"
    using that by (cases p) (auto intro: handle_unref_ok)
  show "ok (winv E) (handle_obj_unref env p w)"
    if "closes_loops env" "winv (inc p E) w" "is_handle p"
    by (rule ok_weaken [OF unref [OF that]]) simp
qed

section \<open>Booking\<close>

lemma winv_book:
  assumes inv: "winv (inc (LoopO l) E) w" and i: "handles w a = Some i" "h_loop i = None"
  shows "winv E (handle_put a (i\<lparr>h_loop := Some l\<rparr>) w)"
    (is "winv E ?w")
proof -
  have live: "live_refs ?w = live_refs w"
    using i by (simp add: store_simps fun_upd_idem live_handle)
  have "booking w a = Some None" using i by (simp add: booking_def)
  then have count: "count_ptr (booking ?w) k = count_ptr (booking w) k + (if k = l then 1 else 0)" for k
    using count_ptr_upd_aux [OF winv_finite(2) [OF inv], of a "Some (Some l)" k]
    by (auto simp: booking_handle_put holds_def)
  have "held E ?w p = held (inc (LoopO l) E) w p" for p
    using count i by (cases p) (auto simp: held_def booked_def inc_apply store_simps owes_def)
  moreover have "bounded ?w"
    using i by (intro bounded_put winv_bounded [OF inv]) auto
  ultimately show ?thesis
    using inv by (simp add: winv_def live)
qed

text \<open>
  Booking counts the handle as a user of its loop; a handle that has booked nothing yet is what
  the constructors start from.
\<close>

lemma book_loop_ok:
  assumes "winv E w" "handles w a = Some i" "h_loop i = None"
    and "u_loop (h_uv i) = Some l" "loops w l = Some li"
  shows "ok (\<lambda>w'. winv E w' \<and> vars w' = vars w \<and>
           handles w' = (handles w)(a \<mapsto> i\<lparr>h_loop := Some l\<rparr>)) (book_loop env a w)"
proof -
  let ?li = "li\<lparr>l_refs := l_refs li + 1\<rparr>"
  have pos: "0 < l_refs li" by (rule winv_refs_pos(2) [OF assms(1,5)])
  have run: "book_loop env a w = Inr (loop_put l ?li (handle_put a (i\<lparr>h_loop := Some l\<rparr>) w))"
    using assms pos
    by (simp add: book_loop_def unbook_loop_def iface_loop_def loop_ref_def loop_at_def store_simps)
  have "winv (inc (LoopO l) E) (loop_put l ?li w)"
    by (rule winv_loop_up [OF assms(1,5)]) simp
  then have "winv E (handle_put a (i\<lparr>h_loop := Some l\<rparr>) (loop_put l ?li w))"
    by (rule winv_book) (use assms in \<open>simp_all add: store_simps\<close>)
  moreover have "handle_put a (i\<lparr>h_loop := Some l\<rparr>) (loop_put l ?li w) =
      loop_put l ?li (handle_put a (i\<lparr>h_loop := Some l\<rparr>) w)"
    by (simp add: handle_put_def loop_put_def)
  ultimately show ?thesis by (simp add: run store_simps)
qed

lemma owes_handle_init: "owes (handle_init f) = 0"
  by (simp add: owes_def handle_init_def io_properties_init_def watch_properties_init_def)

text \<open>A newly created instance, owned by the code that has created it.\<close>

lemma handle_create_ok:
  assumes "winv E w" "handle_create f w = (a, w')"
  shows "winv (inc (HandleO a) E) w'" "handles w' a = Some (handle_init f)" "handles w a = None"
    "vars w' = vars w" "loops w' = loops w" "trace w' = trace w"
    "handles w' = (handles w)(a \<mapsto> handle_init f)"
proof -
  have a: "a = nxt w" and w': "w' = w\<lparr>handles := (handles w)(a \<mapsto> handle_init f), nxt := Suc a\<rparr>"
    using assms(2) by (auto simp: handle_create_def)
  have fresh: "handles w a = None"
    using winv_bounded [OF assms(1)] by (auto simp: bounded_def a)
  have live: "live_refs w' = (live_refs w)(HandleO a \<mapsto> 1)"
    by (rule ext) (simp add: live_refs_def w' handle_init_def split: obj.split)
  have "booking w' = (booking w)(a \<mapsto> None)"
    by (auto simp: booking_def w' handle_init_def)
  then have count: "count_ptr (booking w') k = count_ptr (booking w) k" for k
    using count_ptr_upd_aux [OF winv_finite(2) [OF assms(1)], of a "Some None" k] fresh
    by (auto simp: holds_def booking_def)
  have held: "held (inc (HandleO a) E) w' p = held E w p + (if p = HandleO a then 1 else 0)" for p
    using count fresh by (cases p) (auto simp: held_def booked_def inc_apply w' owes_handle_init)
  have "held E w (HandleO a) = 0"
    using winv_agrees [OF assms(1), of "HandleO a"] fresh by (simp add: live_handle)
  then have "agrees (live_refs w' p) (held (inc (HandleO a) E) w' p)" for p
    using winv_agrees [OF assms(1), of p] by (auto simp: live held)
  moreover have "bounded w'"
    using winv_bounded [OF assms(1)] by (auto simp: bounded_def w' a less_Suc_eq)
  ultimately show "winv (inc (HandleO a) E) w'" by (simp add: winv_def)
  show "handles w' a = Some (handle_init f)" "handles w a = None" "vars w' = vars w"
    "loops w' = loops w" "trace w' = trace w" "handles w' = (handles w)(a \<mapsto> handle_init f)"
    using fresh by (simp_all add: w')
qed

end
