(* ===== verification/Uvcc_Buffer.thy ===== *)
theory Uvcc_Buffer
  imports Uvcc_Pointer
begin

text \<open>
  \<^verbatim>\<open>buffer.hpp\<close>: the memory layout of a buffer instance with its array of \<open>uv_buf_t\<close> and its
  chunks, on 64-bit addresses; the instance's reference counting and its sink callback; the
  wrapper class \<open>buffer\<close>.
\<close>

unbundle bit_operations_syntax

section \<open>Memory layout\<close>

text \<open>
  \<open>isz\<close> is \<open>sizeof(instance)\<close>, whose last member is the first \<open>uv_buf_t\<close> of the array. A
  \<open>uv_buf_t\<close> is 16 bytes long, and \<open>alignof(max_align_t)\<close> is 16.
\<close>

definition alignment_padding :: "64 word \<Rightarrow> 64 word \<Rightarrow> 64 word" where
  "alignment_padding isz extra_buf_count =
     (let base_size = isz + extra_buf_count * 16;
          proper_size = (base_size + 16 - 1) AND NOT (16 - 1)
      in proper_size - base_size)"

definition buffer_new_size :: "64 word \<Rightarrow> 64 word list \<Rightarrow> 64 word" where
  "buffer_new_size isz lens =
     (let n = word_of_nat (length lens);
          extra_buf_count = (if 0 < n then n - 1 else n);
          total_buf_len = foldl (+) 0 lens
      in isz + extra_buf_count * 16 + alignment_padding isz extra_buf_count + total_buf_len)"

text \<open>\<open>buf[i].base = &buf[i-1].base[buf[i-1].len]\<close>, from the second structure on.\<close>

fun chunk_bases :: "64 word \<Rightarrow> 64 word list \<Rightarrow> 64 word list" where
  "chunk_bases base [] = []"
| "chunk_bases base (len # lens) = base # chunk_bases (base + len) lens"

text \<open>
  The constructor, for an array at the address \<open>buf\<close>: the \<open>.base\<close> and \<open>.len\<close> of every
  structure, with 0 for the null pointer.
\<close>

definition buffer_ctor :: "64 word \<Rightarrow> 64 word \<Rightarrow> 64 word list \<Rightarrow> (64 word \<times> 64 word) list" where
  "buffer_ctor isz buf lens =
     (if lens = [] then [(0, 0)]
      else if foldl (+) 0 lens = 0 then map (\<lambda>_. (0, 0)) lens
      else
        (let n = word_of_nat (length lens);
             base = buf + n * 16 + alignment_padding isz (n - 1)
         in zip (chunk_bases base lens) lens))"

definition uv_buf_from :: "64 word \<Rightarrow> 64 word \<Rightarrow> 64 word" where
  "uv_buf_from isz base = base - alignment_padding isz 0 - 16"

lemma foldl_plus_words: "foldl (+) (a :: 64 word) xs = a + sum_list xs"
  by (induction xs arbitrary: a) (simp_all add: add.assoc)

lemma and_not_mask: "x AND NOT (mask n) = x - take_bit n (x :: 64 word)"
proof -
  have "take_bit n x AND NOT x = 0"
    by (rule bit_word_eqI) (auto simp: bit_simps)
  then have "x - take_bit n x = x AND NOT (take_bit n x)"
    by (intro disjunctive_diff_eq_and_not) (simp_all add: and.commute)
  also have "\<dots> = x AND NOT (mask n)"
    by (rule bit_word_eqI) (auto simp: bit_simps)
  finally show ?thesis by simp
qed

lemma alignment_padding_eq:
  "alignment_padding isz k = 15 - take_bit 4 (isz + k * 16 + 15)"
proof -
  have "x AND NOT (16 - 1) = x - take_bit 4 (x :: 64 word)" for x
    using and_not_mask [of x 4] by (simp add: mask_eq_exp_minus_1)
  then show ?thesis
    by (simp add: alignment_padding_def Let_def algebra_simps)
qed

text \<open>Whole \<open>uv_buf_t\<close> structures do not change the padding.\<close>

lemma unat_take_bit_4: "unat (take_bit 4 (x :: 64 word)) = unat x mod 16"
  by (simp add: unsigned_take_bit_eq take_bit_eq_mod unat_mod)

lemma mod_16_absorb: "16 dvd M \<Longrightarrow> (a + b * 16 mod M) mod M mod 16 = a mod (16 :: nat)"
  by (metis mod_add_right_eq mod_mod_cancel mod_mult_self3 add.commute)

lemma take_bit_4_add_16: "take_bit 4 (x + k * 16) = take_bit 4 (x :: 64 word)"
proof -
  have "unat (x + k * 16) mod 16 = unat x mod 16"
    unfolding unat_word_ariths by (simp add: mod_16_absorb)
  then have "unat (take_bit 4 (x + k * 16)) = unat (take_bit 4 x)"
    by (simp only: unat_take_bit_4)
  then show ?thesis by (simp only: word_unat_eq_iff)
qed

lemma alignment_padding_const: "alignment_padding isz k = alignment_padding isz 0"
  using take_bit_4_add_16 [of "isz + 15" k] by (simp add: alignment_padding_eq ac_simps)

lemma alignment_padding_small: "alignment_padding isz k \<le> 15"
proof -
  have "unat (take_bit 4 (isz + k * 16 + 15)) < 16"
    using take_bit_nat_less_exp [of 4 "unat (isz + k * 16 + 15)"]
    by (simp add: unsigned_take_bit_eq)
  then show ?thesis
    unfolding alignment_padding_eq by (unat_arith)
qed

lemma chunk_bases_nth:
  "i < length lens \<Longrightarrow> chunk_bases b lens ! i = b + sum_list (take i lens)"
  by (induction b lens arbitrary: i rule: chunk_bases.induct)
    (auto simp: nth_Cons' take_Cons' algebra_simps)

lemma length_chunk_bases [simp]: "length (chunk_bases b lens) = length lens"
  by (induction b lens rule: chunk_bases.induct) simp_all

lemma unat_word_small: "n < 2 ^ 64 \<Longrightarrow> unat (word_of_nat n :: 64 word) = n"
  by (simp add: unat_of_nat)

lemma unat_sum_list:
  "sum_list (map unat xs) < 2 ^ 64 \<Longrightarrow> unat (sum_list xs :: 64 word) = sum_list (map unat xs)"
  by (induction xs) (simp_all add: unat_add_lem [THEN iffD1])

lemma buffer_ctor_chunks:
  assumes "lens \<noteq> []" "sum_list lens \<noteq> 0"
  shows "buffer_ctor isz buf lens =
    zip (chunk_bases (buf + word_of_nat (length lens) * 16 + alignment_padding isz 0) lens) lens"
  using assms
  by (simp add: buffer_ctor_def foldl_plus_words Let_def
      alignment_padding_const [of isz "word_of_nat (length lens) - 1"])

lemma buffer_ctor_nth:
  assumes "sum_list lens \<noteq> 0" "i < length lens"
  shows "buffer_ctor isz buf lens ! i =
    (buf + word_of_nat (length lens) * 16 + alignment_padding isz 0 + sum_list (take i lens), lens ! i)"
  using assms by (subst buffer_ctor_chunks) (auto simp: chunk_bases_nth)

lemma sum_take_le: "i < length xs \<Longrightarrow> sum_list (take i xs) + xs ! i \<le> (sum_list xs :: nat)"
proof (induction xs arbitrary: i)
  case (Cons x xs)
  then show ?case by (cases i) auto
qed simp

lemma buffer_new_size_unat:
  assumes "lens \<noteq> []"
    and "unat isz + 16 * length lens + 15 + sum_list (map unat lens) < 2 ^ 64"
  shows "unat (buffer_new_size isz lens) = unat isz + 16 * (length lens - 1)
    + unat (alignment_padding isz 0) + sum_list (map unat lens)"
proof -
  let ?n = "word_of_nat (length lens) :: 64 word"
  have n: "unat ?n = length lens" "0 < length lens"
    using assms by (simp_all add: unat_word_small)
  then have pos: "0 < ?n" by (simp add: word_less_nat_alt)
  have n1: "unat (?n - 1) = length lens - 1"
    using n pos by (simp add: unat_minus_one word_greater_zero_iff)
  have e: "unat ((?n - 1) * 16) = 16 * (length lens - 1)"
    using n1 assms(2) by (subst unat_mult_lem [THEN iffD1]) auto
  have p: "unat (alignment_padding isz 0) \<le> 15"
    using alignment_padding_small [of isz 0] by (simp add: word_le_nat_alt)
  have s: "unat (sum_list lens) = sum_list (map unat lens)"
    using assms(2) by (intro unat_sum_list) simp
  have a1: "unat (isz + (?n - 1) * 16) = unat isz + 16 * (length lens - 1)"
    using e assms(2) by (subst unat_add_lem [THEN iffD1]) auto
  have a2: "unat (isz + (?n - 1) * 16 + alignment_padding isz 0)
      = unat isz + 16 * (length lens - 1) + unat (alignment_padding isz 0)"
    using a1 p assms(2) by (subst unat_add_lem [THEN iffD1]) auto
  have "unat (isz + (?n - 1) * 16 + alignment_padding isz 0 + sum_list lens)
      = unat isz + 16 * (length lens - 1) + unat (alignment_padding isz 0) + sum_list (map unat lens)"
    using a2 s p assms(2) by (subst unat_add_lem [THEN iffD1]) auto
  then show ?thesis
    using pos by (simp add: buffer_new_size_def Let_def foldl_plus_words
        alignment_padding_const [of isz "?n - 1"])
qed

text \<open>
  C25: When the sizes do not overflow \<open>size_t\<close>, the chunks of a buffer lie one after the other
  inside the block \<open>operator new\<close> allocates, behind the array of structures, the first one
  aligned for any type, and each has the length asked for.
\<close>

theorem buffer_chunks_in_block:
  assumes "16 \<le> isz" and "16 dvd unat inst"
    and fits: "unat inst + unat isz + 16 * length lens + 15 + sum_list (map unat lens) < 2 ^ 64"
    and total: "sum_list (map unat lens) \<noteq> 0" and "i < length lens"
  shows "let bufs = buffer_ctor isz (inst + isz - 16) lens;
             block_end = unat inst + unat (buffer_new_size isz lens) in
    snd (bufs ! i) = lens ! i \<and>
    unat inst + unat isz + 16 * (length lens - 1) \<le> unat (fst (bufs ! i)) \<and>
    unat (fst (bufs ! i)) + unat (snd (bufs ! i)) \<le> block_end \<and>
    16 dvd unat (fst (bufs ! 0)) \<and>
    (Suc i < length lens \<longrightarrow> fst (bufs ! Suc i) = fst (bufs ! i) + snd (bufs ! i))"
proof -
  let ?p = "alignment_padding isz 0" and ?n = "word_of_nat (length lens) :: 64 word"
  let ?front = "unat inst + unat isz + 16 * (length lens - 1) + unat ?p"
  define bufs where "bufs = buffer_ctor isz (inst + isz - 16) lens"
  have ne: "lens \<noteq> []" using assms(5) by auto
  have "unat (sum_list lens) = sum_list (map unat lens)"
    using fits by (intro unat_sum_list) simp
  with total have t: "sum_list lens \<noteq> 0" by auto
  have p: "unat ?p \<le> 15"
    using alignment_padding_small [of isz 0] by (simp add: word_le_nat_alt)
  have w: "inst + isz - 16 + ?n * 16 + ?p + x = word_of_nat (?front + unat x)" for x
  proof -
    have "word_of_nat (16 * (length lens - 1)) = ?n * 16 - 16"
      using ne by (cases lens) (simp_all add: algebra_simps)
    then show ?thesis by simp
  qed
  have pre: "sum_list (map unat (take k lens)) + unat (lens ! k) \<le> sum_list (map unat lens)"
    if "k < length lens" for k
    using sum_take_le [of k "map unat lens"] that by (simp add: take_map)
  have base: "unat (fst (bufs ! k)) = ?front + sum_list (map unat (take k lens))"
    if "k < length lens" for k
  proof -
    have u: "unat (sum_list (take k lens)) = sum_list (map unat (take k lens))"
      using fits pre [OF that] by (intro unat_sum_list) simp
    have "?front + sum_list (map unat (take k lens)) < 2 ^ 64"
      using fits p pre [OF that] by linarith
    then show ?thesis
      by (simp add: bufs_def buffer_ctor_nth [OF t that] w u unat_word_small del: of_nat_add)
  qed
  have size: "unat (buffer_new_size isz lens) = unat isz + 16 * (length lens - 1)
      + unat ?p + sum_list (map unat lens)"
    using fits by (intro buffer_new_size_unat [OF ne]) simp
  have "unat ?p = 15 - (unat isz + 15) mod 16"
  proof -
    have "unat (isz + 15) = unat isz + 15"
      using fits by (subst unat_add_lem [THEN iffD1]) auto
    then have "unat (take_bit 4 (isz + 15)) = (unat isz + 15) mod 16"
      by (simp only: unat_take_bit_4)
    moreover have "unat (15 - take_bit 4 (isz + 15)) = unat (15 :: 64 word) - unat (take_bit 4 (isz + 15))"
      by (rule unat_sub) (use calculation in \<open>simp add: word_le_nat_alt\<close>)
    ultimately show ?thesis by (simp add: alignment_padding_eq)
  qed
  then have "16 dvd unat isz + unat ?p" by presburger
  with assms(2) have "16 dvd ?front" by presburger
  moreover have "unat (fst (bufs ! 0)) = ?front"
    using base [of 0] ne by simp
  moreover have "Suc i < length lens \<longrightarrow> fst (bufs ! Suc i) = fst (bufs ! i) + snd (bufs ! i)"
    using assms(5) by (simp add: bufs_def buffer_ctor_nth [OF t] take_Suc_conv_app_nth algebra_simps)
  ultimately show ?thesis
    unfolding bufs_def [symmetric] Let_def
    using base [OF assms(5)] pre [OF assms(5)] size
    by (simp add: bufs_def buffer_ctor_nth [OF t assms(5)])
qed

text \<open>The witness: two chunks in a block at the address 4096, for a 64-byte instance.\<close>

lemma buffer_chunks_in_block_witness:
  "let bufs = buffer_ctor 64 (4096 + 64 - 16) [10, 6];
       block_end = unat (4096 :: 64 word) + unat (buffer_new_size 64 [10, 6]) in
    snd (bufs ! 1) = [10, 6] ! 1 \<and>
    unat (4096 :: 64 word) + unat (64 :: 64 word) + 16 * (length [10, 6 :: 64 word] - 1)
      \<le> unat (fst (bufs ! 1)) \<and>
    unat (fst (bufs ! 1)) + unat (snd (bufs ! 1)) \<le> block_end \<and>
    16 dvd unat (fst (bufs ! 0)) \<and>
    (Suc 1 < length [10, 6 :: 64 word] \<longrightarrow> fst (bufs ! Suc 1) = fst (bufs ! 1) + snd (bufs ! 1))"
  by (rule buffer_chunks_in_block) simp_all

text \<open>
  C37: \<open>uv_buf::from()\<close> applied to the \<open>.base\<close> of the first structure yields the last structure
  of the array; it is the structure it was given exactly when the array has one element.
\<close>

theorem uv_buf_from_base:
  assumes "lens \<noteq> []" "sum_list lens \<noteq> 0"
  shows "uv_buf_from isz (fst (buffer_ctor isz buf lens ! 0)) = buf + (word_of_nat (length lens) - 1) * 16
    \<and> (length lens < 2 ^ 60 \<longrightarrow>
        (uv_buf_from isz (fst (buffer_ctor isz buf lens ! 0)) = buf \<longleftrightarrow> length lens = 1))"
proof -
  let ?n = "word_of_nat (length lens) :: 64 word"
  have e: "uv_buf_from isz (fst (buffer_ctor isz buf lens ! 0)) = buf + (?n - 1) * 16"
    using assms by (simp add: buffer_ctor_nth uv_buf_from_def algebra_simps)
  have "length lens = 1" if "length lens < 2 ^ 60" "(?n - 1) * 16 = 0"
  proof -
    have "?n * 16 = 16" using that(2) by (simp add: algebra_simps)
    then have "word_of_nat (length lens * 16) = (word_of_nat 16 :: 64 word)" by simp
    then have "unat (word_of_nat (length lens * 16) :: 64 word) = unat (word_of_nat 16 :: 64 word)"
      by simp
    then have "length lens * 16 = 16"
      using that(1) by (simp add: unat_word_small del: of_nat_mult of_nat_numeral)
    then show ?thesis by simp
  qed
  moreover have "(?n - 1) * 16 = 0" if "length lens = 1"
    using that by simp
  ultimately have "length lens < 2 ^ 60 \<longrightarrow> ((?n - 1) * 16 = 0 \<longleftrightarrow> length lens = 1)"
    by blast
  then show ?thesis unfolding e add_cancel_left_right by blast
qed

lemma uv_buf_from_base_witness:
  "uv_buf_from 64 (fst (buffer_ctor 64 1000 [8, 8, 8] ! 0)) = 1000 + 32"
  using uv_buf_from_base [of "[8, 8, 8]" 64 1000] by simp

text \<open>
  The sum of the lengths is not checked: three chunks of \<open>2 ^ 63\<close>, \<open>2 ^ 63\<close> and 1 bytes are
  created in a block with room for one byte.
\<close>

theorem buffer_size_wraps:
  "snd (buffer_ctor 64 buf [2 ^ 63, 2 ^ 63, 1] ! 0) = 2 ^ 63 \<and>
   buffer_new_size 64 [2 ^ 63, 2 ^ 63, 1] = 64 + 2 * 16 + 1"
  by (simp add: buffer_ctor_def buffer_new_size_def alignment_padding_eq Let_def)

section \<open>The instance\<close>

definition buffer_init :: "64 word list \<Rightarrow> buffer_instance" where
  "buffer_init lens = \<lparr>b_refs = 1, b_sink_cb = None, b_lens = map snd (buffer_ctor 64 0 lens),
     b_null = (lens = [] \<or> foldl (+) 0 lens = 0)\<rparr>"

definition buffer_create :: "64 word list \<Rightarrow> world \<Rightarrow> addr \<times> world" where
  "buffer_create lens w =
     (nxt w, w\<lparr>buffers := (buffers w)(nxt w \<mapsto> buffer_init lens), nxt := Suc (nxt w)\<rparr>)"

definition buffer_remove :: "addr \<Rightarrow> world \<Rightarrow> world" where
  "buffer_remove a w = w\<lparr>buffers := (buffers w)(a := None)\<rparr>"

text \<open>
  The sink callback gets a variable that owns the only reference. If it has moved the buffer
  away the variable is null; otherwise the instance goes unless it was copied meanwhile.
\<close>

definition buffer_destroy :: "env \<Rightarrow> addr \<Rightarrow> world \<Rightarrow> world res" where
  "buffer_destroy env a w =
     rbind (buffer_at a w) (\<lambda>i.
     case b_sink_cb i of
         None \<Rightarrow> Inr (buffer_remove a w)
       | Some c \<Rightarrow>
           (let w = buffer_put a (i\<lparr>b_refs := 1\<rparr>) w;
                (b, w) = var_new (Some (BufferO a)) w
            in rbind (usr env c [b] [] w) (\<lambda>w.
               rbind (var_load b w) (\<lambda>p.
               let w = var_drop b w in
               if p \<noteq> None then
                 rbind (buffer_at a w) (\<lambda>i.
                 let nrefs = ref_count_dec (b_refs i) in
                 if nrefs = 0 then Inr (buffer_remove a w)
                 else Inr (buffer_put a (i\<lparr>b_refs := nrefs\<rparr>) w))
               else Inr w))))"

definition buffer_ref :: "addr \<Rightarrow> world \<Rightarrow> world res" where
  "buffer_ref a w =
     rbind (buffer_at a w) (\<lambda>i.
     rbind (ref_count_inc (b_refs i)) (\<lambda>c.
     Inr (buffer_put a (i\<lparr>b_refs := c\<rparr>) w)))"

definition buffer_unref :: "env \<Rightarrow> addr \<Rightarrow> world \<Rightarrow> world res" where
  "buffer_unref env a w =
     rbind (buffer_at a w) (\<lambda>i.
     let nrefs = ref_count_dec (b_refs i);
         w = buffer_put a (i\<lparr>b_refs := nrefs\<rparr>) w
     in if nrefs = 0 then buffer_destroy env a w else Inr w)"

section \<open>The wrapper class\<close>

fun is_buffer :: "obj \<Rightarrow> bool" where
  "is_buffer (BufferO a) = True"
| "is_buffer _ = False"

fun buffer_obj_ref :: "obj \<Rightarrow> world \<Rightarrow> world res" where
  "buffer_obj_ref (BufferO a) w = buffer_ref a w"
| "buffer_obj_ref _ w = Inl Bad_cast"

fun buffer_obj_unref :: "env \<Rightarrow> obj \<Rightarrow> world \<Rightarrow> world res" where
  "buffer_obj_unref env (BufferO a) w = buffer_unref env a w"
| "buffer_obj_unref env _ w = Inl Bad_cast"

definition buffer_var_ctor :: "var \<Rightarrow> 64 word list \<Rightarrow> world \<Rightarrow> world" where
  "buffer_var_ctor v lens w = (let (a, w) = buffer_create lens w in var_store v (Some (BufferO a)) w)"

text \<open>The constructor with \<open>adopt_ref\<close> takes over a reference that already exists.\<close>

definition buffer_adopt :: "var \<Rightarrow> addr option \<Rightarrow> world \<Rightarrow> world" where
  "buffer_adopt v p w = var_store v (map_option BufferO p) w"

definition buffer_from :: "var \<Rightarrow> addr option \<Rightarrow> world \<Rightarrow> world res" where
  "buffer_from v p w = sp_from buffer_obj_ref v (map_option BufferO p) w"

definition buffer_copy_ctor :: "var \<Rightarrow> var \<Rightarrow> world \<Rightarrow> world res" where
  "buffer_copy_ctor = sp_copy_ctor buffer_obj_ref"

definition buffer_copy_assign :: "env \<Rightarrow> var \<Rightarrow> var \<Rightarrow> world \<Rightarrow> world res" where
  "buffer_copy_assign env = sp_copy_assign buffer_obj_ref (buffer_obj_unref env)"

definition buffer_move_ctor :: "var \<Rightarrow> var \<Rightarrow> world \<Rightarrow> world res" where
  "buffer_move_ctor = sp_move_ctor"

definition buffer_move_assign :: "env \<Rightarrow> var \<Rightarrow> var \<Rightarrow> world \<Rightarrow> world res" where
  "buffer_move_assign env = sp_move_assign (buffer_obj_unref env)"

definition buffer_var_dtor :: "env \<Rightarrow> var \<Rightarrow> world \<Rightarrow> world res" where
  "buffer_var_dtor env = sp_dtor (buffer_obj_unref env)"

definition buffer_swap :: "var \<Rightarrow> var \<Rightarrow> world \<Rightarrow> world res" where
  "buffer_swap = sp_swap"

definition buffer_ptr :: "var \<Rightarrow> world \<Rightarrow> addr option res" where
  "buffer_ptr v w =
     rbind (var_load v w) (\<lambda>p.
     case p of None \<Rightarrow> Inr None | Some (BufferO a) \<Rightarrow> Inr (Some a) | Some _ \<Rightarrow> Inl Bad_cast)"

definition buffer_nrefs :: "var \<Rightarrow> world \<Rightarrow> int res" where
  "buffer_nrefs v w =
     rbind (buffer_ptr v w) (\<lambda>p. rbind (deref p) (\<lambda>a.
     rbind (buffer_at a w) (\<lambda>i. Inr (b_refs i))))"

definition buffer_count :: "addr \<Rightarrow> world \<Rightarrow> nat res" where
  "buffer_count a w = rbind (buffer_at a w) (\<lambda>i. Inr (length (b_lens i)))"

definition buffer_len :: "addr \<Rightarrow> nat \<Rightarrow> world \<Rightarrow> 64 word res" where
  "buffer_len a k w =
     rbind (buffer_at a w) (\<lambda>i.
     if k < length (b_lens i) then Inr (b_lens i ! k) else Inl Wild_pointer)"

definition buffer_bool :: "addr \<Rightarrow> world \<Rightarrow> bool res" where
  "buffer_bool a w = rbind (buffer_at a w) (\<lambda>i. Inr (\<not> b_null i))"

text \<open>
  \<open>instance::uv_buf::from(base)\<close> as the library uses it: from the \<open>.base\<close> of the first structure
  of the buffer \<open>a\<close>. By the layout lemmas this comes back to \<open>a\<close> for an array of one structure
  only; a null \<open>.base\<close> leads nowhere.
\<close>

definition buffer_from_base :: "addr \<Rightarrow> world \<Rightarrow> addr res" where
  "buffer_from_base a w =
     rbind (buffer_at a w) (\<lambda>i.
     if length (b_lens i) = 1 \<and> \<not> b_null i then Inr a else Inl Wild_pointer)"

section \<open>The contract\<close>

lemma buffer_at_simps [simp]:
  "buffers w a = Some i \<Longrightarrow> buffer_at a w = Inr i"
  "buffers w a = None \<Longrightarrow> buffer_at a w = Inl Use_after_free"
  by (simp_all add: buffer_at_def)

lemma buffer_ref_ok:
  assumes "winv E w" "live_refs w (BufferO a) \<noteq> None"
  shows "ok (\<lambda>w'. winv (inc (BufferO a) E) w' \<and> vars w' = vars w) (buffer_ref a w)"
proof -
  from assms(2) obtain i where i: "buffers w a = Some i" by (auto simp: live_buffer)
  have "winv (inc (BufferO a) E) (buffer_put a (i\<lparr>b_refs := b_refs i + 1\<rparr>) w)"
    by (rule winv_buffer_up [OF assms(1) i]) simp_all
  with i winv_refs_pos(3) [OF assms(1) i] show ?thesis
    by (simp add: buffer_ref_def store_simps)
qed

lemma winv_buffer_last:
  assumes "winv (inc (BufferO a) E) w" "buffers w a = Some i" "b_refs i = 1"
  shows "winv E (buffer_remove a w)"
proof (rule winv_last [OF assms(1)])
  show "live_refs w (BufferO a) = Some 1" using assms by (simp add: live_buffer)
  show "live_refs (buffer_remove a w) = (live_refs w)(BufferO a := None)"
    by (rule ext) (simp add: live_refs_def buffer_remove_def split: obj.split)
  show "booked (buffer_remove a w) = booked w"
    by (rule booked_cong) (simp add: buffer_remove_def)
  show "bounded (buffer_remove a w)"
    using winv_bounded [OF assms(1)] by (simp add: bounded_def buffer_remove_def)
qed (simp add: buffer_remove_def)

text \<open>
  What a sink callback may do: anything that respects the counts, as long as the variable it
  is given ends up as it was or moved from.
\<close>

definition sinks_ok :: "env \<Rightarrow> bool" where
  "sinks_ok env \<longleftrightarrow> (\<forall>E w c b a. winv E w \<and> vars w b = Some (Some (BufferO a)) \<longrightarrow>
     ok (\<lambda>w'. winv E w' \<and> (vars w' b = Some None \<or> vars w' b = Some (Some (BufferO a))))
       (usr env c [b] [] w))"

lemma buffer_release_ok:
  assumes "winv (inc (BufferO a) E) w"
  shows "ok (winv E) (rbind (buffer_at a w) (\<lambda>i.
      let nrefs = ref_count_dec (b_refs i) in
      if nrefs = 0 then Inr (buffer_remove a w) else Inr (buffer_put a (i\<lparr>b_refs := nrefs\<rparr>) w)))"
proof -
  from winv_owned_live [OF assms] obtain i where i: "buffers w a = Some i"
    by (auto simp: live_buffer)
  show ?thesis
  proof (cases "b_refs i = 1")
    case True
    with i winv_buffer_last [OF assms i] show ?thesis by (simp add: ref_count_dec_def)
  next
    case False
    with i winv_buffer_down [OF assms i, of "i\<lparr>b_refs := b_refs i - 1\<rparr>"]
    show ?thesis by (simp add: ref_count_dec_def Let_def)
  qed
qed

lemma buffer_sink_ok:
  assumes sinks: "sinks_ok env" and inv: "winv (inc (BufferO a) E) w"
  shows "ok (winv E) (let (b, w) = var_new (Some (BufferO a)) w in
      rbind (usr env c [b] [] w) (\<lambda>w.
      rbind (var_load b w) (\<lambda>p.
      let w = var_drop b w in
      if p \<noteq> None then
        rbind (buffer_at a w) (\<lambda>i.
        let nrefs = ref_count_dec (b_refs i) in
        if nrefs = 0 then Inr (buffer_remove a w) else Inr (buffer_put a (i\<lparr>b_refs := nrefs\<rparr>) w))
      else Inr w)))"
proof -
  let ?b = "nxt w" and ?w = "var_store (nxt w) (Some (BufferO a)) w"
  have "winv E ?w" using winv_var_new [of "Some (BufferO a)" E w] inv by simp
  moreover have "vars ?w ?b = Some (Some (BufferO a))" by (simp add: store_simps)
  ultimately obtain w1 where w1: "usr env c [?b] [] ?w = Inr w1" "winv E w1"
    and b: "vars w1 ?b = Some None \<or> vars w1 ?b = Some (Some (BufferO a))"
    using sinks by (force simp: sinks_ok_def ok_iff)
  from b show ?thesis
  proof
    assume "vars w1 ?b = Some None"
    with w1 winv_var_drop [OF w1(2), of ?b None] show ?thesis
      by (simp add: var_new_store var_load_Some Let_def)
  next
    assume v: "vars w1 ?b = Some (Some (BufferO a))"
    with winv_var_drop [OF w1(2) v] have "winv (inc (BufferO a) E) (var_drop ?b w1)" by simp
    from buffer_release_ok [OF this] w1 v show ?thesis
      by (simp add: var_new_store var_load_Some Let_def)
  qed
qed

lemma buffer_put_twice: "buffer_put a j (buffer_put a i w) = buffer_put a j w"
  by (simp add: buffer_put_def)

lemma buffer_put_same: "buffers w a = Some i \<Longrightarrow> buffer_put a i w = w"
  by (simp add: buffer_put_def fun_upd_idem)

lemma buffer_unref_ok:
  assumes "sinks_ok env" "winv (inc (BufferO a) E) w"
  shows "ok (winv E) (buffer_unref env a w)"
proof -
  from winv_owned_live [OF assms(2)] obtain i where i: "buffers w a = Some i"
    by (auto simp: live_buffer)
  show ?thesis
  proof (cases "b_refs i = 1")
    case False
    with i winv_buffer_down [OF assms(2) i, of "i\<lparr>b_refs := b_refs i - 1\<rparr>"]
    show ?thesis by (simp add: buffer_unref_def ref_count_dec_def Let_def)
  next
    case True
    show ?thesis
    proof (cases "b_sink_cb i")
      case None
      have "buffer_remove a (buffer_put a (i\<lparr>b_refs := 0\<rparr>) w) = buffer_remove a w"
        by (simp add: buffer_remove_def buffer_put_def)
      with True None i winv_buffer_last [OF assms(2) i] show ?thesis
        by (simp add: buffer_unref_def buffer_destroy_def ref_count_dec_def Let_def store_simps)
    next
      case (Some c)
      have "i\<lparr>b_refs := 1\<rparr> = i" using True by simp
      with True Some i buffer_sink_ok [OF assms, of c] show ?thesis
        by (simp add: buffer_unref_def buffer_destroy_def ref_count_dec_def Let_def store_simps
            buffer_put_twice buffer_put_same)
    qed
  qed
qed

lemma buffer_obj_ref_law:
  "winv E w \<Longrightarrow> is_buffer p \<Longrightarrow> live_refs w p \<noteq> None \<Longrightarrow>
   ok (\<lambda>w'. winv (inc p E) w' \<and> vars w' = vars w) (buffer_obj_ref p w)"
  by (cases p) (simp_all add: buffer_ref_ok)

lemma buffer_obj_unref_law:
  "sinks_ok env \<Longrightarrow> winv (inc p E) w \<Longrightarrow> is_buffer p \<Longrightarrow> ok (winv E) (buffer_obj_unref env p w)"
  by (cases p) (simp_all add: buffer_unref_ok)

interpretation buffer_rc: refcounted buffer_obj_ref "buffer_obj_unref env" is_buffer "sinks_ok env"
  for env
  by unfold_locales (simp_all add: buffer_obj_ref_law buffer_obj_unref_law)

text \<open>A new buffer is one reference owned by whoever created it.\<close>

lemma buffer_create_ok:
  assumes "winv E w" "buffer_create lens w = (a, w')"
  shows "winv (inc (BufferO a) E) w'" and "buffers w a = None"
proof -
  from assms(2) have a: "a = nxt w"
    and w': "w' = w\<lparr>buffers := (buffers w)(a \<mapsto> buffer_init lens), nxt := Suc a\<rparr>"
    by (auto simp: buffer_create_def)
  show none: "buffers w a = None"
    using winv_bounded [OF assms(1)] by (auto simp: bounded_def a)
  show "winv (inc (BufferO a) E) w'"
    unfolding winv_def
  proof (intro conjI allI)
    show "bounded w'"
      using winv_bounded [OF assms(1)] by (auto simp: bounded_def w' a less_Suc_eq)
    fix p
    have "held (inc (BufferO a) E) w' p = held E w p + (if p = BufferO a then 1 else 0)"
      using booked_cong [of w' w] by (simp add: held_def inc_apply w')
    moreover have "live_refs w' p = (if p = BufferO a then Some 1 else live_refs w p)"
      by (auto simp: live_refs_def w' buffer_init_def split: obj.split)
    moreover have "held E w (BufferO a) = 0"
      using winv_agrees [OF assms(1), of "BufferO a"] none by (simp add: live_buffer)
    ultimately show "agrees (live_refs w' p) (held (inc (BufferO a) E) w' p)"
      using winv_agrees [OF assms(1), of p] by auto
  qed
qed

end
