(* ===== verification/Uvcc_Request.thy ===== *)
theory Uvcc_Request
  imports Uvcc_Pointer
begin

text \<open>
  \<^verbatim>\<open>request-base.hpp\<close>: the request instance, its reference counting and destruction, and the
  wrapper class \<open>request\<close> the concrete requests derive from.
\<close>

section \<open>The instance\<close>

definition uv_req_init :: uv_req_struct where
  "uv_req_init = \<lparr>q_type = UV_UNKNOWN_REQ, q_fs_type = UV_FS_UNKNOWN, q_handle = None,
     q_send_handle = None, q_loop = None, q_result = 0, q_addrinfo = None,
     q_path = None, q_new_path = None, q_ptr = None\<rparr>"

definition req_properties_init :: req_properties where
  "req_properties_init = \<lparr>p_cleanup = No_cleanup, p_handle = None, p_handle_out = None,
     p_buf = None, p_offset = 0, p_pending_size = 0, p_peer = replicate 128 0, p_task = None,
     p_future = None, p_io_offset = 0\<rparr>"

definition request_init :: req_instance where
  "request_init = \<lparr>r_uv_error = 0, r_refs = 1, r_destroy_cb = None, r_request_cb = None,
     r_uv = uv_req_init, r_props = req_properties_init\<rparr>"

definition request_create :: "world \<Rightarrow> addr \<times> world" where
  "request_create w =
     (nxt w, w\<lparr>requests := (requests w)(nxt w \<mapsto> request_init), nxt := Suc (nxt w)\<rparr>)"

text \<open>
  The destructor of the stored properties. That of an output request calls the destructor of the class the
  request has become last, on the same union: for a write and a datagram that has no effect, for a file
  write it cleans up the request the pointer at the beginning of the union refers to.
\<close>

definition output_properties_dtor :: "env \<Rightarrow> addr option \<Rightarrow> req_instance \<Rightarrow> world \<Rightarrow> world" where
  "output_properties_dtor env head i w = (case q_type (r_uv i) of
       UV_FS \<Rightarrow> (case head of None \<Rightarrow> w | Some q \<Rightarrow> snd (uv env ''uv_fs_req_cleanup'' [Ptr (Some q)] w))
     | _ \<Rightarrow> w)"

definition properties_dtor :: "env \<Rightarrow> addr \<Rightarrow> req_instance \<Rightarrow> world \<Rightarrow> world" where
  "properties_dtor env a i w =
     (case p_cleanup (r_props i) of
         No_cleanup \<Rightarrow> w
       | Fs_cleanup \<Rightarrow> snd (uv env ''uv_fs_req_cleanup'' [Ptr (Some a)] w)
       | Addrinfo_cleanup \<Rightarrow> snd (uv env ''uv_freeaddrinfo'' [Ptr (q_addrinfo (r_uv i))] w)
       | Output_cleanup head \<Rightarrow> output_properties_dtor env head i w)"

definition call_req_destroy_cb :: "cb option \<Rightarrow> world \<Rightarrow> world" where
  "call_req_destroy_cb c w = (case c of None \<Rightarrow> w | Some c \<Rightarrow> emit (Destroy_cb c) w)"

definition request_remove :: "addr \<Rightarrow> world \<Rightarrow> world" where
  "request_remove a w = w\<lparr>requests := (requests w)(a := None)\<rparr>"

definition request_destroy :: "env \<Rightarrow> addr \<Rightarrow> world \<Rightarrow> world res" where
  "request_destroy env a w =
     rbind (request_at a w) (\<lambda>i.
     let w = call_req_destroy_cb (r_destroy_cb i) w
     in Inr (request_remove a (properties_dtor env a i w)))"

definition request_ref :: "addr \<Rightarrow> world \<Rightarrow> world res" where
  "request_ref a w =
     rbind (request_at a w) (\<lambda>i.
     rbind (ref_count_inc (r_refs i)) (\<lambda>c.
     Inr (request_put a (i\<lparr>r_refs := c\<rparr>) w)))"

definition request_unref :: "env \<Rightarrow> addr \<Rightarrow> world \<Rightarrow> world res" where
  "request_unref env a w =
     rbind (request_at a w) (\<lambda>i.
     let nrefs = ref_count_dec (r_refs i);
         w = request_put a (i\<lparr>r_refs := nrefs\<rparr>) w
     in if nrefs = 0 then request_destroy env a w else Inr w)"

section \<open>The wrapper class\<close>

fun is_request :: "obj \<Rightarrow> bool" where
  "is_request (RequestO a) = True"
| "is_request _ = False"

fun request_obj_ref :: "obj \<Rightarrow> world \<Rightarrow> world res" where
  "request_obj_ref (RequestO a) w = request_ref a w"
| "request_obj_ref _ w = Inl Bad_cast"

fun request_obj_unref :: "env \<Rightarrow> obj \<Rightarrow> world \<Rightarrow> world res" where
  "request_obj_unref env (RequestO a) w = request_unref env a w"
| "request_obj_unref env _ w = Inl Bad_cast"

definition request_from :: "var \<Rightarrow> addr option \<Rightarrow> world \<Rightarrow> world res" where
  "request_from v p w = sp_from request_obj_ref v (map_option RequestO p) w"

definition request_copy_ctor :: "var \<Rightarrow> var \<Rightarrow> world \<Rightarrow> world res" where
  "request_copy_ctor = sp_copy_ctor request_obj_ref"

definition request_copy_assign :: "env \<Rightarrow> var \<Rightarrow> var \<Rightarrow> world \<Rightarrow> world res" where
  "request_copy_assign env = sp_copy_assign request_obj_ref (request_obj_unref env)"

definition request_move_ctor :: "var \<Rightarrow> var \<Rightarrow> world \<Rightarrow> world res" where
  "request_move_ctor = sp_move_ctor"

definition request_move_assign :: "env \<Rightarrow> var \<Rightarrow> var \<Rightarrow> world \<Rightarrow> world res" where
  "request_move_assign env = sp_move_assign (request_obj_unref env)"

definition request_var_dtor :: "env \<Rightarrow> var \<Rightarrow> world \<Rightarrow> world res" where
  "request_var_dtor env = sp_dtor (request_obj_unref env)"

definition request_swap :: "var \<Rightarrow> var \<Rightarrow> world \<Rightarrow> world res" where
  "request_swap = sp_swap"

definition request_ptr :: "var \<Rightarrow> world \<Rightarrow> addr option res" where
  "request_ptr v w =
     rbind (var_load v w) (\<lambda>p.
     case p of None \<Rightarrow> Inr None | Some (RequestO a) \<Rightarrow> Inr (Some a) | Some _ \<Rightarrow> Inl Bad_cast)"

text \<open>\<open>uv_status(value)\<close> stores the value in the instance and returns it.\<close>

definition request_set_status :: "addr \<Rightarrow> int \<Rightarrow> world \<Rightarrow> world res" where
  "request_set_status a value w = request_mod a (\<lambda>i. i\<lparr>r_uv_error := value\<rparr>) w"

definition request_return_status :: "addr \<Rightarrow> int \<times> world \<Rightarrow> (int \<times> world) res" where
  "request_return_status a = (\<lambda>(r, w).
     rbind (request_set_status a r w) (\<lambda>w. Inr (r, w)))"

definition request_nrefs :: "var \<Rightarrow> world \<Rightarrow> int res" where
  "request_nrefs v w =
     rbind (request_ptr v w) (\<lambda>p. rbind (deref p) (\<lambda>a.
     rbind (request_at a w) (\<lambda>i. Inr (r_refs i))))"

definition request_uv_status :: "var \<Rightarrow> world \<Rightarrow> int res" where
  "request_uv_status v w =
     rbind (request_ptr v w) (\<lambda>p. rbind (deref p) (\<lambda>a.
     rbind (request_at a w) (\<lambda>i. Inr (r_uv_error i))))"

text \<open>Unlike that of a handle, the conversion to \<open>bool\<close> does not check for a void variable.\<close>

definition request_bool :: "var \<Rightarrow> world \<Rightarrow> bool res" where
  "request_bool v w = rbind (request_uv_status v w) (\<lambda>s. Inr (0 \<le> s))"

definition request_type :: "addr \<Rightarrow> world \<Rightarrow> uv_req_type res" where
  "request_type a w = rbind (request_at a w) (\<lambda>i. Inr (q_type (r_uv i)))"

fun req_type_name :: "uv_req_type \<Rightarrow> string" where
  "req_type_name UV_REQ = ''req''"
| "req_type_name UV_CONNECT = ''connect''"
| "req_type_name UV_WRITE = ''write''"
| "req_type_name UV_SHUTDOWN = ''shutdown''"
| "req_type_name UV_UDP_SEND = ''udp_send''"
| "req_type_name UV_FS = ''fs''"
| "req_type_name UV_WORK = ''work''"
| "req_type_name UV_GETADDRINFO = ''getaddrinfo''"
| "req_type_name UV_GETNAMEINFO = ''getnameinfo''"
| "req_type_name UV_UNKNOWN_REQ = ''<unknown>''"

definition request_cancel :: "env \<Rightarrow> addr \<Rightarrow> world \<Rightarrow> (int \<times> world) res" where
  "request_cancel env a w = uv_on_request env ''uv_cancel'' a [] w"

text \<open>\<open>on_request()\<close>: the callback to be called when the request has completed.\<close>

definition request_set_cb :: "addr \<Rightarrow> cb option \<Rightarrow> world \<Rightarrow> world res" where
  "request_set_cb a c w = request_mod a (\<lambda>i. i\<lparr>r_request_cb := c\<rparr>) w"

section \<open>The contract\<close>

lemma request_at_simps [simp]:
  "requests w a = Some i \<Longrightarrow> request_at a w = Inr i"
  "requests w a = None \<Longrightarrow> request_at a w = Inl Use_after_free"
  by (simp_all add: request_at_def)

lemma request_mod_simps [simp]:
  "requests w a = Some i \<Longrightarrow> request_mod a f w = Inr (request_put a (f i) w)"
  by (simp add: request_mod_def)

lemma request_ref_eq:
  "requests w a = Some i \<Longrightarrow> 0 < r_refs i \<Longrightarrow>
   request_ref a w = Inr (request_put a (i\<lparr>r_refs := r_refs i + 1\<rparr>) w)"
  by (simp add: request_ref_def)

lemma request_ref_ok:
  assumes "winv E w" "live_refs w (RequestO a) \<noteq> None"
  shows "ok (\<lambda>w'. winv (inc (RequestO a) E) w' \<and> vars w' = vars w) (request_ref a w)"
proof -
  from assms(2) obtain i where i: "requests w a = Some i" by (auto simp: live_request)
  have "winv (inc (RequestO a) E) (request_put a (i\<lparr>r_refs := r_refs i + 1\<rparr>) w)"
    by (rule winv_request_up [OF assms(1) i]) simp_all
  with i winv_refs_pos(4) [OF assms(1) i] show ?thesis
    by (simp add: request_ref_eq store_simps)
qed

text \<open>Destroying an instance changes nothing but its entry and the record of calls.\<close>

lemma properties_dtor_effect: "\<exists>tr. properties_dtor env a i w = w\<lparr>trace := tr\<rparr>"
  by (cases "p_cleanup (r_props i)")
    (auto simp: properties_dtor_def output_properties_dtor_def uv_def emit_def split: uv_req_type.split option.split
      intro: exI [of _ "trace w"])

lemma call_req_destroy_cb_effect: "\<exists>tr. call_req_destroy_cb c w = w\<lparr>trace := tr\<rparr>"
  by (cases c) (auto simp: call_req_destroy_cb_def emit_def intro: exI [of _ "trace w"])

lemma request_destroy_effect:
  assumes "requests w a = Some i"
  shows "\<exists>tr. request_destroy env a w = Inr (w\<lparr>requests := (requests w)(a := None), trace := tr\<rparr>)"
proof -
  obtain t1 where t1: "call_req_destroy_cb (r_destroy_cb i) w = w\<lparr>trace := t1\<rparr>"
    using call_req_destroy_cb_effect by blast
  obtain t2 where t2: "properties_dtor env a i (w\<lparr>trace := t1\<rparr>) = w\<lparr>trace := t1, trace := t2\<rparr>"
    using properties_dtor_effect [of env a i "w\<lparr>trace := t1\<rparr>"] by auto
  have "request_destroy env a w = Inr (w\<lparr>requests := (requests w)(a := None), trace := t2\<rparr>)"
    using assms by (simp add: request_destroy_def t1 t2 request_remove_def)
  then show ?thesis by blast
qed

lemma request_unref_effect:
  assumes "requests w a = Some i"
  shows "\<exists>rq tr. request_unref env a w = Inr (w\<lparr>requests := rq, trace := tr\<rparr>) \<and>
    rq = (requests w)(a := if r_refs i = 1 then None else Some (i\<lparr>r_refs := r_refs i - 1\<rparr>))"
proof (cases "r_refs i = 1")
  case True
  let ?w = "request_put a (i\<lparr>r_refs := 0\<rparr>) w"
  have "requests ?w a = Some (i\<lparr>r_refs := 0\<rparr>)" by (simp add: store_simps)
  from request_destroy_effect [OF this, of env] obtain tr
    where "request_destroy env a ?w = Inr (?w\<lparr>requests := (requests ?w)(a := None), trace := tr\<rparr>)"
    by blast
  moreover have "?w\<lparr>requests := (requests ?w)(a := None), trace := tr\<rparr>
      = w\<lparr>requests := (requests w)(a := None), trace := tr\<rparr>"
    by (simp add: request_put_def)
  ultimately have "request_unref env a w = Inr (w\<lparr>requests := (requests w)(a := None), trace := tr\<rparr>)"
    using assms True by (simp add: request_unref_def ref_count_dec_def Let_def)
  with True show ?thesis by simp blast
next
  case False
  then have "request_unref env a w = Inr (w\<lparr>requests := (requests w)(a \<mapsto> i\<lparr>r_refs := r_refs i - 1\<rparr>),
      trace := trace w\<rparr>)"
    using assms by (simp add: request_unref_def ref_count_dec_def Let_def request_put_def)
  then show ?thesis using False
    by (intro exI [of _ "(requests w)(a \<mapsto> i\<lparr>r_refs := r_refs i - 1\<rparr>)"] exI [of _ "trace w"])
      simp
qed

lemma live_refs_requests_upd:
  "live_refs (w\<lparr>requests := (requests w)(a := x), trace := tr\<rparr>)
     = (live_refs w)(RequestO a := map_option r_refs x)"
  by (rule ext) (simp add: live_refs_def split: obj.split)

lemma booked_requests_upd: "booked (w\<lparr>requests := rq, trace := tr\<rparr>) = booked w"
  by (rule booked_cong) simp

lemma bounded_requests_upd:
  "bounded w \<Longrightarrow> requests w a \<noteq> None \<Longrightarrow> bounded (w\<lparr>requests := (requests w)(a := x), trace := tr\<rparr>)"
  by (auto simp: bounded_def)

lemma request_unref_ok:
  assumes inv: "winv (inc (RequestO a) E) w"
  shows "ok (\<lambda>w'. winv E w' \<and> vars w' = vars w \<and> handles w' = handles w \<and> loops w' = loops w \<and>
    buffers w' = buffers w \<and> (\<forall>b. b \<noteq> a \<longrightarrow> requests w' b = requests w b)) (request_unref env a w)"
proof -
  from winv_owned_live [OF inv] obtain i where i: "requests w a = Some i"
    by (auto simp: live_request)
  let ?x = "if r_refs i = 1 then None else Some (i\<lparr>r_refs := r_refs i - 1\<rparr>)"
  from request_unref_effect [OF i] obtain tr
    where r: "request_unref env a w = Inr (w\<lparr>requests := (requests w)(a := ?x), trace := tr\<rparr>)"
    by blast
  have bnd: "bounded (w\<lparr>requests := (requests w)(a := ?x), trace := tr\<rparr>)"
    using i by (intro bounded_requests_upd [OF winv_bounded [OF inv]]) simp
  have "winv E (w\<lparr>requests := (requests w)(a := ?x), trace := tr\<rparr>)"
  proof (cases "r_refs i = 1")
    case True
    show ?thesis
      by (rule winv_last [OF inv])
        (use i True bnd in \<open>simp_all add: live_request live_refs_requests_upd booked_requests_upd\<close>)
  next
    case False
    show ?thesis
      by (rule winv_count_down [OF inv, of "r_refs i"])
        (use i False bnd in \<open>simp_all add: live_request live_refs_requests_upd booked_requests_upd\<close>)
  qed
  with r show ?thesis by simp
qed

lemma request_obj_ref_law:
  "winv E w \<Longrightarrow> is_request p \<Longrightarrow> live_refs w p \<noteq> None \<Longrightarrow>
   ok (\<lambda>w'. winv (inc p E) w' \<and> vars w' = vars w) (request_obj_ref p w)"
  by (cases p) (simp_all add: request_ref_ok)

lemma request_obj_unref_law:
  "winv (inc p E) w \<Longrightarrow> is_request p \<Longrightarrow>
   ok (\<lambda>w'. winv E w' \<and> vars w' = vars w) (request_obj_unref env p w)"
  by (cases p) (auto intro: ok_weaken [OF request_unref_ok])

interpretation request_rc: refcounted_quiet request_obj_ref "request_obj_unref env" is_request True
  for env
  by unfold_locales
    (auto simp: request_obj_ref_law intro: request_obj_unref_law ok_weaken [OF request_obj_unref_law])

text \<open>A new request is one reference owned by whoever created it.\<close>

lemma request_create_ok:
  assumes "winv E w" "request_create w = (a, w')"
  shows "winv (inc (RequestO a) E) w'" and "requests w a = None"
    and "requests w' a = Some request_init" and "vars w' = vars w"
proof -
  from assms(2) have a: "a = nxt w"
    and w': "w' = w\<lparr>requests := (requests w)(a \<mapsto> request_init), nxt := Suc a\<rparr>"
    by (auto simp: request_create_def)
  show none: "requests w a = None"
    using winv_bounded [OF assms(1)] by (auto simp: bounded_def a)
  show "requests w' a = Some request_init" "vars w' = vars w"
    by (simp_all add: w')
  show "winv (inc (RequestO a) E) w'"
    unfolding winv_def
  proof (intro conjI allI)
    show "bounded w'"
      using winv_bounded [OF assms(1)] by (auto simp: bounded_def w' a less_Suc_eq)
    fix p
    have "held (inc (RequestO a) E) w' p = held E w p + (if p = RequestO a then 1 else 0)"
      using booked_cong [of w' w] by (simp add: held_def inc_apply w')
    moreover have "live_refs w' p = (if p = RequestO a then Some 1 else live_refs w p)"
      by (auto simp: live_refs_def w' request_init_def split: obj.split)
    moreover have "held E w (RequestO a) = 0"
      using winv_agrees [OF assms(1), of "RequestO a"] none by (simp add: live_request)
    ultimately show "agrees (live_refs w' p) (held (inc (RequestO a) E) w' p)"
      using winv_agrees [OF assms(1), of p] by auto
  qed
qed

end
