(* ===== verification/Uvcc_Callback.thy ===== *)
theory Uvcc_Callback
  imports Uvcc_Handle Uvcc_Buffer Uvcc_Request
begin

text \<open>
  Calling the client. The handlers the library registers with libuv pass the client's callback
  fresh variables for the handle, request or buffer concerned and destroy these variables
  after the call. What a client callback may do is stated once, as the contract \<open>calls_ok\<close>.
\<close>

section \<open>By-value parameters\<close>

text \<open>
  \<open>f(io(_uv_handle), ...)\<close>: the parameter is a copy that takes a reference; it is destroyed
  when the call has returned.
\<close>

definition with_handle :: "env \<Rightarrow> addr \<Rightarrow> (var \<Rightarrow> world \<Rightarrow> world res) \<Rightarrow> world \<Rightarrow> world res" where
  "with_handle env a k w =
     rbind (handle_ref a w) (\<lambda>w.
     let (v, w) = var_new (Some (HandleO a)) w in
     rbind (k v w) (\<lambda>w. handle_var_dtor env v w))"

definition with_request :: "env \<Rightarrow> addr \<Rightarrow> (var \<Rightarrow> world \<Rightarrow> world res) \<Rightarrow> world \<Rightarrow> world res" where
  "with_request env a k w =
     rbind (request_ref a w) (\<lambda>w.
     let (v, w) = var_new (Some (RequestO a)) w in
     rbind (k v w) (\<lambda>w. request_var_dtor env v w))"

text \<open>\<open>buffer(_uv_buf, adopt_ref)\<close>: the parameter takes over a reference.\<close>

definition with_buffer :: "env \<Rightarrow> addr \<Rightarrow> (var \<Rightarrow> world \<Rightarrow> world res) \<Rightarrow> world \<Rightarrow> world res" where
  "with_buffer env b k w =
     (let (v, w) = var_new (Some (BufferO b)) w in
      rbind (k v w) (\<lambda>w. buffer_var_dtor env v w))"

section \<open>The contract of a client callback\<close>

text \<open>
  A callback may do anything that respects the counts, and come back with references
  outstanding that were not before, for instance those of requests it has started. The set \<open>K\<close>
  lists the debts a client's callbacks may leave; with \<open>K = {}\<close> they leave none. That an
  operation of the library ends with \<open>grown K E\<close>, for every \<open>K\<close>, therefore says that it gives back
  every reference it owned: what is outstanding at the end is \<open>E\<close> and debts of the client's
  callbacks. The parameters of a callback are still in scope, and of their class, when it returns.
\<close>

definition same_class :: "obj option \<Rightarrow> obj option \<Rightarrow> bool" where
  "same_class p q = (case (p, q) of
      (_, None) \<Rightarrow> True
    | (Some (LoopO a), Some (LoopO b)) \<Rightarrow> True
    | (Some (HandleO a), Some (HandleO b)) \<Rightarrow> True
    | (Some (BufferO a), Some (BufferO b)) \<Rightarrow> True
    | (Some (RequestO a), Some (RequestO b)) \<Rightarrow> True
    | _ \<Rightarrow> False)"

inductive_set debts :: "(obj \<Rightarrow> nat) set \<Rightarrow> (obj \<Rightarrow> nat) set" for K where
  debts_none: "(\<lambda>_. 0) \<in> debts K"
| debts_more: "d \<in> K \<Longrightarrow> e \<in> debts K \<Longrightarrow> (\<lambda>p. d p + e p) \<in> debts K"

definition above :: "(obj \<Rightarrow> nat) set \<Rightarrow> (obj \<Rightarrow> nat) \<Rightarrow> (obj \<Rightarrow> nat) \<Rightarrow> bool" where
  "above K E F \<longleftrightarrow> (\<exists>d \<in> debts K. F = (\<lambda>p. E p + d p))"

definition grown :: "(obj \<Rightarrow> nat) set \<Rightarrow> (obj \<Rightarrow> nat) \<Rightarrow> world \<Rightarrow> bool" where
  "grown K E w \<longleftrightarrow> (\<exists>F. above K E F \<and> winv F w)"

definition calls_ok :: "(obj \<Rightarrow> nat) set \<Rightarrow> env \<Rightarrow> bool" where
  "calls_ok K env \<longleftrightarrow> (\<forall>E w c vs args. winv E w \<and> (\<forall>v \<in> set vs. vars w v \<noteq> None) \<longrightarrow>
     ok (\<lambda>w'. grown K E w' \<and>
         (\<forall>v \<in> set vs. \<exists>p q. vars w v = Some p \<and> vars w' v = Some q \<and> same_class p q))
       (usr env c vs args w))"

text \<open>A buffer-allocation callback moreover returns a buffer, with a reference for the caller.\<close>

definition allocs_ok :: "(obj \<Rightarrow> nat) set \<Rightarrow> env \<Rightarrow> bool" where
  "allocs_ok K env \<longleftrightarrow> (\<forall>E w c v a n. winv E w \<and> vars w v = Some (Some (HandleO a)) \<longrightarrow>
     ok (\<lambda>(p, w'). \<exists>b E'. p = Some b \<and> above K E E' \<and> winv (inc (BufferO b) E') w' \<and>
         (\<exists>q. vars w' v = Some q \<and> same_class (Some (HandleO a)) q))
       (usr_alloc env c v n w))"

definition client_ok :: "(obj \<Rightarrow> nat) set \<Rightarrow> env \<Rightarrow> bool" where
  "client_ok K env \<longleftrightarrow> closes_loops env \<and> sinks_ok env \<and> calls_ok K env \<and> allocs_ok K env"

lemma client_ok_dest:
  "client_ok K env \<Longrightarrow> closes_loops env" "client_ok K env \<Longrightarrow> sinks_ok env"
  "client_ok K env \<Longrightarrow> calls_ok K env" "client_ok K env \<Longrightarrow> allocs_ok K env"
  by (simp_all add: client_ok_def)

lemma debts_add: "d \<in> debts K \<Longrightarrow> e \<in> debts K \<Longrightarrow> (\<lambda>p. d p + e p) \<in> debts K"
  by (induction rule: debts.induct) (auto simp: add.assoc intro: debts_more)

lemma debts_empty: "debts {} = {\<lambda>_. 0}"
  by (auto elim: debts.cases intro: debts_none)

lemma above_refl: "above K E E"
  unfolding above_def by (rule bexI [OF _ debts_none]) simp

lemma above_trans: "above K E F \<Longrightarrow> above K F G \<Longrightarrow> above K E G"
  unfolding above_def by (auto simp: add.assoc intro!: bexI [OF _ debts_add])

lemma above_le: "above K E F \<Longrightarrow> E p \<le> F p"
  by (auto simp: above_def)

text \<open>A client without debts leaves exactly what was outstanding.\<close>

lemma grown_exact: "grown {} E w \<longleftrightarrow> winv E w"
  by (auto simp: grown_def above_def debts_empty)

lemma grownI: "winv E w \<Longrightarrow> grown K E w"
  by (auto simp: grown_def intro: above_refl)

lemma grownI': "winv F w \<Longrightarrow> above K E F \<Longrightarrow> grown K E w"
  by (auto simp: grown_def)

lemma grown_trans: "grown K E w \<Longrightarrow> (\<And>F. above K E F \<Longrightarrow> winv F w \<Longrightarrow> grown K E w') \<Longrightarrow> grown K E w'"
  by (auto simp: grown_def)

lemma grown_mono: "grown K F w \<Longrightarrow> above K E F \<Longrightarrow> grown K E w"
  unfolding grown_def by (blast intro: above_trans)

lemma grown_weaken: "ok (\<lambda>w. winv F w \<and> P w) r \<Longrightarrow> above K E F \<Longrightarrow> ok (grown K E) r"
  by (cases r) (auto simp: grown_def)

text \<open>What has grown around a reference still contains it.\<close>

lemma above_inc:
  assumes "above K (inc p E) F'"
  obtains F where "F' = inc p F" "above K E F"
proof -
  from assms obtain d where "d \<in> debts K" "F' = (\<lambda>q. inc p E q + d q)" by (auto simp: above_def)
  then have "F' = inc p (\<lambda>q. E q + d q)" "above K E (\<lambda>q. E q + d q)"
    by (auto simp: inc_def above_def)
  then show thesis by (rule that)
qed

lemma grown_inc:
  assumes "grown K (inc p E) w"
  obtains F where "winv (inc p F) w" "above K E F"
  using assms above_inc unfolding grown_def by metis

lemma same_class_handle:
  "same_class (Some (HandleO a)) q \<Longrightarrow> handle_rc.fits q"
  by (cases q; cases "the q") (auto simp: same_class_def handle_rc.fits_def)

lemma same_class_request:
  "same_class (Some (RequestO a)) q \<Longrightarrow> request_rc.fits q"
  by (cases q; cases "the q") (auto simp: same_class_def request_rc.fits_def)

lemma same_class_buffer:
  "same_class (Some (BufferO b)) q \<Longrightarrow> buffer_rc.fits q"
  by (cases q; cases "the q") (auto simp: same_class_def buffer_rc.fits_def)

section \<open>Calls under the contract\<close>

text \<open>The variables \<open>us\<close> are still in scope, and of their class, after the call.\<close>

definition kept :: "var list \<Rightarrow> world \<Rightarrow> world \<Rightarrow> bool" where
  "kept us w w' \<longleftrightarrow> (\<forall>u \<in> set us. \<exists>p q. vars w u = Some p \<and> vars w' u = Some q \<and> same_class p q)"

lemma usr_grown:
  assumes "calls_ok K env" "winv E w" "\<forall>v \<in> set vs. vars w v \<noteq> None"
  shows "ok (\<lambda>w'. grown K E w' \<and> kept vs w w') (usr env c vs args w)"
  using assms unfolding calls_ok_def kept_def by blast

lemma with_handle_grown:
  assumes closes: "closes_loops env" and inv: "winv E w" and live: "live_refs w (HandleO a) \<noteq> None"
    and us: "\<forall>u \<in> set us. vars w u \<noteq> None"
    and k: "\<And>v w'. winv E w' \<Longrightarrow> vars w' = (vars w)(v \<mapsto> Some (HandleO a)) \<Longrightarrow> v \<notin> set us \<Longrightarrow>
      ok (\<lambda>w''. grown K E w'' \<and> kept (v # us) w' w'') (k v w')"
  shows "ok (\<lambda>w'. grown K E w' \<and> kept us w w') (with_handle env a k w)"
proof -
  from handle_ref_ok [OF inv live] obtain w1 where r1: "handle_ref a w = Inr w1"
    and w1: "winv (inc (HandleO a) E) w1" "vars w1 = vars w" by (auto simp: ok_iff)
  let ?v = "nxt w1" and ?w = "var_store (nxt w1) (Some (HandleO a)) w1"
  have w2: "winv E ?w" "vars ?w = (vars w)(?v \<mapsto> Some (HandleO a))"
    using winv_var_new [of "Some (HandleO a)" E w1] w1 by (simp_all add: store_simps)
  have "?v \<notin> set us" using fresh_var [OF w1(1)] w1(2) us by auto
  with k [OF w2] obtain w3 where r3: "k ?v ?w = Inr w3"
    and w3: "grown K E w3" "kept (?v # us) ?w w3" and v: "?v \<notin> set us" by (auto simp: ok_iff)
  from w3(1) obtain F where F: "winv F w3" "above K E F" by (auto simp: grown_def)
  from w3(2) obtain q where q: "vars w3 ?v = Some q" "same_class (Some (HandleO a)) q"
    by (auto simp: kept_def w2)
  from handle_rc.dtor_quiet [OF closes F(1) q(1) same_class_handle [OF q(2)]] obtain w4
    where r4: "handle_var_dtor env ?v w3 = Inr w4"
    and w4: "winv F w4" "vars w4 = (vars w3)(?v := None)"
    by (auto simp: ok_iff handle_var_dtor_def)
  have "grown K E w4" using w4(1) F(2) by (auto simp: grown_def)
  moreover have "kept us w w4" using w3(2) v w4(2) w2(2) by (auto simp: kept_def split: if_splits)
  ultimately show ?thesis
    by (simp add: with_handle_def r1 var_new_store r3 r4)
qed

lemma with_request_grown:
  assumes inv: "winv E w" and live: "live_refs w (RequestO a) \<noteq> None"
    and us: "\<forall>u \<in> set us. vars w u \<noteq> None"
    and k: "\<And>v w'. winv E w' \<Longrightarrow> vars w' = (vars w)(v \<mapsto> Some (RequestO a)) \<Longrightarrow> v \<notin> set us \<Longrightarrow>
      ok (\<lambda>w''. grown K E w'' \<and> kept (v # us) w' w'') (k v w')"
  shows "ok (\<lambda>w'. grown K E w' \<and> kept us w w') (with_request env a k w)"
proof -
  from request_ref_ok [OF inv live] obtain w1 where r1: "request_ref a w = Inr w1"
    and w1: "winv (inc (RequestO a) E) w1" "vars w1 = vars w" by (auto simp: ok_iff)
  let ?v = "nxt w1" and ?w = "var_store (nxt w1) (Some (RequestO a)) w1"
  have w2: "winv E ?w" "vars ?w = (vars w)(?v \<mapsto> Some (RequestO a))"
    using winv_var_new [of "Some (RequestO a)" E w1] w1 by (simp_all add: store_simps)
  have "?v \<notin> set us" using fresh_var [OF w1(1)] w1(2) us by auto
  with k [OF w2] obtain w3 where r3: "k ?v ?w = Inr w3"
    and w3: "grown K E w3" "kept (?v # us) ?w w3" and v: "?v \<notin> set us" by (auto simp: ok_iff)
  from w3(1) obtain F where F: "winv F w3" "above K E F" by (auto simp: grown_def)
  from w3(2) obtain q where q: "vars w3 ?v = Some q" "same_class (Some (RequestO a)) q"
    by (auto simp: kept_def w2)
  from request_rc.dtor_quiet [OF TrueI F(1) q(1) same_class_request [OF q(2)], of env] obtain w4
    where r4: "request_var_dtor env ?v w3 = Inr w4"
    and w4: "winv F w4" "vars w4 = (vars w3)(?v := None)"
    by (auto simp: ok_iff request_var_dtor_def)
  have "grown K E w4" using w4(1) F(2) by (auto simp: grown_def)
  moreover have "kept us w w4" using w3(2) v w4(2) w2(2) by (auto simp: kept_def split: if_splits)
  ultimately show ?thesis
    by (simp add: with_request_def r1 var_new_store r3 r4)
qed

lemma with_buffer_grown:
  assumes sinks: "sinks_ok env" and inv: "winv (inc (BufferO b) E) w"
    and k: "\<And>v w'. winv E w' \<Longrightarrow> vars w' = (vars w)(v \<mapsto> Some (BufferO b)) \<Longrightarrow>
      live_refs w' = live_refs w \<Longrightarrow> ok (\<lambda>w''. grown K E w'' \<and> kept [v] w' w'') (k v w')"
  shows "ok (grown K E) (with_buffer env b k w)"
proof -
  let ?v = "nxt w" and ?w = "var_store (nxt w) (Some (BufferO b)) w"
  have w2: "winv E ?w" "vars ?w = (vars w)(?v \<mapsto> Some (BufferO b))"
    using winv_var_new [of "Some (BufferO b)" E w] inv by (simp_all add: store_simps)
  have lr: "live_refs ?w = live_refs w" by (rule live_refs_cong) (simp_all add: store_simps)
  from k [OF w2 lr] obtain w3 where r3: "k ?v ?w = Inr w3"
    and w3: "grown K E w3" "kept [?v] ?w w3" by (auto simp: ok_iff)
  from w3(1) obtain F where F: "winv F w3" "above K E F" by (auto simp: grown_def)
  from w3(2) obtain q where q: "vars w3 ?v = Some q" "same_class (Some (BufferO b)) q"
    by (auto simp: kept_def w2)
  from buffer_rc.dtor_ok [OF sinks F(1) q(1) same_class_buffer [OF q(2)]] obtain w4
    where r4: "buffer_var_dtor env ?v w3 = Inr w4" and "winv F w4"
    by (auto simp: ok_iff buffer_var_dtor_def)
  with F(2) have "grown K E w4" by (auto simp: grown_def)
  then show ?thesis by (simp add: with_buffer_def var_new_store r3 r4)
qed

lemma call_handle_grown:
  assumes "client_ok K env" "winv E w" "live_refs w (HandleO a) \<noteq> None"
    "\<forall>u \<in> set us. vars w u \<noteq> None"
  shows "ok (\<lambda>w'. grown K E w' \<and> kept us w w') (with_handle env a (\<lambda>v. usr env c (v # us) args) w)"
  by (rule with_handle_grown [OF client_ok_dest(1) [OF assms(1)] assms(2-4)])
    (use assms in \<open>auto intro!: usr_grown client_ok_dest(3)\<close>)

lemma call_request_grown:
  assumes "client_ok K env" "winv E w" "live_refs w (RequestO a) \<noteq> None"
    "\<forall>u \<in> set us. vars w u \<noteq> None"
  shows "ok (\<lambda>w'. grown K E w' \<and> kept us w w') (with_request env a (\<lambda>v. usr env c (v # us) args) w)"
  by (rule with_request_grown [OF assms(2-4)])
    (use assms in \<open>auto intro!: usr_grown client_ok_dest(3)\<close>)

text \<open>A callback that is handed a buffer uses up the reference that goes with it.\<close>

lemma call_handle_buffer_grown:
  assumes "client_ok K env" "winv (inc (BufferO b) E) w" "live_refs w (HandleO a) \<noteq> None"
  shows "ok (grown K E)
    (with_buffer env b (\<lambda>u. with_handle env a (\<lambda>v. usr env c [v, u] args)) w)"
  by (rule with_buffer_grown [OF client_ok_dest(2) [OF assms(1)] assms(2)])
    (use assms in \<open>auto intro!: call_handle_grown [of K env _ _ a "[_]", simplified]\<close>)

lemma call_request_buffer_grown:
  assumes "client_ok K env" "winv (inc (BufferO b) E) w" "live_refs w (RequestO a) \<noteq> None"
  shows "ok (grown K E)
    (with_buffer env b (\<lambda>u. with_request env a (\<lambda>v. usr env c [v, u] args)) w)"
  by (rule with_buffer_grown [OF client_ok_dest(2) [OF assms(1)] assms(2)])
    (use assms in \<open>auto intro!: call_request_grown [of K env _ _ a "[_]", simplified]\<close>)

section \<open>What the client is called with\<close>

text \<open>
  The exact course of a handler from the state \<open>w\<close> to the state \<open>w'\<close>: the instance has become \<open>j\<close>
  when the client's callback, if there is one, is called with \<open>args\<close> and a copy of the handle in a
  fresh variable, which counts; when it returns the variable is destroyed, wherever it refers to
  then, and \<open>after\<close> is what is left for the handler to do.
\<close>

definition gives_copy ::
  "env \<Rightarrow> cb option \<Rightarrow> addr \<Rightarrow> arg list \<Rightarrow> handle_instance \<Rightarrow> (world \<Rightarrow> world res) \<Rightarrow> world \<Rightarrow> world \<Rightarrow> bool" where
  "gives_copy env cb a args j after w w' \<longleftrightarrow> (case cb of
       None \<Rightarrow> after (handle_put a j w) = Inr w'
     | Some c \<Rightarrow> \<exists>v u u'. vars w v = None \<and>
         usr env c [v] args (var_store v (Some (HandleO a)) (handle_put a (j\<lparr>h_refs := h_refs j + 1\<rparr>) w)) = Inr u \<and>
         handle_var_dtor env v u = Inr u' \<and> after u' = Inr w')"

definition gives_request ::
  "env \<Rightarrow> cb option \<Rightarrow> addr \<Rightarrow> req_instance \<Rightarrow> (world \<Rightarrow> world res) \<Rightarrow> world \<Rightarrow> world \<Rightarrow> bool" where
  "gives_request env cb a j after w w' \<longleftrightarrow> (case cb of
       None \<Rightarrow> after (request_put a j w) = Inr w'
     | Some c \<Rightarrow> \<exists>v u u'. vars w v = None \<and>
         usr env c [v] [] (var_store v (Some (RequestO a)) (request_put a (j\<lparr>r_refs := r_refs j + 1\<rparr>) w)) = Inr u \<and>
         request_var_dtor env v u = Inr u' \<and> after u' = Inr w')"

lemma with_handle_course:
  assumes "winv E w" "0 < h_refs j" "with_handle env a k (handle_put a j w) = Inr w'"
  obtains v u where "vars w v = None"
    "k v (var_store v (Some (HandleO a)) (handle_put a (j\<lparr>h_refs := h_refs j + 1\<rparr>) w)) = Inr u"
    "handle_var_dtor env v u = Inr w'"
proof -
  have "handle_put a i (handle_put a j w) = handle_put a i w" for i by (simp add: handle_put_def)
  with assms(2) have "handle_ref a (handle_put a j w) = Inr (handle_put a (j\<lparr>h_refs := h_refs j + 1\<rparr>) w)"
    by (simp add: handle_ref_def store_simps)
  with assms(3) that [of "nxt w"] fresh_var [OF assms(1)] show thesis
    by (auto simp: with_handle_def var_new_store store_simps rbind_eq_Inr)
qed

lemma with_request_course:
  assumes "winv E w" "0 < r_refs j" "with_request env a k (request_put a j w) = Inr w'"
  obtains v u where "vars w v = None"
    "k v (var_store v (Some (RequestO a)) (request_put a (j\<lparr>r_refs := r_refs j + 1\<rparr>) w)) = Inr u"
    "request_var_dtor env v u = Inr w'"
proof -
  have "request_put a i (request_put a j w) = request_put a i w" for i by (simp add: request_put_def)
  with assms(2) have "request_ref a (request_put a j w) = Inr (request_put a (j\<lparr>r_refs := r_refs j + 1\<rparr>) w)"
    by (simp add: request_ref_def store_simps)
  with assms(3) that [of "nxt w"] fresh_var [OF assms(1)] show thesis
    by (auto simp: with_request_def var_new_store store_simps rbind_eq_Inr)
qed

lemma gives_copyI:
  assumes "winv E w" "0 < h_refs j" "after u = Inr w'"
    "(case cb of None \<Rightarrow> Inr (handle_put a j w)
      | Some c \<Rightarrow> with_handle env a (\<lambda>v. usr env c [v] args) (handle_put a j w)) = Inr u"
  shows "gives_copy env cb a args j after w w'"
proof (cases cb)
  case None
  with assms(3,4) show ?thesis by (simp add: gives_copy_def)
next
  case (Some c)
  with assms(4) have "with_handle env a (\<lambda>v. usr env c [v] args) (handle_put a j w) = Inr u" by simp
  from this assms(3) show ?thesis
    unfolding gives_copy_def Some option.case by (blast elim: with_handle_course [OF assms(1,2)])
qed

lemma gives_requestI:
  assumes "winv E w" "0 < r_refs j" "after u = Inr w'"
    "(case cb of None \<Rightarrow> Inr (request_put a j w)
      | Some c \<Rightarrow> with_request env a (\<lambda>v. usr env c [v] []) (request_put a j w)) = Inr u"
  shows "gives_request env cb a j after w w'"
proof (cases cb)
  case None
  with assms(3,4) show ?thesis by (simp add: gives_request_def)
next
  case (Some c)
  with assms(4) have "with_request env a (\<lambda>v. usr env c [v] []) (request_put a j w) = Inr u" by simp
  from this assms(3) show ?thesis
    unfolding gives_request_def Some option.case by (blast elim: with_request_course [OF assms(1,2)])
qed

section \<open>An environment that meets the contracts\<close>

text \<open>
  Every libuv call succeeds, and one that is given a loop after the handle enters it into the
  handle, as the initialisation functions do, or a handle after the request into the request; callbacks do nothing, and allocation callbacks
  return a new buffer of the size suggested. The witnesses are stated for it.
\<close>

definition quiet_env :: env where
  "quiet_env = \<lparr>uv_ret = (\<lambda>_ _. 0),
     uv_eff = (\<lambda>_ e s. case e of Call f (_ # Ptr l # _) \<Rightarrow> s\<lparr>u_loop := l\<rparr> | _ \<Rightarrow> s),
     uv_req_eff = (\<lambda>_ e s. case e of
         Call f (_ # Ptr h # _ # _ # Ptr h' # _) \<Rightarrow> s\<lparr>q_handle := h, q_send_handle := h'\<rparr>
       | Call f (_ # Ptr h # _) \<Rightarrow> s\<lparr>q_handle := h\<rparr> | _ \<Rightarrow> s),
     uv_out = (\<lambda>_ _. 0), usr = (\<lambda>c vs args w. Inr w),
     usr_alloc = (\<lambda>c v n w. let (b, w) = buffer_create [n] w in Inr (Some b, w)),
     uv_walked = (\<lambda>_ _. []), dispatch = (\<lambda>_ _ w. Inr w), unwinding = False, run_fuel = 0\<rparr>"

lemma same_class_refl: "same_class p p"
  by (cases p; cases "the p") (auto simp: same_class_def)

lemma closes_loops_quiet: "closes_loops quiet_env"
  by (auto simp: closes_loops_def loop_dtor_def uv_def quiet_env_def loop_set_error_def loop_at_def
      emit_def)

lemma sinks_ok_quiet: "sinks_ok quiet_env"
  by (simp add: sinks_ok_def quiet_env_def)

lemma calls_ok_quiet: "calls_ok K quiet_env"
  by (auto simp: calls_ok_def quiet_env_def same_class_refl intro: grownI)

lemma allocs_ok_quiet: "allocs_ok K quiet_env"
  unfolding allocs_ok_def
proof (intro allI impI)
  fix E w c v a n
  assume pre: "winv E w \<and> vars w v = Some (Some (HandleO a))"
  obtain b w' where create: "buffer_create [n] w = (b, w')" by force
  have "vars w' = vars w" using create by (auto simp: buffer_create_def)
  moreover have "winv (inc (BufferO b) E) w'" by (rule buffer_create_ok [OF _ create]) (use pre in simp)
  ultimately show "ok (\<lambda>(p, w'). \<exists>b E'. p = Some b \<and> above K E E' \<and>
      winv (inc (BufferO b) E') w' \<and> (\<exists>q. vars w' v = Some q \<and> same_class (Some (HandleO a)) q))
      (usr_alloc quiet_env c v n w)"
    using pre create by (auto simp: quiet_env_def same_class_refl intro!: exI [of _ E] above_refl)
qed

lemma client_ok_quiet: "client_ok K quiet_env"
  by (simp add: client_ok_def closes_loops_quiet sinks_ok_quiet calls_ok_quiet allocs_ok_quiet)

end
