(* ===== verification/Uvcc_Ctor.thy ===== *)
theory Uvcc_Ctor
  imports Uvcc_Callback
begin

text \<open>
  What the constructors of the concrete handle classes have in common: they create an instance,
  let libuv initialise the handle structure for a loop, record the status, and book the loop
  unless libuv has failed.
\<close>

section \<open>Creating a handle on a loop\<close>

definition construct ::
  "env \<Rightarrow> iface \<Rightarrow> string \<Rightarrow> addr option \<Rightarrow> arg list \<Rightarrow> world \<Rightarrow> (addr \<times> world) res" where
  "construct env f init l args w =
     (let (a, w) = handle_create f w in
      rbind (uv_on_handle env init a (Ptr l # args) w) (\<lambda>(uv_ret, w).
      rbind (handle_set_status a uv_ret w) (\<lambda>w.
      if uv_ret < 0 then Inr (a, w)
      else rbind (book_loop env a w) (\<lambda>w. Inr (a, w)))))"

text \<open>
  What libuv documents of an initialisation function: on success the loop of the structure is the
  one given.
\<close>

definition inits :: "env \<Rightarrow> string \<Rightarrow> bool" where
  "inits env init \<longleftrightarrow> (\<forall>tr a l args s. 0 \<le> uv_ret env tr (Call init (Ptr (Some a) # Ptr (Some l) # args)) \<longrightarrow>
     u_loop (uv_eff env tr (Call init (Ptr (Some a) # Ptr (Some l) # args)) s) = Some l)"

text \<open>
  The initialisation functions the constructors call, with the interface of the handles they are for.
  The hypothesis is about these functions only.
\<close>

definition loop_inits :: "(iface \<times> string) list" where
  "loop_inits =
     [(If_handle, ''uv_async_init''), (If_handle, ''uv_check_init''), (If_handle, ''uv_idle_init''),
      (If_handle, ''uv_poll_init''), (If_handle, ''uv_prepare_init''), (If_stream, ''uv_tcp_init''),
      (If_stream, ''uv_tcp_init_ex''), (If_stream, ''uv_pipe_init''), (If_stream, ''uv_tty_init''),
      (If_udp, ''uv_udp_init''), (If_udp, ''uv_udp_init_ex'')]"

definition library_inits :: "env \<Rightarrow> bool" where
  "library_inits env \<longleftrightarrow> (\<forall>(f, init) \<in> set loop_inits. inits env init)"

lemma library_initsD: "library_inits env \<Longrightarrow> (f, init) \<in> set loop_inits \<Longrightarrow> inits env init"
  by (auto simp: library_inits_def)

lemma library_inits_calls:
  assumes "library_inits env"
  shows "inits env ''uv_tcp_init''" "inits env ''uv_tcp_init_ex''" "inits env ''uv_pipe_init''"
    "inits env ''uv_tty_init''" "inits env ''uv_udp_init''" "inits env ''uv_udp_init_ex''"
  using assms by (simp_all add: library_inits_def loop_inits_def)

lemma inits_quiet: "inits quiet_env init"
  by (simp add: inits_def quiet_env_def)

lemma library_inits_quiet: "library_inits quiet_env"
  by (simp add: library_inits_def inits_quiet split_def)

lemma handle_put_twice [simp]: "handle_put a j (handle_put a i w) = handle_put a j w"
  by (simp add: handle_put_def)

lemma winv_emit_put:
  assumes "winv E w" "handles w a = Some i" "h_refs j = h_refs i" "h_loop j = h_loop i" "owes j = owes i"
  shows "winv E (emit e (handle_put a j w))"
  using winv_handle_put [OF assms] by simp

lemma handle_set_status_eq:
  "handles w a = Some i \<Longrightarrow> handle_set_status a r w = Inr (handle_put a (i\<lparr>h_uv_error := r\<rparr>) w)"
  by (simp add: handle_set_status_def)

lemma uv_on_handle_eq:
  "handles w a = Some i \<Longrightarrow> uv_on_handle env f a args w =
     Inr (uv_ret env (trace w) (Call f (Ptr (Some a) # args)), emit (Call f (Ptr (Some a) # args))
       (handle_put a (i\<lparr>h_uv := uv_eff env (trace w) (Call f (Ptr (Some a) # args)) (h_uv i)\<rparr>) w))"
  by (simp add: uv_on_handle_def Let_def)

lemma winv_handle_set_status:
  assumes "winv E w" "handles w a = Some i"
  shows "ok (\<lambda>w'. winv E w' \<and> vars w' = vars w \<and> loops w' = loops w \<and>
    handles w' = (handles w)(a \<mapsto> i\<lparr>h_uv_error := r\<rparr>)) (handle_set_status a r w)"
  using winv_handle_put [OF assms, of "i\<lparr>h_uv_error := r\<rparr>"] assms(2)
  by (simp add: handle_set_status_eq store_simps)

lemma winv_uv_on_handle:
  assumes "winv E w" "handles w a = Some i"
  shows "ok (\<lambda>(r, w'). winv E w' \<and> vars w' = vars w \<and> loops w' = loops w \<and>
    r = uv_ret env (trace w) (Call f (Ptr (Some a) # args)) \<and>
    handles w' = (handles w)(a \<mapsto> i\<lparr>h_uv := uv_eff env (trace w) (Call f (Ptr (Some a) # args)) (h_uv i)\<rparr>))
    (uv_on_handle env f a args w)"
  using winv_emit_put [OF assms, of "i\<lparr>h_uv := uv_eff env (trace w) (Call f (Ptr (Some a) # args)) (h_uv i)\<rparr>"]
    assms(2)
  by (simp add: uv_on_handle_eq store_simps)

text \<open>
  The new handle is one reference for the constructor's caller; it has booked its loop exactly
  when libuv has accepted it.
\<close>

lemma construct_ok:
  assumes "inits env init" "winv E w" "loops w l \<noteq> None"
  shows "ok (\<lambda>(a, w'). winv (inc (HandleO a) E) w' \<and> vars w' = vars w \<and> handles w a = None \<and>
      (\<forall>b. b \<noteq> a \<longrightarrow> handles w' b = handles w b) \<and>
      (\<exists>i. handles w' a = Some i \<and> h_iface i = f \<and> h_refs i = 1 \<and> h_io i = io_properties_init \<and>
        h_watch i = watch_properties_init \<and> h_file i = file_properties_init \<and>
        h_uv_error i = uv_ret env (trace w) (Call init (Ptr (Some a) # Ptr (Some l) # args)) \<and>
        h_loop i = (if h_uv_error i < 0 then None else Some l)))
    (construct env f init (Some l) args w)"
proof -
  obtain a w1 where create: "handle_create f w = (a, w1)" by force
  note w1 = handle_create_ok [OF assms(2) create]
  let ?e = "Call init (Ptr (Some a) # Ptr (Some l) # args)"
  from winv_uv_on_handle [OF w1(1,2), of env init "Ptr (Some l) # args"] obtain r w2 i2
    where r2: "uv_on_handle env init a (Ptr (Some l) # args) w1 = Inr (r, w2)"
    and w2: "winv (inc (HandleO a) E) w2" "vars w2 = vars w" "loops w2 = loops w"
    and r: "r = uv_ret env (trace w) ?e"
    and i2: "i2 = (handle_init f)\<lparr>h_uv := uv_eff env (trace w) ?e (h_uv (handle_init f))\<rparr>"
      "handles w2 a = Some i2" and f2: "\<forall>b. b \<noteq> a \<longrightarrow> handles w2 b = handles w b"
    using w1 by (auto simp: ok_iff)
  from winv_handle_set_status [OF w2(1) i2(2), of r] obtain w3
    where r3: "handle_set_status a r w2 = Inr w3"
    and w3: "winv (inc (HandleO a) E) w3" "vars w3 = vars w" "loops w3 = loops w"
      "handles w3 a = Some (i2\<lparr>h_uv_error := r\<rparr>)" "\<forall>b. b \<noteq> a \<longrightarrow> handles w3 b = handles w b"
    using w2 f2 by (auto simp: ok_iff)
  show ?thesis
  proof (cases "r < 0")
    case True
    then show ?thesis
      using r3 w3 w1(3) r by (simp add: construct_def create r2 i2(1) handle_init_def)
  next
    case False
    have l: "u_loop (h_uv (i2\<lparr>h_uv_error := r\<rparr>)) = Some l"
      using assms(1) False r by (simp add: inits_def i2(1) del: handle_instance.update_convs(1))
    from assms(3) w3(3) obtain li where li: "loops w3 l = Some li" by auto
    have none: "h_loop (i2\<lparr>h_uv_error := r\<rparr>) = None" by (simp add: i2(1) handle_init_def)
    from book_loop_ok [where env = env, OF w3(1,4) none l li] obtain w4 where r4: "book_loop env a w3 = Inr w4"
      and w4: "winv (inc (HandleO a) E) w4" "vars w4 = vars w"
        "handles w4 a = Some (i2\<lparr>h_uv_error := r, h_loop := Some l\<rparr>)"
        "\<forall>b. b \<noteq> a \<longrightarrow> handles w4 b = handles w b"
      using w3 by (auto simp: ok_iff)
    then show ?thesis
      using False r3 w1(3) r by (simp add: construct_def create r2 i2(1) handle_init_def)
  qed
qed

end
