(* ===== verification/Uvcc_Io.thy ===== *)
theory Uvcc_Io
  imports Uvcc_Ctor
begin

text \<open>
  \<^verbatim>\<open>handle-io.hpp\<close> and the \<open>file\<close> class of \<^verbatim>\<open>handle-fs.hpp\<close>: reading from an I/O endpoint. The
  commands \<open>read_start\<close>, \<open>read_stop\<close>, \<open>read_pause\<close> and \<open>read_resume\<close> run under a spinlock and
  keep a reference to the handle while it is being read from; the handlers allocate a buffer
  and deliver it to the client. For a file the library drives the reading itself.
\<close>

section \<open>Access to the properties\<close>

definition io_mod :: "addr \<Rightarrow> (io_properties \<Rightarrow> io_properties) \<Rightarrow> world \<Rightarrow> world res" where
  "io_mod a f w = handle_mod a (\<lambda>i. i\<lparr>h_io := f (h_io i)\<rparr>) w"

definition file_mod :: "addr \<Rightarrow> (file_properties \<Rightarrow> file_properties) \<Rightarrow> world \<Rightarrow> world res" where
  "file_mod a f w = handle_mod a (\<lambda>i. i\<lparr>h_file := f (h_file i)\<rparr>) w"

text \<open>The lock of the instance, held by this thread or free: locking it twice spins forever.\<close>

definition rdstate_lock :: "addr \<Rightarrow> world \<Rightarrow> world res" where
  "rdstate_lock a w =
     rbind (handle_at a w) (\<lambda>i.
     if rdstate_switch (h_io i) then Inl Deadlock
     else io_mod a (\<lambda>p. p\<lparr>rdstate_switch := True\<rparr>) w)"

definition rdstate_unlock :: "addr \<Rightarrow> world \<Rightarrow> world res" where
  "rdstate_unlock a w = io_mod a (\<lambda>p. p\<lparr>rdstate_switch := False\<rparr>) w"

definition locked :: "addr \<Rightarrow> (world \<Rightarrow> (int \<times> world) res) \<Rightarrow> world \<Rightarrow> (int \<times> world) res" where
  "locked a body w =
     rbind (rdstate_lock a w) (\<lambda>w.
     rbind (body w) (\<lambda>(r, w).
     rbind (rdstate_unlock a w) (\<lambda>w. Inr (r, w))))"

definition handle_return_status :: "addr \<Rightarrow> int \<times> world \<Rightarrow> (int \<times> world) res" where
  "handle_return_status a = (\<lambda>(r, w).
     rbind (handle_set_status a r w) (\<lambda>w. Inr (r, w)))"

section \<open>Buffers for input\<close>

text \<open>
  \<open>io_alloc_cb()\<close>. The result is what is stored in \<open>_uv_buf->base\<close>: the buffer, or \<open>None\<close> when
  its \<open>.base\<close> is null. The temporary returned by the client's callback is released at the end.
\<close>

definition io_alloc_cb :: "env \<Rightarrow> addr \<Rightarrow> 64 word \<Rightarrow> world \<Rightarrow> (addr option \<times> world) res" where
  "io_alloc_cb env a suggested_size w =
     rbind (handle_at a w) (\<lambda>i.
     case alloc_cb (h_io i) of
         None \<Rightarrow> Inl Bad_function_call
       | Some c \<Rightarrow>
           rbind (handle_ref a w) (\<lambda>w.
           let (v, w) = var_new (Some (HandleO a)) w;
               sz = (if rdsize (h_io i) \<noteq> 0 then rdsize (h_io i) else suggested_size) in
           rbind (usr_alloc env c v sz w) (\<lambda>(p, w).
           rbind (handle_var_dtor env v w) (\<lambda>w.
           rbind (deref p) (\<lambda>b.
           rbind (buffer_ref b w) (\<lambda>w.
           rbind (buffer_bool b w) (\<lambda>nonnull.
           rbind (buffer_unref env b w) (\<lambda>w.
           Inr (if nonnull then Some b else None, w)))))))))"

text \<open>
  \<open>io_read_cb()\<close>. The buffer is found from \<open>_uv_buf->base\<close>; a null \<open>.base\<close> is passed on as a new
  null-initialised buffer. \<open>info\<close> stands for the pointer with the supplemental data.
\<close>

definition io_read_cb :: "env \<Rightarrow> addr \<Rightarrow> int \<Rightarrow> addr option \<Rightarrow> arg list \<Rightarrow> world \<Rightarrow> world res" where
  "io_read_cb env a nread base info w =
     rbind (handle_mod a (\<lambda>i. i\<lparr>h_uv_error := c_int nread\<rparr>) w) (\<lambda>w.
     rbind (handle_at a w) (\<lambda>i.
     rbind (case base of
              Some b0 \<Rightarrow> rbind (buffer_from_base b0 w) (\<lambda>b. Inr (b, w))
            | None \<Rightarrow> Inr (buffer_create [] w)) (\<lambda>(b, w).
     rbind (with_buffer env b (\<lambda>u. with_handle env a (\<lambda>v w.
              case read_cb (h_io i) of
                  None \<Rightarrow> Inl Bad_function_call
                | Some c \<Rightarrow> usr env c [v, u] ([Num nread, Num (rdoffset (h_io i))] @ info) w)) w) (\<lambda>w.
     if 0 < nread then io_mod a (\<lambda>p. p\<lparr>rdoffset := rdoffset p + nread\<rparr>) w else Inr w))))"

section \<open>The endpoint's interface\<close>

text \<open>A file reads with a request of its own, into a buffer obtained beforehand.\<close>

definition file_read :: "env \<Rightarrow> addr \<Rightarrow> world \<Rightarrow> (int \<times> world) res" where
  "file_read env a w =
     rbind (io_alloc_cb env a 65536 w) (\<lambda>(base, w).
     rbind (file_mod a (\<lambda>p. p\<lparr>rd_base := base\<rparr>) w) (\<lambda>w.
     rbind (handle_at a w) (\<lambda>i.
     Inr (uv env ''uv_fs_read''
       [Ptr (u_loop (h_uv i)), Ptr (Some a), Num (c_int (u_result (h_uv i))), Ptr base,
        Num (rdoffset (h_io i)), Callback True] w))))"

definition file_read_start :: "env \<Rightarrow> addr \<Rightarrow> int \<Rightarrow> world \<Rightarrow> (int \<times> world) res" where
  "file_read_start env a offset w =
     rbind (handle_at a w) (\<lambda>i.
     let (offset, w) = (if offset < 0
           then uv env ''lseek64'' [Num (c_int (u_result (h_uv i))), Num 0, Num 1] w
           else (offset, w)) in
     rbind (io_mod a (\<lambda>p. p\<lparr>rdoffset := offset\<rparr>) w) (\<lambda>w.
     file_read env a w))"

definition stream_read_start :: "env \<Rightarrow> addr \<Rightarrow> int \<Rightarrow> world \<Rightarrow> (int \<times> world) res" where
  "stream_read_start env a offset w =
     rbind (if 0 \<le> offset then io_mod a (\<lambda>p. p\<lparr>rdoffset := offset\<rparr>) w else Inr w) (\<lambda>w.
     uv_on_handle env ''uv_read_start'' a [Callback True, Callback True] w)"

definition udp_read_start :: "env \<Rightarrow> addr \<Rightarrow> int \<Rightarrow> world \<Rightarrow> (int \<times> world) res" where
  "udp_read_start env a offset w =
     rbind (if 0 \<le> offset then io_mod a (\<lambda>p. p\<lparr>rdoffset := offset\<rparr>) w else Inr w) (\<lambda>w.
     uv_on_handle env ''uv_udp_recv_start'' a [Callback True, Callback True] w)"

text \<open>The virtual calls \<open>read_start\<close>, \<open>read_stop\<close> and \<open>write_queue_size\<close>.\<close>

definition iface_read_start :: "env \<Rightarrow> addr \<Rightarrow> int \<Rightarrow> world \<Rightarrow> (int \<times> world) res" where
  "iface_read_start env a offset w =
     rbind (handle_at a w) (\<lambda>i.
     case h_iface i of
         If_handle \<Rightarrow> Inl Bad_cast
       | If_stream \<Rightarrow> stream_read_start env a offset w
       | If_udp \<Rightarrow> udp_read_start env a offset w
       | If_file \<Rightarrow> file_read_start env a offset w)"

definition iface_read_stop :: "env \<Rightarrow> addr \<Rightarrow> world \<Rightarrow> (int \<times> world) res" where
  "iface_read_stop env a w =
     rbind (handle_at a w) (\<lambda>i.
     case h_iface i of
         If_handle \<Rightarrow> Inl Bad_cast
       | If_stream \<Rightarrow> uv_on_handle env ''uv_read_stop'' a [] w
       | If_udp \<Rightarrow> uv_on_handle env ''uv_udp_recv_stop'' a [] w
       | If_file \<Rightarrow> Inr (0, w))"

definition io_write_queue_size :: "addr \<Rightarrow> world \<Rightarrow> 64 word res" where
  "io_write_queue_size a w =
     rbind (handle_at a w) (\<lambda>i.
     case h_iface i of
         If_handle \<Rightarrow> Inl Bad_cast
       | If_stream \<Rightarrow> Inr (u_queue_size (h_uv i))
       | If_udp \<Rightarrow> Inr (u_queue_size (h_uv i))
       | If_file \<Rightarrow> Inr (write_queue_size (h_file i)))"

section \<open>The reading commands\<close>

definition read_start_body :: "env \<Rightarrow> addr \<Rightarrow> 64 word \<Rightarrow> int \<Rightarrow> world \<Rightarrow> (int \<times> world) res" where
  "read_start_body env a sz offset w =
     rbind (handle_at a w) (\<lambda>i.
     if alloc_cb (h_io i) = None \<or> read_cb (h_io i) = None then
       handle_return_status a (UV_EINVAL, w)
     else
       (let rdcmd_state0 = rdcmd_state (h_io i) in
        rbind (io_mod a (\<lambda>p. p\<lparr>rdcmd_state := Rd_START\<rparr>) w) (\<lambda>w.
        rbind (handle_ref a w) (\<lambda>w.
        rbind (case rdcmd_state0 of
                 Rd_UNKNOWN \<Rightarrow> Inr w
               | Rd_STOP \<Rightarrow> Inr w
               | Rd_PAUSE \<Rightarrow> Inr w
               | _ \<Rightarrow>
                   rbind (iface_read_stop env a w) (\<lambda>(r, w).
                   rbind (handle_set_status a r w) (\<lambda>w.
                   handle_unref env a w))) (\<lambda>w.
        rbind (io_mod a (\<lambda>p. p\<lparr>rdsize := sz\<rparr>) w) (\<lambda>w.
        rbind (handle_set_status a 0 w) (\<lambda>w.
        rbind (iface_read_start env a offset w) (\<lambda>(uv_ret, w).
        if uv_ret < 0 then
          rbind (handle_set_status a uv_ret w) (\<lambda>w.
          rbind (io_mod a (\<lambda>p. p\<lparr>rdcmd_state := Rd_UNKNOWN\<rparr>) w) (\<lambda>w.
          rbind (handle_unref env a w) (\<lambda>w.
          Inr (uv_ret, w))))
        else Inr (uv_ret, w)))))))))"

definition read_start :: "env \<Rightarrow> addr \<Rightarrow> 64 word \<Rightarrow> int \<Rightarrow> world \<Rightarrow> (int \<times> world) res" where
  "read_start env a sz offset w = locked a (read_start_body env a sz offset) w"

definition read_start_with ::
  "env \<Rightarrow> addr \<Rightarrow> cb option \<Rightarrow> cb option \<Rightarrow> 64 word \<Rightarrow> int \<Rightarrow> world \<Rightarrow> (int \<times> world) res" where
  "read_start_with env a alloc read sz offset w =
     rbind (io_mod a (\<lambda>p. p\<lparr>alloc_cb := alloc, read_cb := read\<rparr>) w) (\<lambda>w.
     read_start env a sz offset w)"

definition read_stop_body :: "env \<Rightarrow> addr \<Rightarrow> world \<Rightarrow> (int \<times> world) res" where
  "read_stop_body env a w =
     rbind (handle_at a w) (\<lambda>i.
     let rdcmd_state0 = rdcmd_state (h_io i) in
     rbind (io_mod a (\<lambda>p. p\<lparr>rdcmd_state := Rd_STOP\<rparr>) w) (\<lambda>w.
     rbind (iface_read_stop env a w) (\<lambda>(uv_ret, w).
     rbind (handle_set_status a uv_ret w) (\<lambda>w.
     rbind (case rdcmd_state0 of
              Rd_UNKNOWN \<Rightarrow> Inr w
            | Rd_STOP \<Rightarrow> Inr w
            | Rd_PAUSE \<Rightarrow> Inr w
            | _ \<Rightarrow> handle_unref env a w) (\<lambda>w.
     Inr (uv_ret, w))))))"

definition read_stop :: "env \<Rightarrow> addr \<Rightarrow> world \<Rightarrow> (int \<times> world) res" where
  "read_stop env a w = locked a (read_stop_body env a) w"

definition read_pause_body :: "env \<Rightarrow> addr \<Rightarrow> world \<Rightarrow> (int \<times> world) res" where
  "read_pause_body env a w =
     rbind (handle_at a w) (\<lambda>i.
     case rdcmd_state (h_io i) of
         Rd_UNKNOWN \<Rightarrow> Inr (2, w)
       | Rd_STOP \<Rightarrow> Inr (2, w)
       | Rd_PAUSE \<Rightarrow> Inr (2, w)
       | _ \<Rightarrow>
           rbind (io_mod a (\<lambda>p. p\<lparr>rdcmd_state := Rd_PAUSE\<rparr>) w) (\<lambda>w.
           rbind (iface_read_stop env a w) (\<lambda>(ret, w).
           rbind (handle_set_status a ret w) (\<lambda>w.
           rbind (handle_unref env a w) (\<lambda>w.
           Inr (ret, w))))))"

definition read_pause :: "env \<Rightarrow> addr \<Rightarrow> bool \<Rightarrow> world \<Rightarrow> (int \<times> world) res" where
  "read_pause env a trigger_condition w =
     (if \<not> trigger_condition then Inr (1, w) else locked a (read_pause_body env a) w)"

definition read_resume_body :: "env \<Rightarrow> addr \<Rightarrow> world \<Rightarrow> (int \<times> world) res" where
  "read_resume_body env a w =
     rbind (handle_at a w) (\<lambda>i.
     case rdcmd_state (h_io i) of
         Rd_UNKNOWN \<Rightarrow> Inr (2, w)
       | Rd_STOP \<Rightarrow> Inr (2, w)
       | Rd_PAUSE \<Rightarrow>
           rbind (io_mod a (\<lambda>p. p\<lparr>rdcmd_state := Rd_RESUME\<rparr>) w) (\<lambda>w.
           rbind (handle_ref a w) (\<lambda>w.
           rbind (handle_set_status a 0 w) (\<lambda>w.
           rbind (iface_read_start env a (rdoffset (h_io i)) w) (\<lambda>(ret, w).
           if ret < 0 then
             rbind (handle_set_status a ret w) (\<lambda>w.
             rbind (io_mod a (\<lambda>p. p\<lparr>rdcmd_state := Rd_UNKNOWN\<rparr>) w) (\<lambda>w.
             rbind (handle_unref env a w) (\<lambda>w.
             Inr (ret, w))))
           else Inr (ret, w)))))
       | _ \<Rightarrow> Inr (2, w))"

definition read_resume :: "env \<Rightarrow> addr \<Rightarrow> bool \<Rightarrow> world \<Rightarrow> (int \<times> world) res" where
  "read_resume env a trigger_condition w =
     (if \<not> trigger_condition then Inr (1, w) else locked a (read_resume_body env a) w)"

section \<open>Files\<close>

text \<open>The constructors of \<open>file\<close>; \<open>path\<close> is passed through to libuv only.\<close>

definition file_from_fd :: "env \<Rightarrow> addr option \<Rightarrow> int \<Rightarrow> string option \<Rightarrow> world \<Rightarrow> (addr \<times> world) res" where
  "file_from_fd env l fd path w =
     (let (a, w) = handle_create If_file w in
      rbind (handle_mod a (\<lambda>i. i\<lparr>h_uv := (h_uv i)\<lparr>u_loop := l, u_result := fd, u_path := path\<rparr>\<rparr>) w) (\<lambda>w.
      rbind (if fd < 0 then file_mod a (\<lambda>p. p\<lparr>is_closing_flag := 1\<rparr>) w else Inr w) (\<lambda>w.
      rbind (book_loop env a w) (\<lambda>w. Inr (a, w)))))"

definition file_open_sync ::
  "env \<Rightarrow> addr option \<Rightarrow> string \<Rightarrow> int \<Rightarrow> int \<Rightarrow> world \<Rightarrow> (addr \<times> world) res" where
  "file_open_sync env l path flags mode w =
     (let (a, w) = handle_create If_file w in
      rbind (uv_on_handle env ''uv_fs_open'' a [Ptr l, Str path, Num flags, Num mode, Callback False] w)
        (\<lambda>(uv_ret, w).
      rbind (handle_set_status a uv_ret w) (\<lambda>w.
      rbind (if 0 \<le> uv_ret then book_loop env a w else Inr w) (\<lambda>w. Inr (a, w)))))"

definition file_open ::
  "env \<Rightarrow> addr option \<Rightarrow> string \<Rightarrow> int \<Rightarrow> int \<Rightarrow> cb option \<Rightarrow> world \<Rightarrow> (addr \<times> world) res" where
  "file_open env l path flags mode open_callback w =
     (if open_callback = None then file_open_sync env l path flags mode w
      else
        (let (a, w) = handle_create If_file w in
         rbind (handle_ref a w) (\<lambda>w.
         rbind (file_mod a (\<lambda>p. p\<lparr>open_cb := open_callback\<rparr>) w) (\<lambda>w.
         rbind (handle_set_status a 0 w) (\<lambda>w.
         rbind (uv_on_handle env ''uv_fs_open'' a
             [Ptr l, Str path, Num flags, Num mode, Callback True] w) (\<lambda>(uv_ret, w).
         rbind (if 0 \<le> uv_ret then book_loop env a w
                else rbind (handle_set_status a uv_ret w) (\<lambda>w. handle_unref env a w)) (\<lambda>w.
         Inr (a, w))))))))"

definition file_open_cb :: "env \<Rightarrow> addr \<Rightarrow> world \<Rightarrow> world res" where
  "file_open_cb env a w =
     rbind (handle_mod a (\<lambda>i. i\<lparr>h_uv_error := c_int (u_result (h_uv i))\<rparr>) w) (\<lambda>w.
     rbind (handle_at a w) (\<lambda>i.
     rbind (case open_cb (h_file i) of
              None \<Rightarrow> Inr w
            | Some c \<Rightarrow> with_handle env a (\<lambda>v. usr env c [v] []) w) (\<lambda>w.
     handle_unref env a w)))"

text \<open>
  The handler of the file's own read request, whose \<open>result\<close> is a parameter. On an error or at
  the end of the file the buffer is given up first. As long as the client has not stopped the
  reading, the next request follows.
\<close>

definition file_read_cb :: "env \<Rightarrow> addr \<Rightarrow> int \<Rightarrow> world \<Rightarrow> world res" where
  "file_read_cb env a result w =
     rbind (handle_at a w) (\<lambda>i.
     let nread = (if result = 0 then UV_EOF else result) in
     rbind (if nread < 0 then
              rbind (case rd_base (h_file i) of
                       None \<Rightarrow> Inl Wild_pointer
                     | Some b0 \<Rightarrow> buffer_from_base b0 w) (\<lambda>b.
              rbind (buffer_unref env b w) (\<lambda>w.
              file_mod a (\<lambda>p. p\<lparr>rd_base := None\<rparr>) w))
            else Inr w) (\<lambda>w.
     rbind (handle_at a w) (\<lambda>i.
     rbind (io_read_cb env a nread (rd_base (h_file i)) [Ptr None] w) (\<lambda>w.
     let w = snd (uv env ''uv_fs_req_cleanup'' [Ptr (Some a)] w) in
     rbind (handle_at a w) (\<lambda>i.
     case rdcmd_state (h_io i) of
         Rd_UNKNOWN \<Rightarrow> Inr w
       | Rd_STOP \<Rightarrow> Inr w
       | Rd_PAUSE \<Rightarrow> Inr w
       | _ \<Rightarrow>
           rbind (handle_set_status a 0 w) (\<lambda>w.
           rbind (file_read env a w) (\<lambda>(uv_ret, w).
           if uv_ret < 0 then handle_set_status a uv_ret w else Inr w)))))))"

definition file_fd :: "addr \<Rightarrow> world \<Rightarrow> int res" where
  "file_fd a w = rbind (handle_at a w) (\<lambda>i. Inr (c_int (u_result (h_uv i))))"

section \<open>The commands on streams and datagram sockets\<close>

text \<open>
  A step of the library that changes the instance \<open>a\<close> from \<open>i\<close> to \<open>j\<close> and records calls, keeping
  the balance of the count and the references the handle keeps to itself.
\<close>

definition handle_step :: "addr \<Rightarrow> handle_instance \<Rightarrow> handle_instance \<Rightarrow> world \<Rightarrow> world \<Rightarrow> bool" where
  "handle_step a i j w w' \<longleftrightarrow> handles w a = Some i \<and> handles w' = (handles w)(a \<mapsto> j) \<and>
     loops w' = loops w \<and> buffers w' = buffers w \<and> requests w' = requests w \<and>
     vars w' = vars w \<and> nxt w' = nxt w \<and> h_loop j = h_loop i \<and>
     h_refs j - int (owes j) = h_refs i - int (owes i)"

lemma winv_handle_step:
  assumes "handle_step a i j w w'" "winv E w" "0 < h_refs j"
  shows "winv E w'"
proof -
  have "winv E (handle_put a j w)"
    by (rule winv_handle_change [OF assms(2), of a i]) (use assms in \<open>simp_all add: handle_step_def\<close>)
  moreover have "w' = (handle_put a j w)\<lparr>trace := trace w'\<rparr>"
    using assms(1) by (simp add: handle_step_def handle_put_def)
  ultimately show ?thesis by (metis winv_trace)
qed

text \<open>The table of control commands in the documentation of \<open>read_resume()\<close>.\<close>

datatype rd_command = Cmd_start "64 word" int | Cmd_resume | Cmd_stop | Cmd_pause

datatype rd_action = Act_start | Act_restart | Act_resume | Act_stop | Act_pause | Act_refuse

fun rd_table :: "rd_command \<Rightarrow> rdcmd \<Rightarrow> rd_action" where
  "rd_table (Cmd_start sz off) s = (if reading s then Act_restart else Act_start)"
| "rd_table Cmd_resume s = (if s = Rd_PAUSE then Act_resume else Act_refuse)"
| "rd_table Cmd_stop s = Act_stop"
| "rd_table Cmd_pause s = (if reading s then Act_pause else Act_refuse)"

text \<open>The libuv calls of an action, its return code, and the state it leads to.\<close>

fun rd_calls :: "rd_action \<Rightarrow> event \<Rightarrow> event \<Rightarrow> event list" where
  "rd_calls Act_start start stop = [start]"
| "rd_calls Act_restart start stop = [stop, start]"
| "rd_calls Act_resume start stop = [start]"
| "rd_calls Act_stop start stop = [stop]"
| "rd_calls Act_pause start stop = [stop]"
| "rd_calls Act_refuse start stop = []"

definition rd_return :: "env \<Rightarrow> event list \<Rightarrow> event list \<Rightarrow> int" where
  "rd_return env tr calls =
     (if calls = [] then 2 else uv_ret env (tr @ butlast calls) (last calls))"

fun rd_next :: "rd_action \<Rightarrow> int \<Rightarrow> rdcmd \<Rightarrow> rdcmd" where
  "rd_next Act_start r s = (if r < 0 then Rd_UNKNOWN else Rd_START)"
| "rd_next Act_restart r s = (if r < 0 then Rd_UNKNOWN else Rd_START)"
| "rd_next Act_resume r s = (if r < 0 then Rd_UNKNOWN else Rd_RESUME)"
| "rd_next Act_stop r s = Rd_STOP"
| "rd_next Act_pause r s = Rd_PAUSE"
| "rd_next Act_refuse r s = s"

fun rd_exec :: "env \<Rightarrow> rd_command \<Rightarrow> addr \<Rightarrow> world \<Rightarrow> (int \<times> world) res" where
  "rd_exec env (Cmd_start sz off) a w = read_start env a sz off w"
| "rd_exec env Cmd_resume a w = read_resume env a True w"
| "rd_exec env Cmd_stop a w = read_stop env a w"
| "rd_exec env Cmd_pause a w = read_pause env a True w"

definition start_event :: "iface \<Rightarrow> addr \<Rightarrow> event" where
  "start_event f a = Call (if f = If_udp then ''uv_udp_recv_start'' else ''uv_read_start'')
     [Ptr (Some a), Callback True, Callback True]"

definition stop_event :: "iface \<Rightarrow> addr \<Rightarrow> event" where
  "stop_event f a = Call (if f = If_udp then ''uv_udp_recv_stop'' else ''uv_read_stop'') [Ptr (Some a)]"

text \<open>
  The states the commands pass through: the world \<open>w\<close> with the instance \<open>a\<close> replaced and the
  record of calls extended. The lemmas compute the elementary steps on them.
\<close>

definition st :: "addr \<Rightarrow> handle_instance \<Rightarrow> event list \<Rightarrow> world \<Rightarrow> world" where
  "st a i tr w = w\<lparr>handles := (handles w)(a \<mapsto> i), trace := tr\<rparr>"

named_theorems st_simps \<open>computing with the states of a handle's operation\<close>

lemma st_id: "handles w a = Some i \<Longrightarrow> w = st a i (trace w) w"
  by (simp add: st_def fun_upd_idem)

lemma st_handles [st_simps]: "handles (st a i tr w) a = Some i"
  by (simp add: st_def)

lemma st_handle_at [st_simps]: "handle_at a (st a i tr w) = Inr i"
  by (simp add: st_def)

lemma st_trace [st_simps]: "trace (st a i tr w) = tr"
  by (simp add: st_def)

lemma st_put [st_simps]: "handle_put a j (st a i tr w) = st a j tr w"
  by (simp add: st_def handle_put_def)

lemma st_emit [st_simps]: "emit e (st a i tr w) = st a i (tr @ [e]) w"
  by (simp add: st_def emit_def)

lemma st_mod [st_simps]: "handle_mod a f (st a i tr w) = Inr (st a (f i) tr w)"
  by (simp add: handle_mod_def st_simps)

lemma st_ref [st_simps]:
  "0 < h_refs i \<Longrightarrow> handle_ref a (st a i tr w) = Inr (st a (i\<lparr>h_refs := h_refs i + 1\<rparr>) tr w)"
  by (simp add: handle_ref_def st_simps)

lemma st_unref [st_simps]:
  "h_refs i \<noteq> 1 \<Longrightarrow> handle_unref env a (st a i tr w) = Inr (st a (i\<lparr>h_refs := h_refs i - 1\<rparr>) tr w)"
  by (simp add: handle_unref_def ref_count_dec_def Let_def st_simps)

lemma st_io_mod [st_simps]:
  "io_mod a f (st a i tr w) = Inr (st a (i\<lparr>h_io := f (h_io i)\<rparr>) tr w)"
  by (simp add: io_mod_def st_simps)

lemma st_set_status [st_simps]:
  "handle_set_status a r (st a i tr w) = Inr (st a (i\<lparr>h_uv_error := r\<rparr>) tr w)"
  by (simp add: handle_set_status_def st_simps)

lemma st_uv_on_handle [st_simps]:
  "uv_on_handle env f a args (st a i tr w) =
     Inr (uv_ret env tr (Call f (Ptr (Some a) # args)),
          st a (i\<lparr>h_uv := uv_eff env tr (Call f (Ptr (Some a) # args)) (h_uv i)\<rparr>)
             (tr @ [Call f (Ptr (Some a) # args)]) w)"
  by (simp add: uv_on_handle_def Let_def st_simps)

lemma handle_step_st:
  "handle_step a i j w (st a j tr w) \<longleftrightarrow> handles w a = Some i \<and> h_loop j = h_loop i \<and>
     h_refs j - int (owes j) = h_refs i - int (owes i)"
  by (auto simp: handle_step_def st_def)

definition wire :: "iface \<Rightarrow> bool" where
  "wire f \<longleftrightarrow> f = If_stream \<or> f = If_udp"

lemma st_iface_read_stop [st_simps]:
  "wire (h_iface i) \<Longrightarrow> iface_read_stop env a (st a i tr w) =
     Inr (uv_ret env tr (stop_event (h_iface i) a),
          st a (i\<lparr>h_uv := uv_eff env tr (stop_event (h_iface i) a) (h_uv i)\<rparr>)
             (tr @ [stop_event (h_iface i) a]) w)"
  by (auto simp: iface_read_stop_def wire_def stop_event_def st_simps)

lemma st_iface_read_start [st_simps]:
  "wire (h_iface i) \<Longrightarrow> iface_read_start env a off (st a i tr w) =
     Inr (uv_ret env tr (start_event (h_iface i) a),
          st a (i\<lparr>h_io := (h_io i)\<lparr>rdoffset := (if 0 \<le> off then off else rdoffset (h_io i))\<rparr>,
                  h_uv := uv_eff env tr (start_event (h_iface i) a) (h_uv i)\<rparr>)
             (tr @ [start_event (h_iface i) a]) w)"
  by (auto simp: iface_read_start_def wire_def start_event_def st_simps stream_read_start_def
      udp_read_start_def)

text \<open>An endpoint ready for commands: not locked, with callbacks, and held by somebody.\<close>

definition rd_ready :: "handle_instance \<Rightarrow> bool" where
  "rd_ready i \<longleftrightarrow> wire (h_iface i) \<and> \<not> rdstate_switch (h_io i) \<and> alloc_cb (h_io i) \<noteq> None \<and>
     read_cb (h_io i) \<noteq> None \<and> int (owes i) < h_refs i"

lemma st_inj [simp]: "st a i tr w = st a j tr' w \<longleftrightarrow> i = j \<and> tr = tr'"
proof
  assume eq: "st a i tr w = st a j tr' w"
  then have "handles (st a i tr w) a = handles (st a j tr' w) a" by simp
  moreover have "trace (st a i tr w) = trace (st a j tr' w)" using eq by simp
  ultimately show "i = j \<and> tr = tr'" by (simp add: st_simps)
qed simp

text \<open>The part of \<open>owes\<close> that reading does not concern.\<close>

definition owes_watch :: "handle_instance \<Rightarrow> nat" where
  "owes_watch i = of_bool (watching (opcmd_state (h_watch i))) + of_bool (has_extra_ref (h_watch i))"

lemma owes_io: "owes i = of_bool (reading (rdcmd_state (h_io i))) + owes_watch i"
  by (simp add: owes_def owes_watch_def)

lemma owes_watch_upd [simp]:
  "owes_watch (i\<lparr>h_refs := c\<rparr>) = owes_watch i" "owes_watch (i\<lparr>h_uv_error := r\<rparr>) = owes_watch i"
  "owes_watch (i\<lparr>h_uv := u\<rparr>) = owes_watch i" "owes_watch (i\<lparr>h_io := p\<rparr>) = owes_watch i"
  by (simp_all add: owes_watch_def)

lemmas rd_defs = locked_def rdstate_lock_def rdstate_unlock_def Let_def

text \<open>What every command leaves behind: the endpoint ready again, and the balance kept.\<close>

definition rd_post :: "handle_instance \<Rightarrow> rdcmd \<Rightarrow> handle_instance \<Rightarrow> bool" where
  "rd_post i s j \<longleftrightarrow> rd_ready j \<and> h_iface j = h_iface i \<and> h_loop j = h_loop i \<and>
     h_watch j = h_watch i \<and> h_refs j - int (owes j) = h_refs i - int (owes i) \<and>
     rdcmd_state (h_io j) = s"

lemma read_stop_st:
  assumes "rd_ready i"
  shows "ok (\<lambda>(r, w'). r = uv_ret env tr (stop_event (h_iface i) a) \<and>
      (\<exists>j. w' = st a j (tr @ [stop_event (h_iface i) a]) w \<and> rd_post i Rd_STOP j))
    (read_stop env a (st a i tr w))"
proof (cases "reading (rdcmd_state (h_io i))")
  case True
  with assms show ?thesis unfolding rd_ready_def
    by (cases "rdcmd_state (h_io i)")
      (simp_all add: read_stop_def read_stop_body_def rd_defs st_simps rd_post_def rd_ready_def owes_io)
next
  case False
  with assms show ?thesis unfolding rd_ready_def
    by (cases "rdcmd_state (h_io i)")
      (simp_all add: read_stop_def read_stop_body_def rd_defs st_simps rd_post_def rd_ready_def owes_io)
qed

lemma read_pause_st:
  assumes "rd_ready i"
  shows "ok (\<lambda>(r, w'). if reading (rdcmd_state (h_io i))
      then r = uv_ret env tr (stop_event (h_iface i) a) \<and>
        (\<exists>j. w' = st a j (tr @ [stop_event (h_iface i) a]) w \<and> rd_post i Rd_PAUSE j)
      else r = 2 \<and> (\<exists>j. w' = st a j tr w \<and> rd_post i (rdcmd_state (h_io i)) j))
    (read_pause env a True (st a i tr w))"
  using assms unfolding rd_ready_def
  by (cases "rdcmd_state (h_io i)")
    (simp_all add: read_pause_def read_pause_body_def rd_defs st_simps rd_post_def rd_ready_def owes_io)

lemma read_resume_st:
  assumes "rd_ready i"
  shows "ok (\<lambda>(r, w'). if rdcmd_state (h_io i) = Rd_PAUSE
      then r = uv_ret env tr (start_event (h_iface i) a) \<and>
        (\<exists>j. w' = st a j (tr @ [start_event (h_iface i) a]) w \<and>
          rd_post i (if r < 0 then Rd_UNKNOWN else Rd_RESUME) j)
      else r = 2 \<and> (\<exists>j. w' = st a j tr w \<and> rd_post i (rdcmd_state (h_io i)) j))
    (read_resume env a True (st a i tr w))"
  using assms unfolding rd_ready_def
  by (cases "rdcmd_state (h_io i)"; cases "uv_ret env tr (start_event (h_iface i) a) < 0")
    (simp_all add: read_resume_def read_resume_body_def rd_defs st_simps rd_post_def rd_ready_def owes_io)

lemma read_start_st:
  assumes "rd_ready i"
  shows "ok (\<lambda>(r, w'). let calls = (if reading (rdcmd_state (h_io i))
        then [stop_event (h_iface i) a, start_event (h_iface i) a] else [start_event (h_iface i) a]) in
      r = uv_ret env (tr @ butlast calls) (last calls) \<and>
      (\<exists>j. w' = st a j (tr @ calls) w \<and> rd_post i (if r < 0 then Rd_UNKNOWN else Rd_START) j))
    (read_start env a sz off (st a i tr w))"
proof -
  from assms obtain c d where "alloc_cb (h_io i) = Some c" "read_cb (h_io i) = Some d"
    by (auto simp: rd_ready_def)
  with assms show ?thesis unfolding rd_ready_def
    by (cases "rdcmd_state (h_io i)";
        cases "uv_ret env (if reading (rdcmd_state (h_io i)) then tr @ [stop_event (h_iface i) a] else tr)
          (start_event (h_iface i) a) < 0")
      (simp_all add: read_start_def read_start_body_def rd_defs st_simps rd_post_def rd_ready_def owes_io)
qed

lemma rd_post_step:
  assumes "handles w a = Some i" "rd_post i s j"
  shows "handle_step a i j w (st a j tr w)" "rd_ready j" "rdcmd_state (h_io j) = s"
    "h_watch j = h_watch i"
  using assms by (simp_all add: rd_post_def handle_step_st)

text \<open>Each command does what the table says.\<close>

lemma rd_exec_table:
  assumes "handles w a = Some i" "rd_ready i"
  shows "ok (\<lambda>(r, w').
      let s = rdcmd_state (h_io i);
          calls = rd_calls (rd_table cmd s) (start_event (h_iface i) a) (stop_event (h_iface i) a)
      in r = rd_return env (trace w) calls \<and> trace w' = trace w @ calls \<and>
         (\<exists>j. handle_step a i j w w' \<and> rd_ready j \<and> h_watch j = h_watch i \<and>
              rdcmd_state (h_io j) = rd_next (rd_table cmd s) r s))
    (rd_exec env cmd a w)"
proof -
  let ?w = "st a i (trace w) w"
  have step: "ok (\<lambda>(r, w').
      let s = rdcmd_state (h_io i);
          calls = rd_calls (rd_table cmd s) (start_event (h_iface i) a) (stop_event (h_iface i) a)
      in r = rd_return env (trace w) calls \<and>
         (\<exists>j. w' = st a j (trace w @ calls) w \<and> rd_post i (rd_next (rd_table cmd s) r s) j))
    (rd_exec env cmd a ?w)"
  proof (cases cmd)
    case (Cmd_start sz off)
    show ?thesis
      unfolding Cmd_start rd_exec.simps
      by (rule ok_weaken [OF read_start_st [OF assms(2), where tr = "trace w"]]) (auto simp: Cmd_start rd_return_def Let_def split: if_splits)
  next
    case Cmd_resume
    show ?thesis
      unfolding Cmd_resume rd_exec.simps
      by (rule ok_weaken [OF read_resume_st [OF assms(2), where tr = "trace w"]]) (auto simp: Cmd_resume rd_return_def Let_def split: if_splits)
  next
    case Cmd_stop
    show ?thesis
      unfolding Cmd_stop rd_exec.simps
      by (rule ok_weaken [OF read_stop_st [OF assms(2), where tr = "trace w"]]) (auto simp: Cmd_stop rd_return_def Let_def split: if_splits)
  next
    case Cmd_pause
    show ?thesis
      unfolding Cmd_pause rd_exec.simps
      by (rule ok_weaken [OF read_pause_st [OF assms(2), where tr = "trace w"]]) (auto simp: Cmd_pause rd_return_def Let_def split: if_splits)
  qed
  have run: "rd_exec env cmd a w = rd_exec env cmd a ?w"
    by (rule arg_cong [OF st_id [OF assms(1)]])
  show ?thesis
    unfolding run
    by (rule ok_weaken [OF step])
      (auto simp: Let_def st_trace intro: rd_post_step [OF assms(1)])
qed

text \<open>
  C6: On a stream or a datagram socket the four reading commands implement the table in the
  documentation of \<open>read_resume()\<close>: for every command and every previous command, the libuv
  calls made, the return code and the command recorded are those of the table's entry; a start
  that fails leaves the endpoint as if no command had been given; and the count of the handle
  changes by exactly the reference the reading state accounts for.
\<close>

theorem read_commands_follow_table:
  assumes "handles w a = Some i" "rd_ready i"
  shows "ok (\<lambda>(r, w').
      let s = rdcmd_state (h_io i);
          calls = rd_calls (rd_table cmd s) (start_event (h_iface i) a) (stop_event (h_iface i) a)
      in r = rd_return env (trace w) calls \<and> trace w' = trace w @ calls \<and>
         (\<exists>j. handle_step a i j w w' \<and> rd_ready j \<and> h_watch j = h_watch i \<and>
              rdcmd_state (h_io j) = rd_next (rd_table cmd s) r s))
    (rd_exec env cmd a w)"
  by (rule rd_exec_table [OF assms])

definition stream_example :: "rdcmd \<Rightarrow> int \<Rightarrow> handle_instance" where
  "stream_example s c = (handle_init If_stream)\<lparr>h_refs := c,
     h_io := io_properties_init\<lparr>rdcmd_state := s, alloc_cb := Some 7, read_cb := Some 8\<rparr>\<rparr>"

lemmas example_defs = handle_init_def io_properties_init_def watch_properties_init_def
  file_properties_init_def uv_struct_init_def world_init_def

lemma stream_example_ready: "rd_ready (stream_example Rd_START 2)"
  by (simp add: stream_example_def rd_ready_def wire_def owes_def example_defs)

text \<open>The witness: restarting a stream that is being read.\<close>

lemma read_commands_follow_table_witness:
  "ok (\<lambda>(r, w').
      let s = rdcmd_state (h_io (stream_example Rd_START 2));
          calls = rd_calls (rd_table (Cmd_start 0 5) s)
            (start_event (h_iface (stream_example Rd_START 2)) 0)
            (stop_event (h_iface (stream_example Rd_START 2)) 0)
      in r = rd_return quiet_env (trace (handle_put 0 (stream_example Rd_START 2) world_init)) calls \<and>
         trace w' = trace (handle_put 0 (stream_example Rd_START 2) world_init) @ calls \<and>
         (\<exists>j. handle_step 0 (stream_example Rd_START 2) j
                (handle_put 0 (stream_example Rd_START 2) world_init) w' \<and> rd_ready j \<and> h_watch j = h_watch (stream_example Rd_START 2) \<and>
              rdcmd_state (h_io j) = rd_next (rd_table (Cmd_start 0 5) s) r s))
    (rd_exec quiet_env (Cmd_start 0 5) 0 (handle_put 0 (stream_example Rd_START 2) world_init))"
  by (rule read_commands_follow_table [OF _ stream_example_ready]) (simp add: store_simps)

text \<open>Any sequence of commands.\<close>

fun rd_run :: "env \<Rightarrow> rd_command list \<Rightarrow> addr \<Rightarrow> world \<Rightarrow> world res" where
  "rd_run env [] a w = Inr w"
| "rd_run env (c # cs) a w = rbind (rd_exec env c a w) (\<lambda>(r, w). rd_run env cs a w)"

lemma rd_exec_keeps:
  assumes "winv E w" "handles w a = Some i" "rd_ready i"
  shows "ok (\<lambda>(r, w'). winv E w' \<and> vars w' = vars w \<and> (\<exists>j. handles w' a = Some j \<and> rd_ready j \<and>
      h_watch j = h_watch i \<and> h_refs j - int (owes j) = h_refs i - int (owes i))) (rd_exec env cmd a w)"
proof -
  have "winv E w' \<and> vars w' = vars w \<and> (\<exists>j. handles w' a = Some j \<and> rd_ready j \<and>
      h_watch j = h_watch i \<and> h_refs j - int (owes j) = h_refs i - int (owes i))"
    if "handle_step a i j w w'" "rd_ready j" "h_watch j = h_watch i" for j w'
  proof -
    have "0 < h_refs j" using that(2) by (simp add: rd_ready_def)
    with winv_handle_step [OF that(1) assms(1)] that show ?thesis
      by (auto simp: handle_step_def)
  qed
  then show ?thesis
    by (intro ok_weaken [OF rd_exec_table [OF assms(2,3)]]) (auto simp: Let_def)
qed

text \<open>
  However the reading commands are sequenced, and whichever of them fail, the count of the
  handle is the number of its holders, plus one exactly while the last command left it reading,
  and the invariant of the whole world is kept.
\<close>

lemma read_commands_balanced:
  assumes "winv E w" "handles w a = Some i" "rd_ready i" "owes_watch i = 0"
  shows "ok (\<lambda>w'. winv E w' \<and> (\<exists>j. handles w' a = Some j \<and>
      h_refs j = (h_refs i - of_bool (reading (rdcmd_state (h_io i))))
        + of_bool (reading (rdcmd_state (h_io j))))) (rd_run env cmds a w)"
proof -
  have "ok (\<lambda>w'. winv E w' \<and> (\<exists>j. handles w' a = Some j \<and>
      h_watch j = h_watch i \<and> h_refs j - int (owes j) = h_refs i - int (owes i))) (rd_run env cmds a w)"
    using assms(1-3)
  proof (induction cmds arbitrary: w i)
    case (Cons c cs)
    from rd_exec_keeps [OF Cons.prems, of env c] obtain r w1 j
      where "rd_exec env c a w = Inr (r, w1)" "winv E w1" "handles w1 a = Some j" "rd_ready j"
        "h_watch j = h_watch i" "h_refs j - int (owes j) = h_refs i - int (owes i)"
      by (auto simp: ok_iff)
    with Cons.IH [of w1 j] show ?case by simp
  qed simp
  then show ?thesis
    by (rule ok_weaken) (use assms(4) in \<open>auto simp: owes_io owes_watch_def\<close>)
qed

text \<open>The witness: a stream held by one variable.\<close>

definition stream_world :: world where
  "stream_world = world_init\<lparr>handles := [0 \<mapsto> stream_example Rd_UNKNOWN 1],
     vars := [1 \<mapsto> Some (HandleO 0)], nxt := 2\<rparr>"

lemma count_ptr_single: "count_ptr [v \<mapsto> Some p] q = (if q = p then 1 else 0)"
proof -
  have "{u. [v \<mapsto> Some p] u = Some (Some q)} = (if q = p then {v} else {})" by auto
  then show ?thesis by (simp add: count_ptr_def)
qed

lemma stream_world_winv: "winv (\<lambda>_. 0) stream_world"
  unfolding winv_def
proof (intro conjI allI)
  show "bounded stream_world"
    by (simp add: bounded_def stream_world_def world_init_def)
  have "booking stream_world = [0 \<mapsto> None]"
    by (auto simp: booking_def stream_world_def stream_example_def handle_init_def world_init_def)
  then have "count_ptr (booking stream_world) l = 0" for l
    by (simp add: count_ptr_def)
  then show "agrees (live_refs stream_world p) (held (\<lambda>_. 0) stream_world p)" for p
    by (cases p) (auto simp: live_refs_def held_def booked_def stream_world_def count_ptr_single
        stream_example_def owes_def example_defs)
qed

lemma read_commands_balanced_witness:
  "ok (\<lambda>w'. winv (\<lambda>_. 0) w' \<and> (\<exists>j. handles w' 0 = Some j \<and>
      h_refs j = (h_refs (stream_example Rd_UNKNOWN 1)
          - of_bool (reading (rdcmd_state (h_io (stream_example Rd_UNKNOWN 1)))))
        + of_bool (reading (rdcmd_state (h_io j)))))
    (rd_run quiet_env [Cmd_start 0 5, Cmd_pause, Cmd_resume, Cmd_start 0 0, Cmd_stop] 0 stream_world)"
  by (rule read_commands_balanced [OF stream_world_winv])
    (simp_all add: stream_world_def stream_example_def rd_ready_def wire_def owes_def owes_watch_def
      example_defs)

text \<open>
  A command issued while another one is being executed on the same endpoint, as by an
  allocation callback called from \<open>read_start()\<close> of a file, never comes back.
\<close>

theorem read_command_deadlocks:
  assumes "handles w a = Some i" "rdstate_switch (h_io i)"
  shows "rd_exec env cmd a w = Inl Deadlock"
  using assms
  by (cases cmd) (simp_all add: read_start_def read_stop_def read_pause_def read_resume_def
      locked_def rdstate_lock_def)

definition locked_example :: handle_instance where
  "locked_example = (stream_example Rd_START 2)\<lparr>h_io :=
     (h_io (stream_example Rd_START 2))\<lparr>rdstate_switch := True\<rparr>\<rparr>"

lemma read_command_deadlocks_witness:
  "rd_exec quiet_env Cmd_stop 0 (handle_put 0 locked_example world_init) = Inl Deadlock"
  by (rule read_command_deadlocks [of _ _ locked_example])
    (simp_all add: store_simps locked_example_def)

section \<open>Delivering the data\<close>

lemma handle_live_of_owned:
  assumes "winv E w" "0 < E (HandleO a)"
  obtains i where "handles w a = Some i"
  using winv_owned_live' [OF assms] by (auto simp: live_handle)

lemma winv_io_mod:
  assumes "winv E w" "handles w a = Some i" "\<And>p. rdcmd_state (f p) = rdcmd_state p"
  shows "ok (winv E) (io_mod a f w)"
  using winv_handle_put [OF assms(1,2), of "i\<lparr>h_io := f (h_io i)\<rparr>"] assms(2,3)
  by (simp add: io_mod_def owes_def)

lemma io_alloc_cb_ok:
  assumes "client_ok K env" "winv E w" "handles w a = Some i" "alloc_cb (h_io i) = Some c"
  shows "ok (\<lambda>(base, w'). \<exists>b bi F. above K E F \<and> winv (inc (BufferO b) F) w' \<and>
      buffers w' b = Some bi \<and> base = (if b_null bi then None else Some b)) (io_alloc_cb env a n w)"
proof -
  have "live_refs w (HandleO a) \<noteq> None" using assms(3) by (simp add: live_handle)
  from handle_ref_ok [OF assms(2) this] obtain w1 where r1: "handle_ref a w = Inr w1"
    and w1: "winv (inc (HandleO a) E) w1" by (auto simp: ok_iff)
  let ?v = "nxt w1" and ?w = "var_store (nxt w1) (Some (HandleO a)) w1"
  let ?n = "if rdsize (h_io i) \<noteq> 0 then rdsize (h_io i) else n"
  have "winv E ?w" using winv_var_new [of "Some (HandleO a)" E w1] w1 by simp
  moreover have "vars ?w ?v = Some (Some (HandleO a))" by (simp add: store_simps)
  ultimately have "ok (\<lambda>(p, w'). \<exists>b E'. p = Some b \<and> above K E E' \<and> winv (inc (BufferO b) E') w' \<and>
         (\<exists>q. vars w' ?v = Some q \<and> same_class (Some (HandleO a)) q)) (usr_alloc env c ?v ?n ?w)"
    using client_ok_dest(4) [OF assms(1)] by (simp add: allocs_ok_def)
  then obtain b F w2 q where r2: "usr_alloc env c ?v ?n ?w = Inr (Some b, w2)"
    and F: "above K E F" and w2: "winv (inc (BufferO b) F) w2"
    and q: "vars w2 ?v = Some q" "same_class (Some (HandleO a)) q"
    by (auto simp: ok_iff)
  from handle_rc.dtor_quiet [OF client_ok_dest(1) [OF assms(1)] w2 q(1) same_class_handle [OF q(2)]]
  obtain w3 where r3: "handle_var_dtor env ?v w2 = Inr w3" and w3: "winv (inc (BufferO b) F) w3"
    by (auto simp: ok_iff handle_var_dtor_def)
  from winv_owned_live [OF w3] obtain bi where bi: "buffers w3 b = Some bi"
    by (auto simp: live_buffer)
  have pos: "0 < b_refs bi" by (rule winv_refs_pos(3) [OF w3 bi])
  have "buffer_ref b w3 = Inr (buffer_put b (bi\<lparr>b_refs := b_refs bi + 1\<rparr>) w3)"
    using bi pos by (simp add: buffer_ref_def)
  moreover have "buffer_unref env b (buffer_put b (bi\<lparr>b_refs := b_refs bi + 1\<rparr>) w3) = Inr w3"
    using bi pos by (simp add: buffer_unref_def ref_count_dec_def Let_def store_simps
        buffer_put_twice buffer_put_same)
  moreover have "buffer_bool b (buffer_put b (bi\<lparr>b_refs := b_refs bi + 1\<rparr>) w3) = Inr (\<not> b_null bi)"
    by (simp add: buffer_bool_def store_simps)
  ultimately have "io_alloc_cb env a n w = Inr (if b_null bi then None else Some b, w3)"
    using assms(3,4) by (simp add: io_alloc_cb_def r1 var_new_store r2 r3 Let_def)
  with F w3 bi show ?thesis by auto
qed

text \<open>
  C19: The allocation handler leaves one reference to the buffer outstanding, for the read
  handler to take over, unless the buffer it was given is null-initialised, in which case what
  it hands to libuv is a null pointer from which the reference cannot be found again.
\<close>

theorem io_alloc_cb_hands_over:
  assumes "client_ok K env" "winv E w" "handles w a = Some i" "alloc_cb (h_io i) = Some c"
  shows "ok (\<lambda>(base, w'). \<exists>b bi F. above K E F \<and> winv (inc (BufferO b) F) w' \<and>
      buffers w' b = Some bi \<and> base = (if b_null bi then None else Some b)) (io_alloc_cb env a n w)"
  by (rule io_alloc_cb_ok [OF assms])

lemma io_mod_grown:
  assumes "grown K E w" "0 < E (HandleO a)" "\<And>p. rdcmd_state (f p) = rdcmd_state p"
  shows "ok (grown K E) (io_mod a f w)"
proof -
  from assms(1) obtain F where F: "winv F w" "above K E F" by (auto simp: grown_def)
  have "0 < F (HandleO a)" using assms(2) above_le [OF F(2), of "HandleO a"] by simp
  from handle_live_of_owned [where E = F, OF F(1) this] obtain i where "handles w a = Some i" .
  from winv_io_mod [OF F(1) this assms(3)] show ?thesis
    by (rule ok_weaken) (use F(2) in \<open>auto simp: grown_def\<close>)
qed

definition single_chunk :: "addr \<Rightarrow> world \<Rightarrow> bool" where
  "single_chunk b w \<longleftrightarrow> (\<exists>bi. buffers w b = Some bi \<and> length (b_lens bi) = 1 \<and> \<not> b_null bi)"

text \<open>
  The read handler up to and after the client's callback: \<open>w1\<close> is where the callback starts, with the
  buffer to be passed, \<open>w2\<close> where it has returned.
\<close>

lemma io_read_cb_steps:
  assumes client: "client_ok K env" and inv: "winv (owned (map_option BufferO base) E) w"
    and chunk: "\<And>b. base = Some b \<Longrightarrow> single_chunk b w"
    and cb: "handles w a = Some i" "read_cb (h_io i) = Some c"
  obtains b w1 w2 where "vars w1 = vars w" "requests w1 = requests w" "nxt w \<le> nxt w1"
    "with_buffer env b (\<lambda>u. with_handle env a (\<lambda>v. usr env c [v, u]
      ([Num nread, Num (rdoffset (h_io i))] @ info))) w1 = Inr w2" "grown K E w2"
    "io_read_cb env a nread base info w =
      (if 0 < nread then io_mod a (\<lambda>p. p\<lparr>rdoffset := rdoffset p + nread\<rparr>) w2 else Inr w2)"
proof -
  let ?i = "i\<lparr>h_uv_error := c_int nread\<rparr>"
  let ?w = "handle_put a ?i w"
  have i1: "handles ?w a = Some ?i" by (simp add: store_simps)
  have inv1: "winv (owned (map_option BufferO base) E) ?w"
    by (rule winv_handle_put [OF inv cb(1)]) simp_all
  obtain b w1 where b: "(case base of
              Some b0 \<Rightarrow> rbind (buffer_from_base b0 ?w) (\<lambda>b. Inr (b, ?w))
            | None \<Rightarrow> Inr (buffer_create [] ?w)) = Inr (b, w1)"
    and w1: "winv (inc (BufferO b) E) w1" "handles w1 = handles ?w" "vars w1 = vars w"
      "requests w1 = requests w" "nxt w \<le> nxt w1"
  proof (cases base)
    case None
    obtain b w1 where create: "buffer_create [] ?w = (b, w1)" by force
    then have "handles w1 = handles ?w \<and> vars w1 = vars w \<and> requests w1 = requests w \<and> nxt w \<le> nxt w1"
      by (auto simp: buffer_create_def store_simps Let_def)
    with that [of b w1] create buffer_create_ok(1) [OF _ create, of E] inv1 None
    show ?thesis by simp
  next
    case (Some b0)
    from chunk [OF Some] have "buffer_from_base b0 ?w = Inr b0"
      by (auto simp: single_chunk_def buffer_from_base_def store_simps)
    with that [of b0 ?w] inv1 Some show ?thesis by (simp add: store_simps)
  qed
  have "live_refs w1 (HandleO a) \<noteq> None" using w1(2) by (simp add: live_handle store_simps)
  from call_handle_buffer_grown [OF client w1(1) this, of c "[Num nread, Num (rdoffset (h_io i))] @ info"]
  obtain w2 where r2: "with_buffer env b (\<lambda>u. with_handle env a (\<lambda>v. usr env c [v, u]
      ([Num nread, Num (rdoffset (h_io i))] @ info))) w1 = Inr w2" and w2: "grown K E w2"
    by (auto simp: ok_iff)
  have "io_read_cb env a nread base info w =
      (if 0 < nread then io_mod a (\<lambda>p. p\<lparr>rdoffset := rdoffset p + nread\<rparr>) w2 else Inr w2)"
    using cb b r2 by (simp add: io_read_cb_def i1)
  from that [OF w1(3-5) r2 w2 this] show ?thesis .
qed

text \<open>
  The course of the read handler: the client's callback is called with a copy of the handle, which is
  the first of two fresh variables, the buffer, which is the other, the number of bytes and the offset
  at which they have been read; then both variables are destroyed, and the offset moves on. The
  buffer is the one allocated before, or a new null-initialised one.
\<close>

definition data_delivered ::
  "env \<Rightarrow> addr \<Rightarrow> handle_instance \<Rightarrow> cb \<Rightarrow> int \<Rightarrow> addr option \<Rightarrow> arg list \<Rightarrow> world \<Rightarrow> world \<Rightarrow> bool" where
  "data_delivered env a i c nread base info w w' \<longleftrightarrow>
     (let j = i\<lparr>h_uv_error := c_int nread\<rparr>;
          (b, w1) = (case base of Some b \<Rightarrow> (b, handle_put a j w) | None \<Rightarrow> buffer_create [] (handle_put a j w))
      in \<exists>v x u u1 u2. v \<noteq> x \<and> vars w v = None \<and> vars w x = None \<and>
        usr env c [v, x] ([Num nread, Num (rdoffset (h_io i))] @ info)
          (var_store v (Some (HandleO a)) (handle_put a (j\<lparr>h_refs := h_refs j + 1\<rparr>)
            (var_store x (Some (BufferO b)) w1))) = Inr u \<and>
        handle_var_dtor env v u = Inr u1 \<and> buffer_var_dtor env x u1 = Inr u2 \<and>
        (if 0 < nread then \<exists>k. handles u2 a = Some k \<and>
           w' = handle_put a (k\<lparr>h_io := (h_io k)\<lparr>rdoffset := rdoffset (h_io k) + nread\<rparr>\<rparr>) u2
         else w' = u2))"

lemma io_read_cb_course:
  assumes inv: "winv (owned (map_option BufferO base) E) w" and cb: "handles w a = Some i" "read_cb (h_io i) = Some c"
    and chunk: "\<And>b. base = Some b \<Longrightarrow> single_chunk b w"
    and run: "io_read_cb env a nread base info w = Inr w'"
  shows "data_delivered env a i c nread base info w w'"
proof -
  let ?j = "i\<lparr>h_uv_error := c_int nread\<rparr>"
  let ?w = "handle_put a ?j w"
  have j: "handles ?w a = Some ?j" "0 < h_refs ?j" using winv_refs_pos(1) [OF inv cb(1)] by (simp_all add: store_simps)
  obtain b w1 where b: "(case base of Some b \<Rightarrow> (b, ?w) | None \<Rightarrow> buffer_create [] ?w) = (b, w1)" by force
  have got: "(case base of Some b0 \<Rightarrow> rbind (buffer_from_base b0 ?w) (\<lambda>b. Inr (b, ?w))
      | None \<Rightarrow> Inr (buffer_create [] ?w)) = Inr (b, w1)"
    using b chunk by (auto simp: single_chunk_def buffer_from_base_def store_simps split: option.splits)
  have w1: "handles w1 = handles ?w" "vars w1 = vars w" "nxt w \<le> nxt w1"
    using b by (auto simp: buffer_create_def store_simps Let_def split: option.splits)
  have fresh: "vars w v = None" if "nxt w \<le> v" for v
    using winv_bounded [OF inv] that by (meson bounded_def domIff leD)
  let ?x = "nxt w1" and ?v = "Suc (nxt w1)"
  let ?u0 = "var_store ?v (Some (HandleO a)) (handle_put a (?j\<lparr>h_refs := h_refs ?j + 1\<rparr>) (var_store ?x (Some (BufferO b)) w1))"
  have ref: "handle_ref a (var_store ?x (Some (BufferO b)) w1) =
      Inr (handle_put a (?j\<lparr>h_refs := h_refs ?j + 1\<rparr>) (var_store ?x (Some (BufferO b)) w1))"
    using j w1(1) by (simp add: handle_ref_def store_simps)
  have "rbind (with_buffer env b (\<lambda>u. with_handle env a (\<lambda>v. usr env c [v, u]
      ([Num nread, Num (rdoffset (h_io i))] @ info))) w1)
      (\<lambda>w. if 0 < nread then io_mod a (\<lambda>p. p\<lparr>rdoffset := rdoffset p + nread\<rparr>) w else Inr w) = Inr w'"
    using run cb(2) by (simp add: io_read_cb_def handle_mod_simps [OF cb(1)] j(1) got)
  then obtain u2 where r: "with_buffer env b (\<lambda>u. with_handle env a (\<lambda>v. usr env c [v, u]
      ([Num nread, Num (rdoffset (h_io i))] @ info))) w1 = Inr u2"
    and u2: "(if 0 < nread then io_mod a (\<lambda>p. p\<lparr>rdoffset := rdoffset p + nread\<rparr>) u2 else Inr u2) = Inr w'"
    by (auto simp: rbind_eq_Inr)
  from r obtain u1 where r1: "with_handle env a (\<lambda>v. usr env c [v, ?x]
      ([Num nread, Num (rdoffset (h_io i))] @ info)) (var_store ?x (Some (BufferO b)) w1) = Inr u1"
    "buffer_var_dtor env ?x u1 = Inr u2"
    by (auto simp: with_buffer_def var_new_store rbind_eq_Inr)
  have nxt: "nxt (handle_put a k (var_store ?x (Some (BufferO b)) w1)) = ?v" for k by (simp add: store_simps var_store_def)
  from r1(1) obtain u where u: "usr env c [?v, ?x] ([Num nread, Num (rdoffset (h_io i))] @ info) ?u0 = Inr u"
    "handle_var_dtor env ?v u = Inr u1"
    by (auto simp: with_handle_def ref var_new_store nxt rbind_eq_Inr)
  have "if 0 < nread then \<exists>k. handles u2 a = Some k \<and>
       w' = handle_put a (k\<lparr>h_io := (h_io k)\<lparr>rdoffset := rdoffset (h_io k) + nread\<rparr>\<rparr>) u2 else w' = u2"
    using u2 by (auto simp: io_mod_def handle_mod_def handle_at_def split: if_splits option.splits)
  with u r1(2) fresh [of ?v] fresh [of ?x] w1(3) show ?thesis
    unfolding data_delivered_def Let_def b prod.case
    by (intro exI [of _ ?v] exI [of _ ?x] exI [of _ u] exI [of _ u1] exI [of _ u2]) simp
qed

text \<open>
  C18: The read handler calls the client with a copy of the handle, the number of bytes read, the
  offset they were read at and the buffer, together with the reference left by the allocation
  handler, or a new null-initialised one; afterwards it destroys both and moves the offset on by what
  has been read. It faults nowhere and loses no reference, whatever the client does; provided the buffer has a
  single chunk and somebody else holds a reference to the handle for the time of the call.
\<close>

theorem io_read_cb_ok:
  assumes client: "client_ok K env" and inv: "winv (owned (map_option BufferO base) E) w"
    and chunk: "\<And>b. base = Some b \<Longrightarrow> single_chunk b w"
    and kept: "0 < E (HandleO a)" and cb: "handles w a = Some i" "read_cb (h_io i) = Some c"
  shows "ok (\<lambda>w'. grown K E w' \<and> data_delivered env a i c nread base info w w') (io_read_cb env a nread base info w)"
proof -
  have "ok (grown K E) (io_read_cb env a nread base info w)"
    by (rule io_read_cb_steps [OF client inv chunk cb, of nread info])
      (use io_mod_grown [of K E _ a "\<lambda>p. p\<lparr>rdoffset := rdoffset p + nread\<rparr>"] kept in auto)
  with io_read_cb_course [OF inv cb chunk] show ?thesis by (auto simp: ok_iff)
qed

text \<open>The witness: a stream held by a variable and by the code that runs the handler.\<close>

definition read_world :: world where
  "read_world = world_init\<lparr>handles := [0 \<mapsto> stream_example Rd_START 3],
     buffers := [3 \<mapsto> buffer_init [8]], vars := [1 \<mapsto> Some (HandleO 0)], nxt := 4\<rparr>"

lemma read_world_winv: "winv (inc (BufferO 3) (inc (HandleO 0) (\<lambda>_. 0))) read_world"
  unfolding winv_def
proof (intro conjI allI)
  show "bounded read_world"
    by (simp add: bounded_def read_world_def world_init_def)
  have "booking read_world = [0 \<mapsto> None]"
    by (auto simp: booking_def read_world_def stream_example_def handle_init_def world_init_def)
  then have "count_ptr (booking read_world) l = 0" for l
    by (simp add: count_ptr_def)
  then show "agrees (live_refs read_world p)
      (held (inc (BufferO 3) (inc (HandleO 0) (\<lambda>_. 0))) read_world p)" for p
    by (cases p) (auto simp: live_refs_def held_def booked_def read_world_def count_ptr_single
        stream_example_def owes_def example_defs inc_apply buffer_init_def)
qed

theorem io_read_cb_ok_witness:
  "ok (\<lambda>w'. grown {} (inc (HandleO 0) (\<lambda>_. 0)) w' \<and>
      data_delivered quiet_env 0 (stream_example Rd_START 3) 8 5 (Some 3) [] read_world w')
    (io_read_cb quiet_env 0 5 (Some 3) [] read_world)"
proof (rule io_read_cb_ok [OF client_ok_quiet])
  show "winv (owned (map_option BufferO (Some 3)) (inc (HandleO 0) (\<lambda>_. 0))) read_world"
    using read_world_winv by simp
  show "handles read_world 0 = Some (stream_example Rd_START 3)"
    by (simp add: read_world_def)
  show "read_cb (h_io (stream_example Rd_START 3)) = Some 8"
    by (simp add: stream_example_def)
  show "single_chunk b read_world" if "Some 3 = Some b" for b
    using that by (auto simp: read_world_def single_chunk_def buffer_init_def buffer_ctor_def
        stream_example_def Let_def)
qed (simp add: inc_apply)

lemma io_alloc_cb_hands_over_witness:
  "ok (\<lambda>(base, w'). \<exists>b bi F. above {} (\<lambda>_. 0) F \<and> winv (inc (BufferO b) F) w' \<and>
      buffers w' b = Some bi \<and> base = (if b_null bi then None else Some b))
    (io_alloc_cb quiet_env 0 65536 stream_world)"
  by (rule io_alloc_cb_hands_over [OF client_ok_quiet stream_world_winv, of _ "stream_example Rd_UNKNOWN 1" 7])
    (simp_all add: stream_world_def stream_example_def)

text \<open>The last copy of a handle goes, and stopping gives back the reference of the reading state.\<close>

lemma last_copy_deletes:
  assumes "handles w a = Some i" "h_refs i = 1" "wire (h_iface i)" "h_loop i = Some l" "loops w l = Some li"
    "1 < l_refs li" "vars w v = Some (Some (HandleO a))"
  shows "\<exists>w'. handle_var_dtor env v w = Inr w' \<and> handles w' a = None \<and> buffers w' = buffers w \<and>
    vars w' = (vars w)(v := None)"
  using assms
  by (auto simp: handle_unref_def ref_count_dec_def Let_def handle_close_def uv_handle_close_def uv_on_handle_def
      close_cb_def handle_delete_def unbook_loop_def loop_unref_def loop_at_def loop_put_def call_destroy_cb_def
      handle_mod_def handle_var_dtor_def sp_dtor_def var_load_def var_drop_def handle_at_def emit_def store_simps wire_def
      split: option.split)

lemma stop_reading_held:
  assumes "wire (h_iface i)" "\<not> rdstate_switch (h_io i)" "reading (rdcmd_state (h_io i))" "h_refs i = 2"
  shows "\<exists>r j tr'. read_stop env a (st a i tr w) = Inr (r, st a j tr' w) \<and> h_refs j = 1 \<and> h_iface j = h_iface i \<and>
    h_loop j = h_loop i"
  using assms
  by (cases "rdcmd_state (h_io i)")
    (simp_all add: read_stop_def locked_def rdstate_lock_def read_stop_body_def rdstate_unlock_def st_simps Let_def)

text \<open>
  C38: Without another holder the read handler is unsafe, in whatever world and environment: when the
  reading state is the only thing that keeps the stream and the client stops the reading in its
  callback, the handler goes on to update the instance that has just been deleted. (\<open>inner\<close> is the
  environment of the call the callback makes.)
\<close>

theorem io_read_cb_stop_use_after_free:
  assumes i: "handles w a = Some i" "wire (h_iface i)" "\<not> rdstate_switch (h_io i)" "reading (rdcmd_state (h_io i))" "h_refs i = 1"
    and l: "h_loop i = Some l" "loops w l = Some li" "1 < l_refs li"
    and b: "buffers w b = Some bi" "length (b_lens bi) = 1" "\<not> b_null bi" "b_sink_cb bi = None"
    and c: "read_cb (h_io i) = Some c" "\<And>vs args w. usr env c vs args w = rbind (read_stop inner a w) (\<lambda>(r, w). Inr w)"
    and n: "0 < nread"
  shows "io_read_cb env a nread (Some b) info w = Inl Use_after_free"
proof -
  let ?n = "nxt w"
  let ?i = "i\<lparr>h_uv_error := c_int nread\<rparr>"
  let ?w = "w\<lparr>vars := (vars w)(?n \<mapsto> Some (BufferO b), Suc ?n \<mapsto> Some (HandleO a)), nxt := Suc (Suc ?n)\<rparr>"
  have "\<exists>r j tr'. read_stop inner a (st a (?i\<lparr>h_refs := 2\<rparr>) (trace w) ?w) = Inr (r, st a j tr' ?w) \<and> h_refs j = 1 \<and>
    h_iface j = h_iface i \<and> h_loop j = h_loop i"
    using stop_reading_held [of "?i\<lparr>h_refs := 2\<rparr>" inner a "trace w" ?w] i by simp
  then obtain r j tr' where stop: "read_stop inner a (st a (?i\<lparr>h_refs := 2\<rparr>) (trace w) ?w) = Inr (r, st a j tr' ?w)"
    and j: "h_refs j = 1" "h_iface j = h_iface i" "h_loop j = h_loop i" by blast
  have "\<exists>w'. handle_var_dtor env (Suc ?n) (st a j tr' ?w) = Inr w' \<and> handles w' a = None \<and>
      buffers w' = buffers (st a j tr' ?w) \<and> vars w' = (vars (st a j tr' ?w))(Suc ?n := None)"
    by (rule last_copy_deletes [where i = j and l = l and li = li]) (use i l j in \<open>simp_all add: st_def\<close>)
  then obtain w2 where w2: "handle_var_dtor env (Suc ?n) (st a j tr' ?w) = Inr w2" "handles w2 a = None"
    "buffers w2 = buffers w" "vars w2 ?n = Some (Some (BufferO b))" by (auto simp: st_def)
  have "\<exists>w3. buffer_var_dtor env ?n w2 = Inr w3 \<and> handles w3 a = None"
    using w2 b by (auto simp: buffer_var_dtor_def sp_dtor_def var_load_def var_drop_def buffer_unref_def buffer_destroy_def
      ref_count_dec_def buffer_at_def buffer_put_def buffer_remove_def Let_def)
  then obtain w3 where w3: "buffer_var_dtor env ?n w2 = Inr w3" "handles w3 a = None" by blast
  have "w\<lparr>handles := (handles w)(a \<mapsto> ?i\<lparr>h_refs := 2\<rparr>), vars := (vars w)(?n \<mapsto> Some (BufferO b), Suc ?n \<mapsto> Some (HandleO a)),
      nxt := Suc (Suc ?n)\<rparr> = st a (?i\<lparr>h_refs := 2\<rparr>) (trace w) ?w" by (simp add: st_def)
  note stop = stop [folded this]
  have "io_read_cb env a nread (Some b) info w = io_mod a (\<lambda>p. p\<lparr>rdoffset := rdoffset p + nread\<rparr>) w3"
    using i(1,5) b c n stop w2(1) w3(1)
    by (simp add: io_read_cb_def handle_mod_def store_simps buffer_from_base_def with_buffer_def with_handle_def
      var_new_def Let_def handle_ref_def handle_put_def)
  then show ?thesis by (simp add: io_mod_def handle_mod_def handle_at_def w3(2))
qed

text \<open>The witness: the stream of \<open>unheld_world\<close>, whose loop is held by the program.\<close>

definition stopping_env :: env where
  "stopping_env = quiet_env\<lparr>usr := (\<lambda>c vs args w. rbind (read_stop quiet_env 0 w) (\<lambda>(r, w). Inr w))\<rparr>"

definition unheld_world :: world where
  "unheld_world = world_init\<lparr>handles := [0 \<mapsto> (stream_example Rd_START 1)\<lparr>h_loop := Some 2\<rparr>],
     loops := [2 \<mapsto> \<lparr>l_uv_error = 0, l_refs = 2, l_destroy_cb = None, l_exit_cb = None\<rparr>],
     buffers := [1 \<mapsto> buffer_init [8]], vars := [3 \<mapsto> Some (LoopO 2)], nxt := 4\<rparr>"

theorem io_read_cb_stop_use_after_free_witness:
  "io_read_cb stopping_env 0 5 (Some 1) [] unheld_world = Inl Use_after_free"
  by (rule io_read_cb_stop_use_after_free [where i = "(stream_example Rd_START 1)\<lparr>h_loop := Some 2\<rparr>" and l = 2 and
      li = "\<lparr>l_uv_error = 0, l_refs = 2, l_destroy_cb = None, l_exit_cb = None\<rparr>" and bi = "buffer_init [8]" and c = 8])
    (simp_all add: unheld_world_def stopping_env_def stream_example_def example_defs wire_def buffer_init_def, code_simp)

section \<open>Files\<close>

lemma file_open_sync_construct:
  "file_open_sync env l path flags mode w =
     construct env If_file ''uv_fs_open'' l [Str path, Num flags, Num mode, Callback False] w"
  unfolding file_open_sync_def construct_def
  by (intro arg_cong2 [of _ _ _ _ Let] refl ext prod.case_cong rbind_cong) (auto intro!: rbind_cong)

text \<open>
  Opening a file synchronously yields one reference to a new handle, which has booked the
  loop exactly when the file could be opened.
\<close>

lemma file_open_sync_ok:
  assumes "inits env ''uv_fs_open''" "winv E w" "loops w l \<noteq> None"
  shows "ok (\<lambda>(a, w'). winv (inc (HandleO a) E) w' \<and> vars w' = vars w \<and>
      (\<exists>i. handles w' a = Some i \<and> h_iface i = If_file \<and> h_refs i = 1 \<and>
        h_loop i = (if h_uv_error i < 0 then None else Some l)))
    (file_open_sync env (Some l) path flags mode w)"
  unfolding file_open_sync_construct
  by (rule ok_weaken [OF construct_ok [OF assms]]) auto

text \<open>The witness: a world with one loop in a variable.\<close>

definition loop_world :: world where
  "loop_world = world_init\<lparr>loops := [0 \<mapsto> \<lparr>l_uv_error = 0, l_refs = 1, l_destroy_cb = None,
     l_exit_cb = None\<rparr>], vars := [1 \<mapsto> Some (LoopO 0)], nxt := 2\<rparr>"

lemma loop_world_winv: "winv (\<lambda>_. 0) loop_world"
  unfolding winv_def
proof (intro conjI allI)
  show "bounded loop_world"
    by (simp add: bounded_def loop_world_def world_init_def)
  have "booking loop_world = (\<lambda>_. None)"
    by (auto simp: booking_def loop_world_def world_init_def)
  then show "agrees (live_refs loop_world p) (held (\<lambda>_. 0) loop_world p)" for p
    by (cases p) (auto simp: live_refs_def held_def booked_def loop_world_def count_ptr_single
        world_init_def)
qed

text \<open>
  Opening a file asynchronously adds a second reference, which the pending request owns,
  and gives it back when the request could not even be started.
\<close>

lemma file_open_ok:
  assumes closes: "closes_loops env" and inits: "inits env ''uv_fs_open''" and inv: "winv E w"
    and loop: "loops w l \<noteq> None"
  shows "ok (\<lambda>(a, w'). \<exists>i. handles w' a = Some i \<and> vars w' = vars w \<and>
      winv (if h_uv_error i < 0 then inc (HandleO a) E else inc (HandleO a) (inc (HandleO a) E)) w')
    (file_open env (Some l) path flags mode (Some c) w)"
proof -
  obtain a w1 where create: "handle_create If_file w = (a, w1)" by force
  note w1 = handle_create_ok [OF inv create]
  define i2 where "i2 = (handle_init If_file)\<lparr>h_refs := 2, h_file := file_properties_init\<lparr>open_cb := Some c\<rparr>\<rparr>"
  define w2 where "w2 = handle_put a i2 w1"
  have refs: "h_refs (handle_init If_file) = 1" "h_loop (handle_init If_file) = None"
    by (simp_all add: handle_init_def)
  have w2: "winv (inc (HandleO a) (inc (HandleO a) E)) w2" "handles w2 a = Some i2"
    "vars w2 = vars w" "loops w2 = loops w"
    using winv_handle_up [OF w1(1,2), of i2] refs w1
    by (simp_all add: w2_def i2_def store_simps)
  have i2: "h_uv_error i2 = 0" "h_loop i2 = None" "h_refs i2 = 2"
    by (simp_all add: i2_def handle_init_def)
  let ?args = "[Ptr (Some l), Str path, Num flags, Num mode, Callback True]"
  let ?e = "Call ''uv_fs_open'' (Ptr (Some a) # ?args)"
  have pre: "rbind (handle_ref a w1) (\<lambda>w. rbind (file_mod a (\<lambda>p. p\<lparr>open_cb := Some c\<rparr>) w)
      (\<lambda>w. rbind (handle_set_status a 0 w) k)) = k w2" for k :: "world \<Rightarrow> (addr \<times> world) res"
    using w1(2)
    by (simp add: handle_ref_def file_mod_def store_simps handle_set_status_eq w2_def i2_def
        handle_init_def)
  from winv_uv_on_handle [OF w2(1,2), of env "''uv_fs_open''" ?args] obtain r w3 i3
    where r3: "uv_on_handle env ''uv_fs_open'' a ?args w2 = Inr (r, w3)"
    and w3: "winv (inc (HandleO a) (inc (HandleO a) E)) w3" "vars w3 = vars w" "loops w3 = loops w"
      "handles w3 a = Some i3"
    and r: "r = uv_ret env (trace w2) ?e" and i3: "i3 = i2\<lparr>h_uv := uv_eff env (trace w2) ?e (h_uv i2)\<rparr>"
    using w2 by (auto simp: ok_iff)
  have front: "file_open env (Some l) path flags mode (Some c) w =
      rbind (if 0 \<le> r then book_loop env a w3
             else rbind (handle_set_status a r w3) (\<lambda>w. handle_unref env a w)) (\<lambda>w. Inr (a, w))"
    by (simp add: file_open_def create pre r3)
  show ?thesis
  proof (cases "0 \<le> r")
    case True
    have l: "u_loop (h_uv i3) = Some l"
      using inits True r by (simp add: inits_def i3)
    from loop w3(3) obtain li where li: "loops w3 l = Some li" by auto
    have none: "h_loop i3 = None" "h_uv_error i3 = 0" by (simp_all add: i3 i2)
    from book_loop_ok [where env = env, OF w3(1,4) none(1) l li] True none(2) w3(2) show ?thesis
      by (auto simp: front ok_iff intro!: exI [of _ "i3\<lparr>h_loop := Some l\<rparr>"])
  next
    case False
    let ?j = "i3\<lparr>h_uv_error := r\<rparr>"
    have "winv (inc (HandleO a) (inc (HandleO a) E)) (handle_put a ?j w3)"
      by (rule winv_handle_put [OF w3(1,4)]) simp_all
    then have "winv (inc (HandleO a) E) (handle_put a (?j\<lparr>h_refs := 1\<rparr>) (handle_put a ?j w3))"
      by (rule winv_handle_down [where i = ?j]) (simp_all add: store_simps i3 i2)
    moreover have "handle_unref env a (handle_put a ?j w3) = Inr (handle_put a (?j\<lparr>h_refs := 1\<rparr>) w3)"
      by (simp add: handle_unref_def ref_count_dec_def store_simps i3 i2)
    ultimately show ?thesis
      using False w3 by (simp add: front handle_set_status_eq store_simps)
  qed
qed

text \<open>
  The handler of the completed open request calls the client with a copy of the handle and
  uses up the reference the request owned.
\<close>

lemma file_open_cb_course:
  assumes "winv E w" "handles w a = Some i" "file_open_cb env a w = Inr w'"
  shows "gives_copy env (open_cb (h_file i)) a [] (i\<lparr>h_uv_error := c_int (u_result (h_uv i))\<rparr>) (handle_unref env a) w w'"
proof -
  have "0 < h_refs (i\<lparr>h_uv_error := c_int (u_result (h_uv i))\<rparr>)" using winv_refs_pos(1) [OF assms(1,2)] by simp
  from assms(2,3) gives_copyI [OF assms(1) this, of "handle_unref env a" _ w' a env "[]" "open_cb (h_file i)"] show ?thesis
    by (auto simp: file_open_cb_def store_simps rbind_eq_Inr)
qed

lemma file_open_cb_ok:
  assumes "client_ok K env" "winv (inc (HandleO a) E) w"
  shows "ok (grown K E) (file_open_cb env a w)"
proof -
  from winv_owned_live [OF assms(2)] obtain i where i: "handles w a = Some i"
    by (auto simp: live_handle)
  let ?i = "i\<lparr>h_uv_error := c_int (u_result (h_uv i))\<rparr>"
  let ?w = "handle_put a ?i w"
  have w1: "winv (inc (HandleO a) E) ?w" by (rule winv_handle_put [OF assms(2) i]) simp_all
  have live: "live_refs ?w (HandleO a) \<noteq> None" by (simp add: live_handle store_simps)
  have "ok (grown K (inc (HandleO a) E)) (case open_cb (h_file ?i) of
       None \<Rightarrow> Inr ?w | Some c \<Rightarrow> with_handle env a (\<lambda>v. usr env c [v] []) ?w)"
    using w1 ok_weaken [OF call_handle_grown [OF assms(1) w1 live, of "[]", simplified]]
    by (auto intro: grownI split: option.split)
  then obtain w2 where r2: "(case open_cb (h_file ?i) of
       None \<Rightarrow> Inr ?w | Some c \<Rightarrow> with_handle env a (\<lambda>v. usr env c [v] []) ?w) = Inr w2"
    and "grown K (inc (HandleO a) E) w2" by (auto simp: ok_iff)
  from grown_inc [OF this(2)] obtain F where F: "winv (inc (HandleO a) F) w2" "above K E F" .
  from grown_weaken [OF handle_unref_ok [OF client_ok_dest(1) [OF assms(1)] F(1)] F(2)]
  show ?thesis using i r2 by (simp add: file_open_cb_def store_simps)
qed

text \<open>
  C22: Opening a file synchronously yields one reference to a new handle, which has booked the
  loop exactly when the file could be opened. Opening it asynchronously adds a second reference,
  which the pending request owns, or gives that back when the request could not even be started;
  the handler of the completed request records the result as the status, calls the client with a copy
  of the handle, if there is a callback, and then releases the reference of the request.
\<close>

theorem file_open_life:
  assumes "client_ok K env" "inits env ''uv_fs_open''" "winv E w" "loops w l \<noteq> None"
  shows "ok (\<lambda>(a, w'). winv (inc (HandleO a) E) w' \<and> vars w' = vars w \<and>
      (\<exists>i. handles w' a = Some i \<and> h_iface i = If_file \<and> h_refs i = 1 \<and>
        h_loop i = (if h_uv_error i < 0 then None else Some l)))
      (file_open_sync env (Some l) path flags mode w) \<and>
    ok (\<lambda>(a, w'). \<exists>i. handles w' a = Some i \<and> vars w' = vars w \<and>
      winv (if h_uv_error i < 0 then inc (HandleO a) E else inc (HandleO a) (inc (HandleO a) E)) w')
      (file_open env (Some l) path flags mode (Some c) w) \<and>
    (winv (inc (HandleO h) F) u \<and> handles u h = Some j \<longrightarrow>
      ok (\<lambda>u'. grown K F u' \<and> gives_copy env (open_cb (h_file j)) h []
        (j\<lparr>h_uv_error := c_int (u_result (h_uv j))\<rparr>) (handle_unref env h) u u') (file_open_cb env h u))"
proof (intro conjI impI)
  assume "winv (inc (HandleO h) F) u \<and> handles u h = Some j"
  with file_open_cb_ok [OF assms(1), of h F u] file_open_cb_course [of "inc (HandleO h) F" u h j env]
  show "ok (\<lambda>u'. grown K F u' \<and> gives_copy env (open_cb (h_file j)) h []
        (j\<lparr>h_uv_error := c_int (u_result (h_uv j))\<rparr>) (handle_unref env h) u u') (file_open_cb env h u)"
    by (auto simp: ok_iff)
qed (rule file_open_sync_ok [OF assms(2-4)], rule file_open_ok [OF client_ok_dest(1) [OF assms(1)] assms(2-4)])

lemma file_open_life_witness:
  "ok (\<lambda>(a, w'). winv (inc (HandleO a) (\<lambda>_. 0)) w' \<and> vars w' = vars loop_world \<and>
      (\<exists>i. handles w' a = Some i \<and> h_iface i = If_file \<and> h_refs i = 1 \<and>
        h_loop i = (if h_uv_error i < 0 then None else Some 0)))
      (file_open_sync quiet_env (Some 0) ''/tmp/x'' 0 0 loop_world) \<and>
   ok (\<lambda>(a, w'). \<exists>i. handles w' a = Some i \<and> vars w' = vars loop_world \<and>
      winv (if h_uv_error i < 0 then inc (HandleO a) (\<lambda>_. 0)
            else inc (HandleO a) (inc (HandleO a) (\<lambda>_. 0))) w')
      (file_open quiet_env (Some 0) ''/tmp/x'' 0 0 (Some 9) loop_world) \<and>
   ok (\<lambda>u'. grown {} (inc (BufferO 3) (\<lambda>_. 0)) u' \<and>
      gives_copy quiet_env (open_cb (h_file (stream_example Rd_START 3))) 0 []
        ((stream_example Rd_START 3)\<lparr>h_uv_error := c_int (u_result (h_uv (stream_example Rd_START 3)))\<rparr>)
        (handle_unref quiet_env 0) read_world u') (file_open_cb quiet_env 0 read_world)"
proof -
  have "handles read_world 0 = Some (stream_example Rd_START 3)" by (simp add: read_world_def)
  moreover have "loops loop_world 0 \<noteq> None" by (simp add: loop_world_def)
  moreover have "winv (inc (HandleO 0) (inc (BufferO 3) (\<lambda>_. 0))) read_world"
    using read_world_winv by (simp only: inc_commute [of "HandleO 0"])
  ultimately show ?thesis
    using file_open_life [where K = "{}", OF client_ok_quiet inits_quiet loop_world_winv, of 0 "''/tmp/x''" 0 0 9 0
        "inc (BufferO 3) (\<lambda>_. 0)" read_world "stream_example Rd_START 3"] by blast
qed

definition file_example :: handle_instance where
  "file_example = (handle_init If_file)\<lparr>h_uv := uv_struct_init\<lparr>u_loop := None, u_result := 3\<rparr>,
     h_io := io_properties_init\<lparr>alloc_cb := Some 7, read_cb := Some 8\<rparr>\<rparr>"

definition file_world :: world where
  "file_world = world_init\<lparr>handles := [0 \<mapsto> file_example], vars := [1 \<mapsto> Some (HandleO 0)], nxt := 2\<rparr>"

text \<open>
  Stopping to read from a file does not cancel the request under way: if the handle is
  dropped afterwards, the request's handler finds the instance deleted.
\<close>

theorem file_read_stop_use_after_free:
  "rbind (read_start quiet_env 0 0 0 file_world) (\<lambda>(r, w).
   rbind (read_stop quiet_env 0 w) (\<lambda>(r, w).
   rbind (handle_var_dtor quiet_env 1 w) (\<lambda>w.
   file_read_cb quiet_env 0 10 w))) = Inl Use_after_free"
  unfolding faults_iff [symmetric] by code_simp

definition failing_read_env :: env where
  "failing_read_env = quiet_env\<lparr>uv_ret := (\<lambda>_ e. case e of
     Call f _ \<Rightarrow> if f = ''uv_fs_read'' then UV_EBADF else 0 | _ \<Rightarrow> 0)\<rparr>"

text \<open>
  When a read request of a file cannot be started, the buffer obtained for it is never
  released: reading fails with \<open>UV_EBADF\<close>, and a buffer no variable refers to stays behind.
\<close>

theorem file_read_start_leaks_buffer:
  "ok (\<lambda>(r, w'). r = UV_EBADF \<and> map_option b_refs (buffers w' 3) = Some 1 \<and> vars w' 3 = None)
     (read_start failing_read_env 0 0 0 file_world)"
  by code_simp

end
