(* ===== verification/Uvcc_Stream.thy ===== *)
theory Uvcc_Stream
  imports Uvcc_Io
begin

text \<open>
  \<^verbatim>\<open>handle-stream.hpp\<close> and \<^verbatim>\<open>handle-udp.hpp\<close>: the classes \<open>stream\<close>, \<open>tcp\<close>, \<open>pipe\<close>, \<open>tty\<close> and
  \<open>udp\<close>, accepting connections, and \<open>io::guess_handle()\<close> of \<^verbatim>\<open>handle-io.hpp\<close>.
\<close>

section \<open>Streams\<close>

text \<open>\<open>return uv_status(::f(uv_handle, args))\<close>\<close>

definition status_call :: "env \<Rightarrow> string \<Rightarrow> addr \<Rightarrow> arg list \<Rightarrow> world \<Rightarrow> (int \<times> world) res" where
  "status_call env f a args w = rbind (uv_on_handle env f a args w) (handle_return_status a)"

definition watch_mod :: "addr \<Rightarrow> (watch_properties \<Rightarrow> watch_properties) \<Rightarrow> world \<Rightarrow> world res" where
  "watch_mod a f w = handle_mod a (\<lambda>i. i\<lparr>h_watch := f (h_watch i)\<rparr>) w"

definition stream_listen :: "env \<Rightarrow> addr \<Rightarrow> int \<Rightarrow> cb option \<Rightarrow> world \<Rightarrow> (int \<times> world) res" where
  "stream_listen env a backlog c w =
     rbind (watch_mod a (\<lambda>p. p\<lparr>connection_cb := c\<rparr>) w) (\<lambda>w.
     rbind (handle_set_status a 0 w) (\<lambda>w.
     rbind (uv_on_handle env ''uv_listen'' a [Num backlog, Callback True] w) (\<lambda>(uv_ret, w).
     rbind (if uv_ret < 0 then handle_set_status a uv_ret w else Inr w) (\<lambda>w.
     Inr (uv_ret, w)))))"

definition stream_alloc_cb :: "env \<Rightarrow> addr \<Rightarrow> 64 word \<Rightarrow> world \<Rightarrow> (addr option \<times> world) res" where
  "stream_alloc_cb = io_alloc_cb"

definition stream_read_cb :: "env \<Rightarrow> addr \<Rightarrow> int \<Rightarrow> addr option \<Rightarrow> world \<Rightarrow> world res" where
  "stream_read_cb env a nread base w = io_read_cb env a nread base [Ptr None] w"

definition stream_connection_cb :: "env \<Rightarrow> addr \<Rightarrow> int \<Rightarrow> world \<Rightarrow> world res" where
  "stream_connection_cb env a status w =
     rbind (handle_mod a (\<lambda>i. i\<lparr>h_uv_error := status\<rparr>) w) (\<lambda>w.
     rbind (handle_at a w) (\<lambda>i.
     case connection_cb (h_watch i) of
         None \<Rightarrow> Inr w
       | Some c \<Rightarrow> with_handle env a (\<lambda>v. usr env c [v] []) w))"

definition stream_is_readable :: "env \<Rightarrow> addr \<Rightarrow> world \<Rightarrow> (bool \<times> world) res" where
  "stream_is_readable env a w =
     rbind (status_call env ''uv_is_readable'' a [] w) (\<lambda>(r, w). Inr (r \<noteq> 0, w))"

definition stream_is_writable :: "env \<Rightarrow> addr \<Rightarrow> world \<Rightarrow> (bool \<times> world) res" where
  "stream_is_writable env a w =
     rbind (status_call env ''uv_is_writable'' a [] w) (\<lambda>(r, w). Inr (r \<noteq> 0, w))"

definition stream_set_blocking :: "env \<Rightarrow> addr \<Rightarrow> bool \<Rightarrow> world \<Rightarrow> (int \<times> world) res" where
  "stream_set_blocking env a enable w = status_call env ''uv_stream_set_blocking'' a [Flag enable] w"

section \<open>TCP\<close>

definition tcp_ctor :: "env \<Rightarrow> addr option \<Rightarrow> int \<Rightarrow> world \<Rightarrow> (addr \<times> world) res" where
  "tcp_ctor env l flags w = construct env If_stream ''uv_tcp_init_ex'' l [Num flags] w"

text \<open>
  The constructors that take over a descriptor go on to open it when the handle could be
  initialised, and to set the blocking mode when it could be opened.
\<close>

definition open_on :: "env \<Rightarrow> string \<Rightarrow> int \<Rightarrow> bool \<Rightarrow> (addr \<times> world) \<Rightarrow> (addr \<times> world) res" where
  "open_on env open_fn fd blocking = (\<lambda>(a, w).
     rbind (handle_at a w) (\<lambda>i.
     if h_uv_error i < 0 then Inr (a, w)
     else
       rbind (status_call env open_fn a [Num fd] w) (\<lambda>(uv_ret, w).
       if uv_ret < 0 \<or> \<not> blocking then Inr (a, w)
       else rbind (stream_set_blocking env a True w) (\<lambda>(r, w). Inr (a, w)))))"

definition tcp_from_socket :: "env \<Rightarrow> addr option \<Rightarrow> int \<Rightarrow> bool \<Rightarrow> world \<Rightarrow> (addr \<times> world) res" where
  "tcp_from_socket env l socket blocking w =
     rbind (construct env If_stream ''uv_tcp_init'' l [] w) (open_on env ''uv_tcp_open'' socket blocking)"

definition tcp_socket :: "env \<Rightarrow> addr \<Rightarrow> world \<Rightarrow> (int \<times> world) res" where
  "tcp_socket env a w = handle_fileno env a w"

definition tcp_nodelay :: "env \<Rightarrow> addr \<Rightarrow> bool \<Rightarrow> world \<Rightarrow> (int \<times> world) res" where
  "tcp_nodelay env a enable w = status_call env ''uv_tcp_nodelay'' a [Flag enable] w"

definition tcp_keepalive :: "env \<Rightarrow> addr \<Rightarrow> bool \<Rightarrow> int \<Rightarrow> world \<Rightarrow> (int \<times> world) res" where
  "tcp_keepalive env a enable delay w = status_call env ''uv_tcp_keepalive'' a [Flag enable, Num delay] w"

definition tcp_simultaneous_accepts :: "env \<Rightarrow> addr \<Rightarrow> bool \<Rightarrow> world \<Rightarrow> (int \<times> world) res" where
  "tcp_simultaneous_accepts env a enable w =
     status_call env ''uv_tcp_simultaneous_accepts'' a [Flag enable] w"

definition tcp_bind :: "env \<Rightarrow> addr \<Rightarrow> arg \<Rightarrow> int \<Rightarrow> world \<Rightarrow> (int \<times> world) res" where
  "tcp_bind env a sockaddr flags w = status_call env ''uv_tcp_bind'' a [sockaddr, Num flags] w"

text \<open>
  \<open>getsockname()\<close>: \<open>sz\<close> is \<open>sizeof(_T_)\<close>, and the length libuv stores is read back as an unsigned
  number in the comparison.
\<close>

definition tcp_getsockname :: "env \<Rightarrow> addr \<Rightarrow> 64 word \<Rightarrow> world \<Rightarrow> (bool \<times> world) res" where
  "tcp_getsockname env a sz w =
     rbind (status_call env ''uv_tcp_getsockname'' a [U64 sz] w) (\<lambda>(r, w').
     let z = uv_out env (trace w) (Call ''uv_tcp_getsockname'' [Ptr (Some a), U64 sz])
     in Inr (r \<noteq> 0 \<and> word_of_int z \<le> sz, w'))"

definition tcp_getpeername :: "env \<Rightarrow> addr \<Rightarrow> 64 word \<Rightarrow> world \<Rightarrow> (bool \<times> world) res" where
  "tcp_getpeername env a sz w =
     rbind (status_call env ''uv_tcp_getpeername'' a [U64 sz] w) (\<lambda>(r, w').
     let z = uv_out env (trace w) (Call ''uv_tcp_getpeername'' [Ptr (Some a), U64 sz])
     in Inr (r \<noteq> 0 \<and> word_of_int z \<le> sz, w'))"

text \<open>The buffer sizes of the operating system; the classes \<open>tcp\<close>, \<open>pipe\<close> and \<open>udp\<close> repeat them.\<close>

definition send_buffer_size :: "env \<Rightarrow> addr \<Rightarrow> world \<Rightarrow> (32 word \<times> world) res" where
  "send_buffer_size env a w =
     rbind (status_call env ''uv_send_buffer_size'' a [Num 0] w) (\<lambda>(r, w').
     Inr (word_of_int (uv_out env (trace w) (Call ''uv_send_buffer_size'' [Ptr (Some a), Num 0])), w'))"

definition set_send_buffer_size :: "env \<Rightarrow> addr \<Rightarrow> 32 word \<Rightarrow> world \<Rightarrow> world res" where
  "set_send_buffer_size env a v w =
     rbind (status_call env ''uv_send_buffer_size'' a [Num (uint v)] w) (\<lambda>(r, w). Inr w)"

definition recv_buffer_size :: "env \<Rightarrow> addr \<Rightarrow> world \<Rightarrow> (32 word \<times> world) res" where
  "recv_buffer_size env a w =
     rbind (status_call env ''uv_recv_buffer_size'' a [Num 0] w) (\<lambda>(r, w').
     Inr (word_of_int (uv_out env (trace w) (Call ''uv_recv_buffer_size'' [Ptr (Some a), Num 0])), w'))"

definition set_recv_buffer_size :: "env \<Rightarrow> addr \<Rightarrow> 32 word \<Rightarrow> world \<Rightarrow> world res" where
  "set_recv_buffer_size env a v w =
     rbind (status_call env ''uv_recv_buffer_size'' a [Num (uint v)] w) (\<lambda>(r, w). Inr w)"

definition pipe_send_buffer_size :: "env \<Rightarrow> addr \<Rightarrow> world \<Rightarrow> (32 word \<times> world) res" where
  "pipe_send_buffer_size = send_buffer_size"

definition pipe_set_send_buffer_size :: "env \<Rightarrow> addr \<Rightarrow> 32 word \<Rightarrow> world \<Rightarrow> world res" where
  "pipe_set_send_buffer_size = set_send_buffer_size"

definition pipe_recv_buffer_size :: "env \<Rightarrow> addr \<Rightarrow> world \<Rightarrow> (32 word \<times> world) res" where
  "pipe_recv_buffer_size = recv_buffer_size"

definition pipe_set_recv_buffer_size :: "env \<Rightarrow> addr \<Rightarrow> 32 word \<Rightarrow> world \<Rightarrow> world res" where
  "pipe_set_recv_buffer_size = set_recv_buffer_size"

definition udp_send_buffer_size :: "env \<Rightarrow> addr \<Rightarrow> world \<Rightarrow> (32 word \<times> world) res" where
  "udp_send_buffer_size = send_buffer_size"

definition udp_set_send_buffer_size :: "env \<Rightarrow> addr \<Rightarrow> 32 word \<Rightarrow> world \<Rightarrow> world res" where
  "udp_set_send_buffer_size = set_send_buffer_size"

definition udp_recv_buffer_size :: "env \<Rightarrow> addr \<Rightarrow> world \<Rightarrow> (32 word \<times> world) res" where
  "udp_recv_buffer_size = recv_buffer_size"

definition udp_set_recv_buffer_size :: "env \<Rightarrow> addr \<Rightarrow> 32 word \<Rightarrow> world \<Rightarrow> world res" where
  "udp_set_recv_buffer_size = set_recv_buffer_size"

section \<open>Pipes and terminals\<close>

definition pipe_ctor :: "env \<Rightarrow> addr option \<Rightarrow> bool \<Rightarrow> world \<Rightarrow> (addr \<times> world) res" where
  "pipe_ctor env l ipc w = construct env If_stream ''uv_pipe_init'' l [Num (of_bool ipc)] w"

definition pipe_bound :: "env \<Rightarrow> addr option \<Rightarrow> string \<Rightarrow> bool \<Rightarrow> world \<Rightarrow> (addr \<times> world) res" where
  "pipe_bound env l name ipc w =
     rbind (pipe_ctor env l ipc w) (\<lambda>(a, w).
     rbind (handle_at a w) (\<lambda>i.
     if h_uv_error i < 0 then Inr (a, w)
     else rbind (status_call env ''uv_pipe_bind'' a [Str name] w) (\<lambda>(r, w). Inr (a, w))))"

definition pipe_from_fd :: "env \<Rightarrow> addr option \<Rightarrow> int \<Rightarrow> bool \<Rightarrow> bool \<Rightarrow> world \<Rightarrow> (addr \<times> world) res" where
  "pipe_from_fd env l fd ipc blocking w =
     rbind (pipe_ctor env l ipc w) (open_on env ''uv_pipe_open'' fd blocking)"

definition pipe_ipc :: "addr \<Rightarrow> world \<Rightarrow> int res" where
  "pipe_ipc a w = rbind (handle_at a w) (\<lambda>i. Inr (u_ipc (h_uv i)))"

text \<open>
  \<open>getsockname()\<close> and \<open>getpeername()\<close> of a pipe, for the function \<open>f\<close>: the length of the string
  returned. The loop repeats while libuv asks for more room; \<open>fuel\<close> bounds the rounds.
\<close>

fun pipe_name_loop :: "nat \<Rightarrow> env \<Rightarrow> string \<Rightarrow> addr \<Rightarrow> 64 word \<Rightarrow> world \<Rightarrow> (64 word \<times> world) res" where
  "pipe_name_loop 0 env f a len w = Inl Out_of_fuel"
| "pipe_name_loop (Suc fuel) env f a len w =
     rbind (status_call env f a [U64 len] w) (\<lambda>(r, w').
     if r < 0 \<and> r = UV_ENOBUFS then
       pipe_name_loop fuel env f a
         (word_of_int (uv_out env (trace w) (Call f [Ptr (Some a), U64 len]))) w'
     else Inr (len, w'))"

definition pipe_getsockname :: "nat \<Rightarrow> env \<Rightarrow> addr \<Rightarrow> world \<Rightarrow> (64 word \<times> world) res" where
  "pipe_getsockname fuel env a w = pipe_name_loop fuel env ''uv_pipe_getsockname'' a 108 w"

definition pipe_getpeername :: "nat \<Rightarrow> env \<Rightarrow> addr \<Rightarrow> world \<Rightarrow> (64 word \<times> world) res" where
  "pipe_getpeername fuel env a w = pipe_name_loop fuel env ''uv_pipe_getpeername'' a 108 w"

definition pipe_pending_instances :: "env \<Rightarrow> addr \<Rightarrow> int \<Rightarrow> world \<Rightarrow> world res" where
  "pipe_pending_instances env a count w =
     rbind (uv_on_handle env ''uv_pipe_pending_instances'' a [Num count] w) (\<lambda>(r, w). Inr w)"

definition pipe_pending_handle_count :: "env \<Rightarrow> addr \<Rightarrow> world \<Rightarrow> (int \<times> world) res" where
  "pipe_pending_handle_count env a w = uv_on_handle env ''uv_pipe_pending_count'' a [] w"

definition tty_ctor :: "env \<Rightarrow> addr option \<Rightarrow> int \<Rightarrow> bool \<Rightarrow> bool \<Rightarrow> world \<Rightarrow> (addr \<times> world) res" where
  "tty_ctor env l fd readable blocking w =
     rbind (construct env If_stream ''uv_tty_init'' l [Num fd, Flag readable] w) (\<lambda>(a, w).
     rbind (handle_at a w) (\<lambda>i.
     if h_uv_error i < 0 \<or> \<not> blocking then Inr (a, w)
     else rbind (stream_set_blocking env a True w) (\<lambda>(r, w). Inr (a, w))))"

text \<open>\<open>reset_mode()\<close> is static and returns the result of libuv without storing it.\<close>

definition tty_reset_mode :: "env \<Rightarrow> world \<Rightarrow> int \<times> world" where
  "tty_reset_mode env w = uv env ''uv_tty_reset_mode'' [] w"

definition tty_set_mode :: "env \<Rightarrow> addr \<Rightarrow> int \<Rightarrow> world \<Rightarrow> (int \<times> world) res" where
  "tty_set_mode env a mode w = status_call env ''uv_tty_set_mode'' a [Num mode] w"

definition tty_get_winsize :: "env \<Rightarrow> addr \<Rightarrow> world \<Rightarrow> (int \<times> world) res" where
  "tty_get_winsize env a w = status_call env ''uv_tty_get_winsize'' a [] w"

section \<open>Accepting\<close>

text \<open>
  The common end of \<open>accept()\<close> and \<open>accept_pending_handle()\<close>: an initialised client accepts the
  connection, and the status of both handles tells how it went.
\<close>

definition accept_on :: "env \<Rightarrow> addr \<Rightarrow> addr \<times> world \<Rightarrow> (addr \<times> world) res" where
  "accept_on env a = (\<lambda>(client, w).
     rbind (handle_at client w) (\<lambda>i.
     if h_uv_error i < 0 then
       rbind (handle_set_status a (h_uv_error i) w) (\<lambda>w. Inr (client, w))
     else
       rbind (status_call env ''uv_accept'' a [Ptr (Some client)] w) (\<lambda>(uv_ret, w).
       if uv_ret < 0 then rbind (handle_set_status client uv_ret w) (\<lambda>w. Inr (client, w))
       else Inr (client, w))))"

text \<open>
  A client is created for pipes and TCP only; otherwise the status is stored through the null
  pointer of the variable \<open>client\<close>.
\<close>

definition stream_accept :: "env \<Rightarrow> addr \<Rightarrow> world \<Rightarrow> (addr \<times> world) res" where
  "stream_accept env a w =
     rbind (handle_at a w) (\<lambda>i.
     rbind (case u_type (h_uv i) of
              UV_NAMED_PIPE \<Rightarrow>
                construct env If_stream ''uv_pipe_init'' (u_loop (h_uv i)) [Num (u_ipc (h_uv i))] w
            | UV_TCP \<Rightarrow> construct env If_stream ''uv_tcp_init'' (u_loop (h_uv i)) [] w
            | UV_TTY \<Rightarrow> rbind (deref None) (\<lambda>client. rbind (handle_set_status client UV_ENOTSUP w) (\<lambda>w. Inr (client, w)))
            | _ \<Rightarrow> rbind (deref None) (\<lambda>client. rbind (handle_set_status client UV_EBADF w) (\<lambda>w. Inr (client, w))))
       (accept_on env a))"

definition pipe_accept_pending_handle :: "env \<Rightarrow> addr \<Rightarrow> world \<Rightarrow> (addr \<times> world) res" where
  "pipe_accept_pending_handle env a w =
     rbind (uv_on_handle env ''uv_pipe_pending_type'' a [] w) (\<lambda>(t, w).
     rbind (handle_at a w) (\<lambda>i.
     rbind (case uv_handle_type_of t of
              UV_NAMED_PIPE \<Rightarrow>
                construct env If_stream ''uv_pipe_init'' (u_loop (h_uv i)) [Num (u_ipc (h_uv i))] w
            | UV_TCP \<Rightarrow> construct env If_stream ''uv_tcp_init'' (u_loop (h_uv i)) [] w
            | _ \<Rightarrow> rbind (deref None) (\<lambda>client. rbind (handle_set_status client UV_EBADF w) (\<lambda>w. Inr (client, w))))
       (accept_on env a)))"

section \<open>UDP\<close>

definition udp_ctor :: "env \<Rightarrow> addr option \<Rightarrow> int \<Rightarrow> world \<Rightarrow> (addr \<times> world) res" where
  "udp_ctor env l flags w = construct env If_udp ''uv_udp_init_ex'' l [Num flags] w"

definition udp_from_socket :: "env \<Rightarrow> addr option \<Rightarrow> int \<Rightarrow> world \<Rightarrow> (addr \<times> world) res" where
  "udp_from_socket env l socket w =
     rbind (construct env If_udp ''uv_udp_init'' l [] w) (\<lambda>(a, w).
     rbind (handle_at a w) (\<lambda>i.
     if h_uv_error i < 0 then Inr (a, w)
     else rbind (status_call env ''uv_udp_open'' a [Num socket] w) (\<lambda>(r, w). Inr (a, w))))"

definition udp_socket :: "env \<Rightarrow> addr \<Rightarrow> world \<Rightarrow> (int \<times> world) res" where
  "udp_socket env a w = handle_fileno env a w"

definition udp_set_multicast_membership ::
  "env \<Rightarrow> addr \<Rightarrow> string \<Rightarrow> string \<Rightarrow> int \<Rightarrow> world \<Rightarrow> (int \<times> world) res" where
  "udp_set_multicast_membership env a multicast_addr interface_addr membership w =
     status_call env ''uv_udp_set_membership'' a
       [Str multicast_addr, Str interface_addr, Num membership] w"

definition udp_set_multicast_loop :: "env \<Rightarrow> addr \<Rightarrow> bool \<Rightarrow> world \<Rightarrow> (int \<times> world) res" where
  "udp_set_multicast_loop env a enable w = status_call env ''uv_udp_set_multicast_loop'' a [Flag enable] w"

definition udp_set_multicast_ttl :: "env \<Rightarrow> addr \<Rightarrow> int \<Rightarrow> world \<Rightarrow> (int \<times> world) res" where
  "udp_set_multicast_ttl env a v w = status_call env ''uv_udp_set_multicast_ttl'' a [Num v] w"

definition udp_set_multicast_interface :: "env \<Rightarrow> addr \<Rightarrow> string \<Rightarrow> world \<Rightarrow> (int \<times> world) res" where
  "udp_set_multicast_interface env a interface_addr w =
     status_call env ''uv_udp_set_multicast_interface'' a [Str interface_addr] w"

definition udp_set_broadcast :: "env \<Rightarrow> addr \<Rightarrow> bool \<Rightarrow> world \<Rightarrow> (int \<times> world) res" where
  "udp_set_broadcast env a enable w = status_call env ''uv_udp_set_broadcast'' a [Flag enable] w"

definition udp_set_ttl :: "env \<Rightarrow> addr \<Rightarrow> int \<Rightarrow> world \<Rightarrow> (int \<times> world) res" where
  "udp_set_ttl env a v w = status_call env ''uv_udp_set_ttl'' a [Num v] w"

definition udp_bind :: "env \<Rightarrow> addr \<Rightarrow> arg \<Rightarrow> int \<Rightarrow> world \<Rightarrow> (int \<times> world) res" where
  "udp_bind env a sockaddr flags w = status_call env ''uv_udp_bind'' a [sockaddr, Num flags] w"

definition udp_getsockname :: "env \<Rightarrow> addr \<Rightarrow> 64 word \<Rightarrow> world \<Rightarrow> (bool \<times> world) res" where
  "udp_getsockname env a sz w =
     rbind (status_call env ''uv_udp_getsockname'' a [U64 sz] w) (\<lambda>(r, w').
     let z = uv_out env (trace w) (Call ''uv_udp_getsockname'' [Ptr (Some a), U64 sz])
     in Inr (0 \<le> r \<and> word_of_int z \<le> sz, w'))"

text \<open>\<open>recv_start()\<close> and \<open>recv_stop()\<close> are the reading commands with the default offset.\<close>

definition udp_recv_start :: "env \<Rightarrow> addr \<Rightarrow> 64 word \<Rightarrow> world \<Rightarrow> (int \<times> world) res" where
  "udp_recv_start env a sz w = read_start env a sz (-1) w"

definition udp_recv_start_with ::
  "env \<Rightarrow> addr \<Rightarrow> cb option \<Rightarrow> cb option \<Rightarrow> 64 word \<Rightarrow> world \<Rightarrow> (int \<times> world) res" where
  "udp_recv_start_with env a alloc recv sz w = read_start_with env a alloc recv sz (-1) w"

definition udp_recv_stop :: "env \<Rightarrow> addr \<Rightarrow> world \<Rightarrow> (int \<times> world) res" where
  "udp_recv_stop env a w = read_stop env a w"

definition udp_alloc_cb :: "env \<Rightarrow> addr \<Rightarrow> 64 word \<Rightarrow> world \<Rightarrow> (addr option \<times> world) res" where
  "udp_alloc_cb = io_alloc_cb"

definition udp_recv_cb :: "env \<Rightarrow> addr \<Rightarrow> int \<Rightarrow> addr option \<Rightarrow> arg \<Rightarrow> int \<Rightarrow> world \<Rightarrow> world res" where
  "udp_recv_cb env a nread base sockaddr flags w = io_read_cb env a nread base [sockaddr, Num flags] w"

section \<open>A handle for a descriptor\<close>

text \<open>\<open>guess_handle()\<close>; for an unknown descriptor the status is stored through a null pointer.\<close>

definition guess_handle :: "env \<Rightarrow> addr option \<Rightarrow> int \<Rightarrow> world \<Rightarrow> (addr \<times> world) res" where
  "guess_handle env l fd w =
     (let (t, w) = uv env ''uv_guess_handle'' [Num fd] w in
      case uv_handle_type_of t of
          UV_NAMED_PIPE \<Rightarrow> pipe_from_fd env l fd False False w
        | UV_TCP \<Rightarrow> tcp_from_socket env l fd False w
        | UV_TTY \<Rightarrow> tty_ctor env l fd True False w
        | UV_UDP \<Rightarrow> udp_from_socket env l fd w
        | UV_FILE \<Rightarrow> file_from_fd env l fd None w
        | _ \<Rightarrow> rbind (deref None) (\<lambda>ret. rbind (handle_set_status ret UV_EBADF w) (\<lambda>w. Inr (ret, w))))"

section \<open>Correctness\<close>

text \<open>
  What a call that reports its result as the status does to the handle: the count, the booking
  and the properties stay, and the status is the result.
\<close>

definition like :: "handle_instance \<Rightarrow> handle_instance \<Rightarrow> bool" where
  "like i j \<longleftrightarrow> h_refs j = h_refs i \<and> h_loop j = h_loop i \<and> h_iface j = h_iface i \<and>
     h_io j = h_io i \<and> h_watch j = h_watch i \<and> h_file j = h_file i"

lemma status_call_ok:
  assumes "winv E w" "handles w a = Some i"
  shows "ok (\<lambda>(r, w'). winv E w' \<and> vars w' = vars w \<and> loops w' = loops w \<and>
      r = uv_ret env (trace w) (Call f (Ptr (Some a) # args)) \<and>
      (\<forall>b. b \<noteq> a \<longrightarrow> handles w' b = handles w b) \<and>
      (\<exists>j. handles w' a = Some j \<and> like i j \<and> h_uv_error j = r)) (status_call env f a args w)"
proof -
  let ?e = "Call f (Ptr (Some a) # args)"
  let ?j = "i\<lparr>h_uv := uv_eff env (trace w) ?e (h_uv i)\<rparr>"
  from winv_uv_on_handle [OF assms, of env f args] obtain w1
    where w1: "uv_on_handle env f a args w = Inr (uv_ret env (trace w) ?e, w1)" "winv E w1"
      "vars w1 = vars w" "loops w1 = loops w" "handles w1 = (handles w)(a \<mapsto> ?j)"
    by (auto simp: ok_iff)
  from w1(5) have "handles w1 a = Some ?j" by simp
  from winv_handle_set_status [OF w1(2) this, of "uv_ret env (trace w) ?e"] show ?thesis
    by (auto simp: status_call_def handle_return_status_def w1 like_def ok_iff)
qed

text \<open>The state a constructor leaves: one reference to a new handle on the loop \<open>l\<close>.\<close>

definition constructed :: "(obj \<Rightarrow> nat) \<Rightarrow> iface \<Rightarrow> addr \<Rightarrow> world \<Rightarrow> addr \<times> world \<Rightarrow> bool" where
  "constructed E f l w = (\<lambda>(a, w'). winv (inc (HandleO a) E) w' \<and> vars w' = vars w \<and>
     handles w a = None \<and>
     (\<exists>i. handles w' a = Some i \<and> h_iface i = f \<and> h_refs i = 1 \<and> h_io i = io_properties_init \<and>
        h_watch i = watch_properties_init \<and> (0 \<le> h_uv_error i \<longrightarrow> h_loop i = Some l)))"

lemma construct_constructed:
  assumes "inits env init" "winv E w" "loops w l \<noteq> None"
  shows "ok (constructed E f l w) (construct env f init (Some l) args w)"
  by (rule ok_weaken [OF construct_ok [OF assms]]) (auto simp: constructed_def)

lemma constructed_status_call:
  assumes "constructed E f l w (a, w1)" "handles w1 a = Some i" "0 \<le> h_uv_error i"
  shows "ok (\<lambda>(r, w'). constructed E f l w (a, w') \<and>
      (\<exists>j. handles w' a = Some j \<and> h_uv_error j = r)) (status_call env g a args w1)"
  using status_call_ok [of "inc (HandleO a) E" w1 a i env g args] assms
  by (auto simp: constructed_def like_def ok_iff)

lemma constructed_dest:
  assumes "constructed E f l w (a, w1)"
  obtains i where "handles w1 a = Some i"
  using assms by (auto simp: constructed_def)

lemma open_on_ok:
  assumes "constructed E f l w x"
  shows "ok (constructed E f l w) (open_on env open_fn fd blocking x)"
proof -
  obtain a w1 where x: "x = (a, w1)" by force
  from constructed_dest [OF assms [unfolded x]] obtain i where i: "handles w1 a = Some i" .
  show ?thesis
  proof (cases "h_uv_error i < 0")
    case True
    with i assms show ?thesis by (simp add: open_on_def x)
  next
    case False
    with constructed_status_call [OF assms [unfolded x] i] obtain r w2 j
      where s: "status_call env open_fn a [Num fd] w1 = Inr (r, w2)"
      and w2: "constructed E f l w (a, w2)" "handles w2 a = Some j" "h_uv_error j = r"
      by (force simp: ok_iff)
    show ?thesis
    proof (cases "r < 0 \<or> \<not> blocking")
      case True
      with i False s w2 show ?thesis by (auto simp: open_on_def x)
    next
      case nb: False
      with constructed_status_call [OF w2(1,2), of env "''uv_stream_set_blocking''" "[Flag True]"] w2(3)
      show ?thesis
        using i False s by (auto simp: open_on_def x stream_set_blocking_def ok_iff)
    qed
  qed
qed

lemma ok_bind_constructed:
  "ok (constructed E f l w) m \<Longrightarrow> (\<And>x. constructed E f l w x \<Longrightarrow> ok (constructed E f l w) (k x)) \<Longrightarrow>
   ok (constructed E f l w) (rbind m k)"
  by (rule ok_bind)

text \<open>
  C20: Every constructor of the stream and datagram classes yields exactly one reference to a
  new handle, whatever libuv answers to the calls it makes; when it ends with a status that is
  no error, the handle has booked its loop.
\<close>

theorem stream_constructors_ok:
  assumes "library_inits env" "winv E w" "loops w l \<noteq> None"
  shows "ok (constructed E If_stream l w) (tcp_ctor env (Some l) flags w) \<and>
    ok (constructed E If_stream l w) (tcp_from_socket env (Some l) fd blocking w) \<and>
    ok (constructed E If_stream l w) (pipe_ctor env (Some l) ipc w) \<and>
    ok (constructed E If_stream l w) (pipe_from_fd env (Some l) fd ipc blocking w) \<and>
    ok (constructed E If_stream l w) (pipe_bound env (Some l) name ipc w) \<and>
    ok (constructed E If_stream l w) (tty_ctor env (Some l) fd readable blocking w) \<and>
    ok (constructed E If_udp l w) (udp_ctor env (Some l) flags w) \<and>
    ok (constructed E If_udp l w) (udp_from_socket env (Some l) fd w)"
proof -
  note c = library_inits_calls [OF assms(1), THEN construct_constructed, OF assms(2,3)]
  have tail: "ok (constructed E f l w) (case x of (a, w') \<Rightarrow> rbind (handle_at a w') (\<lambda>i.
      if h_uv_error i < 0 \<or> skip then Inr (a, w')
      else rbind (status_call env g a args w') (\<lambda>(r, w'). Inr (a, w'))))"
    if "constructed E f l w x" for x f g args skip
  proof -
    obtain a w1 where x: "x = (a, w1)" by force
    from constructed_dest [OF that [unfolded x]] obtain i where i: "handles w1 a = Some i" .
    show ?thesis
      using i constructed_status_call [OF that [unfolded x] i, of env g args] that
      by (auto simp: x ok_iff)
  qed
  have "ok (constructed E If_stream l w) (tty_ctor env (Some l) fd readable blocking w)"
    unfolding tty_ctor_def stream_set_blocking_def by (rule ok_bind_constructed [OF c(4) tail])
  moreover have "ok (constructed E If_stream l w) (pipe_bound env (Some l) name ipc w)"
    unfolding pipe_bound_def pipe_ctor_def
    by (rule ok_bind_constructed [OF c(3) tail [where skip = False, simplified]])
  moreover have "ok (constructed E If_udp l w) (udp_from_socket env (Some l) fd w)"
    unfolding udp_from_socket_def
    by (rule ok_bind_constructed [OF c(5) tail [where skip = False, simplified]])
  ultimately show ?thesis
    unfolding tcp_ctor_def tcp_from_socket_def pipe_ctor_def pipe_from_fd_def udp_ctor_def
    by (intro conjI c ok_bind_constructed [OF c(1) open_on_ok] ok_bind_constructed [OF c(3) open_on_ok])
qed

lemma stream_constructors_ok_witness:
  "ok (constructed (\<lambda>_. 0) If_stream 0 loop_world) (tcp_ctor quiet_env (Some 0) 0 loop_world) \<and>
    ok (constructed (\<lambda>_. 0) If_stream 0 loop_world) (tcp_from_socket quiet_env (Some 0) 5 True loop_world) \<and>
    ok (constructed (\<lambda>_. 0) If_stream 0 loop_world) (pipe_ctor quiet_env (Some 0) True loop_world) \<and>
    ok (constructed (\<lambda>_. 0) If_stream 0 loop_world) (pipe_from_fd quiet_env (Some 0) 5 True True loop_world) \<and>
    ok (constructed (\<lambda>_. 0) If_stream 0 loop_world) (pipe_bound quiet_env (Some 0) ''p'' True loop_world) \<and>
    ok (constructed (\<lambda>_. 0) If_stream 0 loop_world) (tty_ctor quiet_env (Some 0) 5 True True loop_world) \<and>
    ok (constructed (\<lambda>_. 0) If_udp 0 loop_world) (udp_ctor quiet_env (Some 0) 0 loop_world) \<and>
    ok (constructed (\<lambda>_. 0) If_udp 0 loop_world) (udp_from_socket quiet_env (Some 0) 5 loop_world)"
  by (rule stream_constructors_ok [OF library_inits_quiet loop_world_winv]) (simp add: loop_world_def)

text \<open>
  C36: The name of a UDP socket is reported exactly when libuv has delivered it and it fits; the
  same member functions of a TCP handle test the status for being non-zero, so that they answer
  the opposite: false for a name delivered, and true after an error.
\<close>

theorem socket_names:
  assumes "handles w a = Some i"
  shows "let udp_call = Call ''uv_udp_getsockname'' [Ptr (Some a), U64 sz];
             tcp_call = Call ''uv_tcp_getsockname'' [Ptr (Some a), U64 sz] in
    (\<exists>w1. udp_getsockname env a sz w = Inr
      (0 \<le> uv_ret env (trace w) udp_call \<and> word_of_int (uv_out env (trace w) udp_call) \<le> sz, w1)) \<and>
    (\<exists>w1 b. tcp_getsockname env a sz w = Inr (b, w1) \<and>
      (uv_ret env (trace w) tcp_call = 0 \<longrightarrow> \<not> b) \<and>
      (uv_ret env (trace w) tcp_call < 0 \<longrightarrow> b = (word_of_int (uv_out env (trace w) tcp_call) \<le> sz)))"
  using assms
  by (auto simp: udp_getsockname_def tcp_getsockname_def status_call_def uv_on_handle_eq
      handle_return_status_def handle_set_status_eq store_simps Let_def)

lemma socket_names_witness:
  "let udp_call = Call ''uv_udp_getsockname'' [Ptr (Some 0), U64 16];
       tcp_call = Call ''uv_tcp_getsockname'' [Ptr (Some 0), U64 16] in
    (\<exists>w1. udp_getsockname quiet_env 0 16 stream_world = Inr
      (0 \<le> uv_ret quiet_env (trace stream_world) udp_call \<and>
       word_of_int (uv_out quiet_env (trace stream_world) udp_call) \<le> (16 :: 64 word), w1)) \<and>
    (\<exists>w1 b. tcp_getsockname quiet_env 0 16 stream_world = Inr (b, w1) \<and>
      (uv_ret quiet_env (trace stream_world) tcp_call = 0 \<longrightarrow> \<not> b) \<and>
      (uv_ret quiet_env (trace stream_world) tcp_call < 0 \<longrightarrow>
        b = (word_of_int (uv_out quiet_env (trace stream_world) tcp_call) \<le> (16 :: 64 word))))"
  by (rule socket_names) (simp add: stream_world_def)

lemma accept_on_ok:
  assumes "constructed E f l w (client, w1)" "a \<noteq> client" "handles w1 a = Some i"
  shows "ok (\<lambda>(c, w'). constructed E f l w (c, w') \<and> c = client \<and>
      (\<exists>i j. handles w' a = Some i \<and> handles w' client = Some j \<and>
        (h_uv_error i < 0 \<longleftrightarrow> h_uv_error j < 0) \<and> (h_uv_error i < 0 \<longrightarrow> h_uv_error i = h_uv_error j)))
    (accept_on env a (client, w1))"
proof -
  from constructed_dest [OF assms(1)] obtain ci where ci: "handles w1 client = Some ci" .
  have inv: "winv (inc (HandleO client) E) w1" using assms(1) by (simp add: constructed_def)
  show ?thesis
  proof (cases "h_uv_error ci < 0")
    case True
    from winv_handle_set_status [OF inv assms(3), of "h_uv_error ci"] obtain w2
      where s: "handle_set_status a (h_uv_error ci) w1 = Inr w2"
        "winv (inc (HandleO client) E) w2" "vars w2 = vars w1"
        "handles w2 = (handles w1)(a \<mapsto> i\<lparr>h_uv_error := h_uv_error ci\<rparr>)"
      by (auto simp: ok_iff)
    then show ?thesis
      using ci True assms(1,2) by (auto simp: accept_on_def constructed_def)
  next
    case False
    from status_call_ok [OF inv assms(3), of env "''uv_accept''" "[Ptr (Some client)]"] obtain r w2 i2
      where s: "status_call env ''uv_accept'' a [Ptr (Some client)] w1 = Inr (r, w2)"
        "winv (inc (HandleO client) E) w2" "vars w2 = vars w1" "handles w2 client = Some ci"
        "handles w2 a = Some i2" "h_uv_error i2 = r"
      using assms(2) ci by (force simp: ok_iff)
    show ?thesis
    proof (cases "r < 0")
      case True
      from winv_handle_set_status [OF s(2,4), of r] obtain w3
        where s3: "handle_set_status client r w2 = Inr w3" "winv (inc (HandleO client) E) w3"
          "vars w3 = vars w2" "handles w3 = (handles w2)(client \<mapsto> ci\<lparr>h_uv_error := r\<rparr>)"
        by (auto simp: ok_iff)
      then show ?thesis
        using ci False True assms(1,2) s by (auto simp: accept_on_def constructed_def)
    next
      case nr: False
      then show ?thesis
        using ci False assms(1,2) s by (auto simp: accept_on_def constructed_def)
    qed
  qed
qed

lemma accepted_ok:
  assumes "library_inits env" "winv E w" "handles w a = Some i"
    and "u_loop (h_uv i) = Some l" "loops w l \<noteq> None"
    and "u_type (h_uv i) = UV_NAMED_PIPE \<or> u_type (h_uv i) = UV_TCP"
  shows "ok (\<lambda>(c, w'). constructed E If_stream l w (c, w') \<and>
      (\<exists>i j. handles w' a = Some i \<and> handles w' c = Some j \<and>
        (h_uv_error i < 0 \<longleftrightarrow> h_uv_error j < 0) \<and> (h_uv_error i < 0 \<longrightarrow> h_uv_error i = h_uv_error j)))
    (stream_accept env a w)"
proof -
  have "ok (\<lambda>(c, w'). constructed E If_stream l w (c, w') \<and>
      (\<exists>i j. handles w' a = Some i \<and> handles w' c = Some j \<and>
        (h_uv_error i < 0 \<longleftrightarrow> h_uv_error j < 0) \<and> (h_uv_error i < 0 \<longrightarrow> h_uv_error i = h_uv_error j)))
    (rbind (construct env If_stream init (Some l) args w) (accept_on env a))"
    if "inits env init" for init args
  proof -
    from construct_ok [where init = init and f = If_stream and args = args and env = env,
        OF that assms(2,5)] obtain c w1
      where c: "construct env If_stream init (Some l) args w = Inr (c, w1)"
        "constructed E If_stream l w (c, w1)" "handles w c = None"
        "\<forall>b. b \<noteq> c \<longrightarrow> handles w1 b = handles w b"
      by (fastforce simp: ok_iff constructed_def)
    have ne: "a \<noteq> c" using assms(3) c(3) by auto
    with assms(3) c(4) have "handles w1 a = Some i" by simp
    from accept_on_ok [OF c(2) ne this, of env] show ?thesis
      by (auto simp: c(1) ok_iff)
  qed
  then show ?thesis using assms(3,4,6) library_inits_calls [OF assms(1)] by (auto simp: stream_accept_def)
qed

text \<open>
  C21: Accepting a connection on a pipe or TCP server yields one reference to a new client handle
  on the server's loop; client and server agree on whether, and why, it failed.
\<close>

theorem stream_accept_ok:
  assumes "library_inits env" "winv E w" "handles w a = Some i"
    and "u_loop (h_uv i) = Some l" "loops w l \<noteq> None"
    and "u_type (h_uv i) = UV_NAMED_PIPE \<or> u_type (h_uv i) = UV_TCP"
  shows "ok (\<lambda>(c, w'). constructed E If_stream l w (c, w') \<and>
      (\<exists>i j. handles w' a = Some i \<and> handles w' c = Some j \<and>
        (h_uv_error i < 0 \<longleftrightarrow> h_uv_error j < 0) \<and> (h_uv_error i < 0 \<longrightarrow> h_uv_error i = h_uv_error j)))
    (stream_accept env a w)"
  by (rule accepted_ok [OF assms])

text \<open>The witness: a listening TCP handle on the loop of \<open>loop_world\<close>.\<close>

definition server :: handle_instance where
  "server = (handle_init If_stream)\<lparr>h_uv := uv_struct_init\<lparr>u_type := UV_TCP, u_loop := Some 0\<rparr>,
     h_loop := Some 0\<rparr>"

definition server_world :: world where
  "server_world = world_init\<lparr>loops := [0 \<mapsto> \<lparr>l_uv_error = 0, l_refs = 2, l_destroy_cb = None,
       l_exit_cb = None\<rparr>], handles := [2 \<mapsto> server],
     vars := [1 \<mapsto> Some (LoopO 0), 3 \<mapsto> Some (HandleO 2)], nxt := 4\<rparr>"

lemma count_ptr_two:
  assumes "u \<noteq> v" "p \<noteq> q"
  shows "count_ptr [v \<mapsto> Some p, u \<mapsto> Some q] r = (if r = p \<or> r = q then 1 else 0)"
proof -
  have "{x. [v \<mapsto> Some p, u \<mapsto> Some q] x = Some (Some r)} = (if r = p then {v} else if r = q then {u} else {})"
    using assms by auto
  then show ?thesis by (simp add: count_ptr_def)
qed

lemma server_world_winv: "winv (\<lambda>_. 0) server_world"
  unfolding winv_def
proof (intro conjI allI)
  show "bounded server_world"
    by (simp add: bounded_def server_world_def world_init_def)
  have "booking server_world = [2 \<mapsto> Some 0]"
    by (auto simp: booking_def server_world_def world_init_def server_def)
  then show "agrees (live_refs server_world p) (held (\<lambda>_. 0) server_world p)" for p
    by (cases p) (auto simp: live_refs_def held_def booked_def server_world_def count_ptr_two
        count_ptr_single server_def owes_def example_defs)
qed

lemma stream_accept_ok_witness:
  "ok (\<lambda>(c, w'). constructed (\<lambda>_. 0) If_stream 0 server_world (c, w') \<and>
      (\<exists>i j. handles w' 2 = Some i \<and> handles w' c = Some j \<and>
        (h_uv_error i < 0 \<longleftrightarrow> h_uv_error j < 0) \<and> (h_uv_error i < 0 \<longrightarrow> h_uv_error i = h_uv_error j)))
    (stream_accept quiet_env 2 server_world)"
  by (rule stream_accept_ok [OF library_inits_quiet server_world_winv, of _ server])
    (simp_all add: server_world_def server_def)

text \<open>
  Where no handle can be created, for a terminal or an unsupported type in \<open>accept()\<close> and
  for an unknown descriptor in \<open>guess_handle()\<close>, the error status the code means to return is
  written through a null pointer.
\<close>

theorem void_handle_status:
  assumes "handles w a = Some i" "u_type (h_uv i) \<noteq> UV_NAMED_PIPE" "u_type (h_uv i) \<noteq> UV_TCP"
    and "uv_handle_type_of (uv_ret env (trace w) (Call ''uv_guess_handle'' [Num fd])) = UV_UNKNOWN_HANDLE"
  shows "stream_accept env a w = Inl Null_deref \<and> guess_handle env l fd w = Inl Null_deref"
  using assms by (cases "u_type (h_uv i)") (simp_all add: stream_accept_def guess_handle_def uv_def)

lemma void_handle_status_witness:
  "stream_accept quiet_env 0 stream_world = Inl Null_deref \<and>
   guess_handle quiet_env None 9 stream_world = Inl Null_deref"
  by (rule void_handle_status [of _ _ "stream_example Rd_UNKNOWN 1"])
    (simp_all add: stream_world_def stream_example_def example_defs quiet_env_def
      uv_handle_type_of_def uv_handle_types_def)

text \<open>
  The handler of an incoming connection calls the client with a copy of the server handle
  and leaves every reference it found.
\<close>

lemma stream_connection_cb_ok:
  assumes "client_ok K env" "winv E w" "handles w a = Some i"
  shows "ok (grown K E) (stream_connection_cb env a status w)"
proof -
  let ?i = "i\<lparr>h_uv_error := status\<rparr>"
  let ?w = "handle_put a ?i w"
  have w1: "winv E ?w" by (rule winv_handle_put [OF assms(2,3)]) simp_all
  have live: "live_refs ?w (HandleO a) \<noteq> None" by (simp add: live_handle store_simps)
  from ok_weaken [OF call_handle_grown [OF assms(1) w1 live, of "[]", simplified]] w1
  show ?thesis
    by (cases "connection_cb (h_watch i)")
      (auto simp: stream_connection_cb_def assms(3) store_simps intro: grownI)
qed

lemma stream_connection_cb_ok_witness:
  "ok (grown {} (\<lambda>_. 0)) (stream_connection_cb quiet_env 2 0 server_world)"
  by (rule stream_connection_cb_ok [OF client_ok_quiet server_world_winv, of _ server])
    (simp add: server_world_def)

end
