(* ===== verification/Uvcc_Watchers.thy ===== *)
theory Uvcc_Watchers
  imports Uvcc_Stream
begin

text \<open>
  \<^verbatim>\<open>handle-misc.hpp\<close> and the \<open>fs_event\<close> class of \<^verbatim>\<open>handle-fs.hpp\<close>: the watchers. A started watcher
  keeps a reference to itself until it is stopped; a timer while it is armed; an \<open>async\<close> handle
  for every event sent.
\<close>

section \<open>Starting and stopping\<close>

text \<open>
  The scheme of \<open>start()\<close> that the classes \<open>idle\<close>, \<open>prepare\<close>, \<open>check\<close>, \<open>poll\<close>, \<open>signal\<close> and
  \<open>fs_event\<close> repeat. \<open>restart\<close> is what the class does before it gives the reference of an
  earlier start back.
\<close>

definition watcher_start ::
  "env \<Rightarrow> opcmd \<Rightarrow> (world \<Rightarrow> world res) \<Rightarrow> string \<Rightarrow> arg list \<Rightarrow> addr \<Rightarrow> world \<Rightarrow> (int \<times> world) res" where
  "watcher_start env cmd restart start args a w =
     rbind (handle_at a w) (\<lambda>i.
     let opcmd_state0 = opcmd_state (h_watch i) in
     rbind (watch_mod a (\<lambda>p. p\<lparr>opcmd_state := cmd\<rparr>) w) (\<lambda>w.
     rbind (handle_ref a w) (\<lambda>w.
     rbind (case opcmd_state0 of
              Op_UNKNOWN \<Rightarrow> Inr w
            | Op_STOP \<Rightarrow> Inr w
            | _ \<Rightarrow> rbind (restart w) (handle_unref env a)) (\<lambda>w.
     rbind (handle_set_status a 0 w) (\<lambda>w.
     rbind (uv_on_handle env start a args w) (\<lambda>(uv_ret, w).
     if uv_ret < 0 then
       rbind (handle_set_status a uv_ret w) (\<lambda>w.
       rbind (watch_mod a (\<lambda>p. p\<lparr>opcmd_state := Op_UNKNOWN\<rparr>) w) (\<lambda>w.
       rbind (handle_unref env a w) (\<lambda>w.
       Inr (uv_ret, w))))
     else Inr (uv_ret, w)))))))"

definition watcher_stop :: "env \<Rightarrow> string \<Rightarrow> addr \<Rightarrow> world \<Rightarrow> (int \<times> world) res" where
  "watcher_stop env stop a w =
     rbind (handle_at a w) (\<lambda>i.
     let opcmd_state0 = opcmd_state (h_watch i) in
     rbind (watch_mod a (\<lambda>p. p\<lparr>opcmd_state := Op_STOP\<rparr>) w) (\<lambda>w.
     rbind (status_call env stop a [] w) (\<lambda>(uv_ret, w).
     rbind (case opcmd_state0 of
              Op_UNKNOWN \<Rightarrow> Inr w
            | Op_STOP \<Rightarrow> Inr w
            | _ \<Rightarrow> handle_unref env a w) (\<lambda>w.
     Inr (uv_ret, w)))))"

text \<open>The handlers pass the event on with a copy of the handle, if there is a callback.\<close>

definition watcher_cb :: "env \<Rightarrow> addr \<Rightarrow> arg list \<Rightarrow> world \<Rightarrow> world res" where
  "watcher_cb env a args w =
     rbind (handle_at a w) (\<lambda>i.
     case event_cb (h_watch i) of
         None \<Rightarrow> Inr w
       | Some c \<Rightarrow> with_handle env a (\<lambda>v. usr env c [v] args) w)"

definition set_event_cb :: "addr \<Rightarrow> cb option \<Rightarrow> world \<Rightarrow> world res" where
  "set_event_cb a c w = watch_mod a (\<lambda>p. p\<lparr>event_cb := c\<rparr>) w"

section \<open>Idle, prepare and check\<close>

text \<open>
  The class template \<open>loop_watcher\<close> is kept in the sources under \<open>#if 0\<close>; the three classes spell it
  out, each with its own functions of libuv.
\<close>

definition loop_watcher_ctor :: "env \<Rightarrow> string \<Rightarrow> addr option \<Rightarrow> world \<Rightarrow> (addr \<times> world) res" where
  "loop_watcher_ctor env init l w = construct env If_handle init l [] w"

definition loop_watcher_start :: "env \<Rightarrow> string \<Rightarrow> addr \<Rightarrow> world \<Rightarrow> (int \<times> world) res" where
  "loop_watcher_start env start a w = watcher_start env Op_START Inr start [Callback True] a w"

definition loop_watcher_start_with ::
  "env \<Rightarrow> string \<Rightarrow> addr \<Rightarrow> cb \<Rightarrow> world \<Rightarrow> (int \<times> world) res" where
  "loop_watcher_start_with env start a c w = rbind (set_event_cb a (Some c) w) (loop_watcher_start env start a)"

definition loop_watcher_stop :: "env \<Rightarrow> string \<Rightarrow> addr \<Rightarrow> world \<Rightarrow> (int \<times> world) res" where
  "loop_watcher_stop env stop a w = watcher_stop env stop a w"

definition loop_watcher_cb :: "env \<Rightarrow> addr \<Rightarrow> world \<Rightarrow> world res" where
  "loop_watcher_cb env a w = watcher_cb env a [] w"

definition idle_ctor :: "env \<Rightarrow> addr option \<Rightarrow> world \<Rightarrow> (addr \<times> world) res" where
  "idle_ctor env l w = construct env If_handle ''uv_idle_init'' l [] w"

definition idle_start :: "env \<Rightarrow> addr \<Rightarrow> world \<Rightarrow> (int \<times> world) res" where
  "idle_start env a w = watcher_start env Op_START Inr ''uv_idle_start'' [Callback True] a w"

definition idle_start_with :: "env \<Rightarrow> addr \<Rightarrow> cb \<Rightarrow> world \<Rightarrow> (int \<times> world) res" where
  "idle_start_with env a c w = rbind (set_event_cb a (Some c) w) (idle_start env a)"

definition idle_stop :: "env \<Rightarrow> addr \<Rightarrow> world \<Rightarrow> (int \<times> world) res" where
  "idle_stop env a w = watcher_stop env ''uv_idle_stop'' a w"

definition idle_cb :: "env \<Rightarrow> addr \<Rightarrow> world \<Rightarrow> world res" where
  "idle_cb env a w = watcher_cb env a [] w"

definition prepare_ctor :: "env \<Rightarrow> addr option \<Rightarrow> world \<Rightarrow> (addr \<times> world) res" where
  "prepare_ctor env l w = construct env If_handle ''uv_prepare_init'' l [] w"

definition prepare_start :: "env \<Rightarrow> addr \<Rightarrow> world \<Rightarrow> (int \<times> world) res" where
  "prepare_start env a w = watcher_start env Op_START Inr ''uv_prepare_start'' [Callback True] a w"

definition prepare_start_with :: "env \<Rightarrow> addr \<Rightarrow> cb \<Rightarrow> world \<Rightarrow> (int \<times> world) res" where
  "prepare_start_with env a c w = rbind (set_event_cb a (Some c) w) (prepare_start env a)"

definition prepare_stop :: "env \<Rightarrow> addr \<Rightarrow> world \<Rightarrow> (int \<times> world) res" where
  "prepare_stop env a w = watcher_stop env ''uv_prepare_stop'' a w"

definition prepare_cb :: "env \<Rightarrow> addr \<Rightarrow> world \<Rightarrow> world res" where
  "prepare_cb env a w = watcher_cb env a [] w"

definition check_ctor :: "env \<Rightarrow> addr option \<Rightarrow> world \<Rightarrow> (addr \<times> world) res" where
  "check_ctor env l w = construct env If_handle ''uv_check_init'' l [] w"

definition check_start :: "env \<Rightarrow> addr \<Rightarrow> world \<Rightarrow> (int \<times> world) res" where
  "check_start env a w = watcher_start env Op_START Inr ''uv_check_start'' [Callback True] a w"

definition check_start_with :: "env \<Rightarrow> addr \<Rightarrow> cb \<Rightarrow> world \<Rightarrow> (int \<times> world) res" where
  "check_start_with env a c w = rbind (set_event_cb a (Some c) w) (check_start env a)"

definition check_stop :: "env \<Rightarrow> addr \<Rightarrow> world \<Rightarrow> (int \<times> world) res" where
  "check_stop env a w = watcher_stop env ''uv_check_stop'' a w"

definition check_cb :: "env \<Rightarrow> addr \<Rightarrow> world \<Rightarrow> world res" where
  "check_cb env a w = watcher_cb env a [] w"

section \<open>Polling, signals, file-system events\<close>

definition poll_ctor :: "env \<Rightarrow> addr option \<Rightarrow> int \<Rightarrow> world \<Rightarrow> (addr \<times> world) res" where
  "poll_ctor env l fd w = construct env If_handle ''uv_poll_init'' l [Num fd] w"

definition poll_start :: "env \<Rightarrow> addr \<Rightarrow> int \<Rightarrow> world \<Rightarrow> (int \<times> world) res" where
  "poll_start env a events w =
     watcher_start env Op_START Inr ''uv_poll_start'' [Num events, Callback True] a w"

definition poll_start_with :: "env \<Rightarrow> addr \<Rightarrow> int \<Rightarrow> cb \<Rightarrow> world \<Rightarrow> (int \<times> world) res" where
  "poll_start_with env a events c w = rbind (set_event_cb a (Some c) w) (poll_start env a events)"

definition poll_stop :: "env \<Rightarrow> addr \<Rightarrow> world \<Rightarrow> (int \<times> world) res" where
  "poll_stop env a w = watcher_stop env ''uv_poll_stop'' a w"

definition poll_cb :: "env \<Rightarrow> addr \<Rightarrow> int \<Rightarrow> int \<Rightarrow> world \<Rightarrow> world res" where
  "poll_cb env a status events w =
     rbind (handle_mod a (\<lambda>i. i\<lparr>h_uv_error := status\<rparr>) w) (watcher_cb env a [Num events])"

definition signal_ctor :: "env \<Rightarrow> addr option \<Rightarrow> int \<Rightarrow> world \<Rightarrow> (addr \<times> world) res" where
  "signal_ctor env l signum w =
     (let (a, w) = handle_create If_handle w in
      rbind (uv_on_handle env ''uv_signal_init'' a [Ptr l] w) (\<lambda>(uv_ret, w).
      rbind (watch_mod a (\<lambda>p. p\<lparr>signum_prop := signum\<rparr>) w) (\<lambda>w.
      rbind (handle_set_status a uv_ret w) (\<lambda>w.
      if uv_ret < 0 then Inr (a, w)
      else rbind (book_loop env a w) (\<lambda>w. Inr (a, w))))))"

definition signal_start_cmd :: "env \<Rightarrow> opcmd \<Rightarrow> addr \<Rightarrow> world \<Rightarrow> (int \<times> world) res" where
  "signal_start_cmd env cmd a w =
     (case cmd of
         Op_UNKNOWN \<Rightarrow> Inl Invalid_argument
       | Op_STOP \<Rightarrow> Inl Invalid_argument
       | _ \<Rightarrow>
           rbind (handle_at a w) (\<lambda>i.
           watcher_start env cmd Inr ''uv_signal_start'' [Callback True, Num (signum_prop (h_watch i))] a w))"

definition signal_signum :: "addr \<Rightarrow> world \<Rightarrow> int res" where
  "signal_signum a w =
     rbind (handle_at a w) (\<lambda>i.
     Inr (if u_signum (h_uv i) \<noteq> 0 then u_signum (h_uv i) else signum_prop (h_watch i)))"

definition signal_start :: "env \<Rightarrow> addr \<Rightarrow> world \<Rightarrow> (int \<times> world) res" where
  "signal_start env a w = signal_start_cmd env Op_START a w"

definition signal_start_with :: "env \<Rightarrow> addr \<Rightarrow> cb \<Rightarrow> world \<Rightarrow> (int \<times> world) res" where
  "signal_start_with env a c w = rbind (set_event_cb a (Some c) w) (signal_start_cmd env Op_START a)"

definition signal_start_signum :: "env \<Rightarrow> addr \<Rightarrow> int \<Rightarrow> cb \<Rightarrow> world \<Rightarrow> (int \<times> world) res" where
  "signal_start_signum env a signum c w =
     rbind (watch_mod a (\<lambda>p. p\<lparr>signum_prop := signum\<rparr>) w) (\<lambda>w.
     rbind (set_event_cb a (Some c) w) (signal_start_cmd env Op_START a))"

definition signal_start_oneshot :: "env \<Rightarrow> addr \<Rightarrow> world \<Rightarrow> (int \<times> world) res" where
  "signal_start_oneshot env a w = signal_start_cmd env Op_START_ONESHOT a w"

definition signal_stop :: "env \<Rightarrow> addr \<Rightarrow> world \<Rightarrow> (int \<times> world) res" where
  "signal_stop env a w = watcher_stop env ''uv_signal_stop'' a w"

definition signal_cb :: "env \<Rightarrow> addr \<Rightarrow> world \<Rightarrow> world res" where
  "signal_cb env a w =
     rbind (handle_at a w) (\<lambda>i.
     if opcmd_state (h_watch i) = Op_START_ONESHOT then
       rbind (watch_mod a (\<lambda>p. p\<lparr>opcmd_state := Op_UNKNOWN\<rparr>) w) (\<lambda>w.
       rbind (watcher_cb env a [Flag True] w) (\<lambda>w.
       handle_unref env a w))
     else watcher_cb env a [Flag False] w)"

definition fs_event_ctor :: "env \<Rightarrow> addr option \<Rightarrow> int \<Rightarrow> world \<Rightarrow> (addr \<times> world) res" where
  "fs_event_ctor env l flags w =
     (let (a, w) = handle_create If_handle w in
      rbind (uv_on_handle env ''uv_fs_event_init'' a [Ptr l] w) (\<lambda>(uv_ret, w).
      rbind (watch_mod a (\<lambda>p. p\<lparr>event_flags := flags\<rparr>) w) (\<lambda>w.
      rbind (handle_set_status a uv_ret w) (\<lambda>w.
      if uv_ret < 0 then Inr (a, w)
      else rbind (book_loop env a w) (\<lambda>w. Inr (a, w))))))"

definition fs_event_start :: "env \<Rightarrow> addr \<Rightarrow> world \<Rightarrow> (int \<times> world) res" where
  "fs_event_start env a w =
     rbind (handle_at a w) (\<lambda>i.
     watcher_start env Op_START
       (\<lambda>w. rbind (status_call env ''uv_fs_event_stop'' a [] w) (\<lambda>(r, w). Inr w))
       ''uv_fs_event_start''
       [Callback True, Str (watch_path (h_watch i)), Num (event_flags (h_watch i))] a w)"

definition fs_event_start_with :: "env \<Rightarrow> addr \<Rightarrow> cb \<Rightarrow> world \<Rightarrow> (int \<times> world) res" where
  "fs_event_start_with env a c w = rbind (set_event_cb a (Some c) w) (fs_event_start env a)"

definition fs_event_start_path :: "env \<Rightarrow> addr \<Rightarrow> string \<Rightarrow> cb \<Rightarrow> world \<Rightarrow> (int \<times> world) res" where
  "fs_event_start_path env a path c w =
     rbind (watch_mod a (\<lambda>p. p\<lparr>watch_path := path\<rparr>) w) (\<lambda>w.
     rbind (set_event_cb a (Some c) w) (fs_event_start env a))"

definition fs_event_stop :: "env \<Rightarrow> addr \<Rightarrow> world \<Rightarrow> (int \<times> world) res" where
  "fs_event_stop env a w = watcher_stop env ''uv_fs_event_stop'' a w"

definition fs_event_cb :: "env \<Rightarrow> addr \<Rightarrow> string \<Rightarrow> int \<Rightarrow> int \<Rightarrow> world \<Rightarrow> world res" where
  "fs_event_cb env a filename events status w =
     rbind (handle_mod a (\<lambda>i. i\<lparr>h_uv_error := status\<rparr>) w) (watcher_cb env a [Str filename, Num events])"

section \<open>Async\<close>

definition async_ctor :: "env \<Rightarrow> addr option \<Rightarrow> world \<Rightarrow> (addr \<times> world) res" where
  "async_ctor env l w = construct env If_handle ''uv_async_init'' l [Callback True] w"

definition async_send :: "env \<Rightarrow> addr \<Rightarrow> world \<Rightarrow> (int \<times> world) res" where
  "async_send env a w =
     rbind (handle_ref a w) (\<lambda>w.
     rbind (handle_set_status a 0 w) (\<lambda>w.
     rbind (uv_on_handle env ''uv_async_send'' a [] w) (\<lambda>(uv_ret, w).
     rbind (if uv_ret < 0 then rbind (handle_set_status a uv_ret w) (handle_unref env a)
            else Inr w) (\<lambda>w.
     Inr (uv_ret, w)))))"

definition async_send_with :: "env \<Rightarrow> addr \<Rightarrow> cb \<Rightarrow> world \<Rightarrow> (int \<times> world) res" where
  "async_send_with env a c w = rbind (set_event_cb a (Some c) w) (async_send env a)"

definition async_cb :: "env \<Rightarrow> addr \<Rightarrow> world \<Rightarrow> world res" where
  "async_cb env a w = rbind (watcher_cb env a [] w) (handle_unref env a)"

section \<open>Timers\<close>

definition timer_ctor :: "env \<Rightarrow> addr option \<Rightarrow> 64 word \<Rightarrow> world \<Rightarrow> (addr \<times> world) res" where
  "timer_ctor env l repeat_interval w =
     (let (a, w) = handle_create If_handle w in
      rbind (uv_on_handle env ''uv_timer_init'' a [Ptr l] w) (\<lambda>(uv_ret, w).
      rbind (handle_set_status a uv_ret w) (\<lambda>w.
      if uv_ret < 0 then Inr (a, w)
      else
        rbind (uv_on_handle env ''uv_timer_set_repeat'' a [U64 repeat_interval] w) (\<lambda>(r, w).
        rbind (book_loop env a w) (\<lambda>w. Inr (a, w))))))"

text \<open>\<open>uv_timer_get_repeat()\<close> reads the interval from the handle.\<close>

definition timer_repeat_interval :: "addr \<Rightarrow> world \<Rightarrow> 64 word res" where
  "timer_repeat_interval a w = rbind (handle_at a w) (\<lambda>i. Inr (u_repeat (h_uv i)))"

definition timer_set_repeat_interval :: "env \<Rightarrow> addr \<Rightarrow> 64 word \<Rightarrow> world \<Rightarrow> world res" where
  "timer_set_repeat_interval env a v w =
     rbind (uv_on_handle env ''uv_timer_set_repeat'' a [U64 v] w) (\<lambda>(r, w). Inr w)"

definition timer_start :: "env \<Rightarrow> addr \<Rightarrow> 64 word \<Rightarrow> world \<Rightarrow> (int \<times> world) res" where
  "timer_start env a timeout w =
     rbind (handle_at a w) (\<lambda>i.
     rbind (if \<not> has_extra_ref (h_watch i) then
              rbind (handle_ref a w) (watch_mod a (\<lambda>p. p\<lparr>has_extra_ref := True\<rparr>))
            else Inr w) (\<lambda>w.
     rbind (handle_set_status a 0 w) (\<lambda>w.
     rbind (timer_repeat_interval a w) (\<lambda>repeat.
     rbind (uv_on_handle env ''uv_timer_start'' a [Callback True, U64 timeout, U64 repeat] w)
       (\<lambda>(uv_ret, w).
     if uv_ret < 0 then
       rbind (handle_set_status a uv_ret w) (\<lambda>w.
       rbind (watch_mod a (\<lambda>p. p\<lparr>has_extra_ref := False\<rparr>) w) (\<lambda>w.
       rbind (handle_unref env a w) (\<lambda>w. Inr (uv_ret, w))))
     else Inr (uv_ret, w))))))"

definition timer_start_with :: "env \<Rightarrow> addr \<Rightarrow> 64 word \<Rightarrow> cb \<Rightarrow> world \<Rightarrow> (int \<times> world) res" where
  "timer_start_with env a timeout c w = rbind (set_event_cb a (Some c) w) (timer_start env a timeout)"

definition timer_stop :: "env \<Rightarrow> addr \<Rightarrow> world \<Rightarrow> (int \<times> world) res" where
  "timer_stop env a w =
     rbind (status_call env ''uv_timer_stop'' a [] w) (\<lambda>(uv_ret, w).
     rbind (handle_at a w) (\<lambda>i.
     if has_extra_ref (h_watch i) then
       rbind (watch_mod a (\<lambda>p. p\<lparr>has_extra_ref := False\<rparr>) w) (\<lambda>w.
       rbind (handle_unref env a w) (\<lambda>w. Inr (uv_ret, w)))
     else Inr (uv_ret, w)))"

text \<open>The handler of a timer that has expired.\<close>

definition timer_cb :: "env \<Rightarrow> addr \<Rightarrow> world \<Rightarrow> world res" where
  "timer_cb env a w =
     rbind (timer_repeat_interval a w) (\<lambda>repeat.
     rbind (handle_at a w) (\<lambda>i.
     if repeat = 0 \<and> has_extra_ref (h_watch i) then
       rbind (watcher_cb env a [] w) (\<lambda>w. handle_unref env a w)
     else watcher_cb env a [] w))"

section \<open>Correctness of the commands\<close>

lemma st_watch_mod [st_simps]:
  "watch_mod a f (st a i tr w) = Inr (st a (i\<lparr>h_watch := f (h_watch i)\<rparr>) tr w)"
  by (simp add: watch_mod_def st_simps)

lemma st_status_call [st_simps]:
  "status_call env f a args (st a i tr w) =
     Inr (uv_ret env tr (Call f (Ptr (Some a) # args)),
          st a (i\<lparr>h_uv := uv_eff env tr (Call f (Ptr (Some a) # args)) (h_uv i),
                  h_uv_error := uv_ret env tr (Call f (Ptr (Some a) # args))\<rparr>)
             (tr @ [Call f (Ptr (Some a) # args)]) w)"
  by (simp add: status_call_def handle_return_status_def st_simps)

text \<open>The part of \<open>owes\<close> that the watcher's state does not concern.\<close>

definition owes_rest :: "handle_instance \<Rightarrow> nat" where
  "owes_rest i = of_bool (reading (rdcmd_state (h_io i)))"

lemma owes_watcher: "owes i = owes_rest i + of_bool (watching (opcmd_state (h_watch i)))
    + of_bool (has_extra_ref (h_watch i))"
  by (simp add: owes_def owes_rest_def)

lemma owes_rest_upd [simp]:
  "owes_rest (i\<lparr>h_refs := c\<rparr>) = owes_rest i" "owes_rest (i\<lparr>h_uv_error := r\<rparr>) = owes_rest i"
  "owes_rest (i\<lparr>h_uv := u\<rparr>) = owes_rest i" "owes_rest (i\<lparr>h_watch := p\<rparr>) = owes_rest i"
  by (simp_all add: owes_rest_def)

definition held_by_others :: "handle_instance \<Rightarrow> bool" where
  "held_by_others i \<longleftrightarrow> int (owes i) < h_refs i"

text \<open>A command leaves the balance of the count and the references the handle owes.\<close>

definition balanced :: "addr \<Rightarrow> handle_instance \<Rightarrow> world \<Rightarrow> (handle_instance \<Rightarrow> bool) \<Rightarrow> world \<Rightarrow> bool" where
  "balanced a i w P w' \<longleftrightarrow> (\<exists>j tr. w' = st a j tr w \<and> h_loop j = h_loop i \<and> h_iface j = h_iface i \<and>
     h_refs j - int (owes j) = h_refs i - int (owes i) \<and> P j)"

lemma balanced_step:
  assumes "balanced a i w P w'" "handles w a = Some i" "held_by_others i"
  obtains j where "handle_step a i j w w'" "held_by_others j" "P j"
proof -
  from assms(1) obtain j tr where j: "w' = st a j tr w" "h_loop j = h_loop i"
    "h_refs j - int (owes j) = h_refs i - int (owes i)" "P j" by (auto simp: balanced_def)
  with assms(2,3) show ?thesis
    by (intro that [of j]) (auto simp: handle_step_st held_by_others_def)
qed

lemma watcher_start_balanced:
  assumes "handles w a = Some i" "held_by_others i" "watching cmd"
    and restart: "\<And>j tr. \<exists>k tr'. restart (st a j tr w) = Inr (st a k tr' w) \<and> h_refs k = h_refs j \<and>
      h_loop k = h_loop j \<and> h_iface k = h_iface j \<and> h_watch k = h_watch j \<and> h_io k = h_io j"
  shows "ok (\<lambda>(r, w'). balanced a i w
      (\<lambda>j. opcmd_state (h_watch j) = (if r < 0 then Op_UNKNOWN else cmd)) w')
    (watcher_start env cmd restart start args a w)"
proof -
  have pos: "0 < h_refs i" using assms(2) by (simp add: held_by_others_def)
  define i1 where "i1 = i\<lparr>h_watch := (h_watch i)\<lparr>opcmd_state := cmd\<rparr>, h_refs := h_refs i + 1\<rparr>"
  have two: "1 < h_refs i" if "watching (opcmd_state (h_watch i))"
    using assms(2) that
    by (cases "has_extra_ref (h_watch i)") (simp_all add: held_by_others_def owes_watcher)
  obtain k tr where k: "(case opcmd_state (h_watch i) of
              Op_UNKNOWN \<Rightarrow> Inr (st a i1 (trace w) w)
            | Op_STOP \<Rightarrow> Inr (st a i1 (trace w) w)
            | _ \<Rightarrow> rbind (restart (st a i1 (trace w) w)) (handle_unref env a)) = Inr (st a k tr w)"
    and k2: "h_refs k = h_refs i + 1 - of_bool (watching (opcmd_state (h_watch i)))"
      "h_loop k = h_loop i" "h_iface k = h_iface i" "opcmd_state (h_watch k) = cmd"
      "has_extra_ref (h_watch k) = has_extra_ref (h_watch i)" "owes_rest k = owes_rest i"
  proof (cases "watching (opcmd_state (h_watch i))")
    case False
    then show ?thesis
      using that [of i1 "trace w"] by (cases "opcmd_state (h_watch i)") (simp_all add: i1_def)
  next
    case True
    obtain k tr where k: "restart (st a i1 (trace w) w) = Inr (st a k tr w)" "h_refs k = h_refs i1"
      "h_loop k = h_loop i1" "h_iface k = h_iface i1" "h_watch k = h_watch i1" "h_io k = h_io i1"
      using restart [of i1 "trace w"] by blast
    have "h_refs k \<noteq> 1" using k(2) pos by (simp add: i1_def)
    then have "rbind (restart (st a i1 (trace w) w)) (handle_unref env a)
        = Inr (st a (k\<lparr>h_refs := h_refs k - 1\<rparr>) tr w)"
      by (simp add: k(1) st_unref)
    moreover have "owes_rest k = owes_rest i" using k(6) by (simp add: owes_rest_def i1_def)
    ultimately show ?thesis
      using True k(2-6)
      by (intro that [of "k\<lparr>h_refs := h_refs k - 1\<rparr>" tr])
        (cases "opcmd_state (h_watch i)"; simp add: i1_def)+
  qed
  have pos_k: "1 < h_refs k" "0 < h_refs k"
    using k2(1) two pos by (cases "watching (opcmd_state (h_watch i))"; simp)+
  have run: "watcher_start env cmd restart start args a (st a i (trace w) w) =
      rbind (handle_set_status a 0 (st a k tr w)) (\<lambda>w.
      rbind (uv_on_handle env start a args w) (\<lambda>(uv_ret, w).
      if uv_ret < 0 then
        rbind (handle_set_status a uv_ret w) (\<lambda>w.
        rbind (watch_mod a (\<lambda>p. p\<lparr>opcmd_state := Op_UNKNOWN\<rparr>) w) (\<lambda>w.
        rbind (handle_unref env a w) (\<lambda>w.
        Inr (uv_ret, w))))
      else Inr (uv_ret, w)))"
  proof -
    have "handle_ref a (st a (i\<lparr>h_watch := (h_watch i)\<lparr>opcmd_state := cmd\<rparr>\<rparr>) (trace w) w)
        = Inr (st a i1 (trace w) w)"
      using pos by (simp add: st_ref i1_def)
    then show ?thesis
      by (simp add: watcher_start_def st_handle_at st_watch_mod Let_def k)
  qed
  have step: "ok (\<lambda>(r, w'). balanced a i w
      (\<lambda>j. opcmd_state (h_watch j) = (if r < 0 then Op_UNKNOWN else cmd)) w')
    (watcher_start env cmd restart start args a (st a i (trace w) w))"
    using pos_k assms(3) k2 unfolding run
    by (cases "watching (opcmd_state (h_watch i))";
        cases "uv_ret env tr (Call start (Ptr (Some a) # args)) < 0")
      (simp_all add: st_simps balanced_def owes_watcher)
  have eq: "watcher_start env cmd restart start args a w =
      watcher_start env cmd restart start args a (st a i (trace w) w)"
    by (rule arg_cong [OF st_id [OF assms(1)]])
  show ?thesis unfolding eq by (rule step)
qed

lemma watcher_stop_balanced:
  assumes "handles w a = Some i" "held_by_others i"
  shows "ok (\<lambda>(r, w'). balanced a i w (\<lambda>j. opcmd_state (h_watch j) = Op_STOP) w')
    (watcher_stop env stop a w)"
proof -
  have "ok (\<lambda>(r, w'). balanced a i w (\<lambda>j. opcmd_state (h_watch j) = Op_STOP) w')
    (watcher_stop env stop a (st a i (trace w) w))"
    using assms(2) unfolding held_by_others_def
    by (cases "opcmd_state (h_watch i)"; cases "has_extra_ref (h_watch i)")
      (simp_all add: watcher_stop_def st_simps Let_def balanced_def owes_watcher)
  then show ?thesis by (subst st_id [OF assms(1)])
qed

lemma timer_start_balanced:
  assumes "handles w a = Some i" "held_by_others i"
  shows "ok (\<lambda>(r, w'). balanced a i w (\<lambda>j. has_extra_ref (h_watch j) = (0 \<le> r)) w')
    (timer_start env a timeout w)"
proof -
  let ?e = "Call ''uv_timer_start'' [Ptr (Some a), Callback True, U64 timeout, U64 (u_repeat (h_uv i))]"
  have "ok (\<lambda>(r, w'). balanced a i w (\<lambda>j. has_extra_ref (h_watch j) = (0 \<le> r)) w')
    (timer_start env a timeout (st a i (trace w) w))"
    using assms(2) unfolding held_by_others_def
    by (cases "watching (opcmd_state (h_watch i))"; cases "has_extra_ref (h_watch i)";
        cases "uv_ret env (trace w) ?e < 0")
      (simp_all add: timer_start_def timer_repeat_interval_def st_simps Let_def balanced_def owes_watcher)
  then show ?thesis by (subst st_id [OF assms(1)])
qed

lemma timer_stop_balanced:
  assumes "handles w a = Some i" "held_by_others i"
  shows "ok (\<lambda>(r, w'). balanced a i w (\<lambda>j. \<not> has_extra_ref (h_watch j)) w') (timer_stop env a w)"
proof -
  have "ok (\<lambda>(r, w'). balanced a i w (\<lambda>j. \<not> has_extra_ref (h_watch j)) w')
    (timer_stop env a (st a i (trace w) w))"
    using assms(2) unfolding held_by_others_def
    by (cases "watching (opcmd_state (h_watch i))"; cases "has_extra_ref (h_watch i)")
      (simp_all add: timer_stop_def st_simps Let_def balanced_def owes_watcher)
  then show ?thesis by (subst st_id [OF assms(1)])
qed

datatype watch_command =
    Start_idle | Stop_idle | Start_prepare | Stop_prepare | Start_check | Stop_check
  | Start_poll int | Stop_poll | Start_signal | Start_oneshot | Stop_signal
  | Start_fs_event | Stop_fs_event | Start_timer "64 word" | Stop_timer

fun watch_exec :: "env \<Rightarrow> watch_command \<Rightarrow> addr \<Rightarrow> world \<Rightarrow> (int \<times> world) res" where
  "watch_exec env Start_idle a w = idle_start env a w"
| "watch_exec env Stop_idle a w = idle_stop env a w"
| "watch_exec env Start_prepare a w = prepare_start env a w"
| "watch_exec env Stop_prepare a w = prepare_stop env a w"
| "watch_exec env Start_check a w = check_start env a w"
| "watch_exec env Stop_check a w = check_stop env a w"
| "watch_exec env (Start_poll events) a w = poll_start env a events w"
| "watch_exec env Stop_poll a w = poll_stop env a w"
| "watch_exec env Start_signal a w = signal_start env a w"
| "watch_exec env Start_oneshot a w = signal_start_oneshot env a w"
| "watch_exec env Stop_signal a w = signal_stop env a w"
| "watch_exec env Start_fs_event a w = fs_event_start env a w"
| "watch_exec env Stop_fs_event a w = fs_event_stop env a w"
| "watch_exec env (Start_timer timeout) a w = timer_start env a timeout w"
| "watch_exec env Stop_timer a w = timer_stop env a w"

text \<open>The state a command leads to, given what libuv has returned.\<close>

fun watch_next :: "watch_command \<Rightarrow> int \<Rightarrow> handle_instance \<Rightarrow> bool" where
  "watch_next (Start_timer timeout) r = (\<lambda>j. has_extra_ref (h_watch j) = (0 \<le> r))"
| "watch_next Stop_timer r = (\<lambda>j. \<not> has_extra_ref (h_watch j))"
| "watch_next Start_oneshot r =
     (\<lambda>j. opcmd_state (h_watch j) = (if r < 0 then Op_UNKNOWN else Op_START_ONESHOT))"
| "watch_next c r =
     (if c \<in> {Stop_idle, Stop_prepare, Stop_check, Stop_poll, Stop_signal, Stop_fs_event}
      then (\<lambda>j. opcmd_state (h_watch j) = Op_STOP)
      else (\<lambda>j. opcmd_state (h_watch j) = (if r < 0 then Op_UNKNOWN else Op_START)))"

lemma restart_none:
  "\<exists>k tr'. Inr (st a j tr w) = (Inr (st a k tr' w) :: world res) \<and> h_refs k = h_refs j \<and>
      h_loop k = h_loop j \<and> h_iface k = h_iface j \<and> h_watch k = h_watch j \<and> h_io k = h_io j"
  by auto

lemma restart_fs_event:
  "\<exists>k tr'. rbind (status_call env f a [] (st a j tr w)) (\<lambda>(r, w). Inr w) = Inr (st a k tr' w) \<and>
      h_refs k = h_refs j \<and> h_loop k = h_loop j \<and> h_iface k = h_iface j \<and> h_watch k = h_watch j \<and>
      h_io k = h_io j"
  by (simp add: st_simps)

lemma watch_exec_balanced:
  assumes "handles w a = Some i" "held_by_others i"
  shows "ok (\<lambda>(r, w'). balanced a i w (watch_next cmd r) w') (watch_exec env cmd a w)"
proof -
  note start = watcher_start_balanced [OF assms _ restart_none, of Op_START, simplified]
  note oneshot = watcher_start_balanced [OF assms _ restart_none, of Op_START_ONESHOT, simplified]
  note fs = watcher_start_balanced [OF assms _ restart_fs_event [of env "''uv_fs_event_stop''"],
      of Op_START, simplified]
  note stop = watcher_stop_balanced [OF assms]
  show ?thesis
    by (cases cmd) (use start oneshot fs stop timer_start_balanced [OF assms] timer_stop_balanced [OF assms]
        assms(1) in \<open>simp_all add: idle_start_def idle_stop_def prepare_start_def prepare_stop_def
        check_start_def check_stop_def poll_start_def poll_stop_def signal_start_def
        signal_start_oneshot_def signal_start_cmd_def signal_stop_def fs_event_start_def fs_event_stop_def
        del: split_paired_All\<close>)
qed

lemma watch_exec_ok:
  assumes "winv E w" "handles w a = Some i" "held_by_others i"
  shows "ok (\<lambda>(r, w'). winv E w' \<and> vars w' = vars w \<and>
      (\<exists>j. handle_step a i j w w' \<and> held_by_others j \<and> watch_next cmd r j)) (watch_exec env cmd a w)"
proof -
  have "winv E w' \<and> vars w' = vars w \<and>
      (\<exists>j. handle_step a i j w w' \<and> held_by_others j \<and> watch_next cmd r j)"
    if b: "balanced a i w (watch_next cmd r) w'" for r w'
  proof -
    from balanced_step [OF b assms(2,3)] obtain j
      where j: "handle_step a i j w w'" "held_by_others j" "watch_next cmd r j" .
    have "0 < h_refs j" using j(2) by (simp add: held_by_others_def)
    with winv_handle_step [OF j(1) assms(1)] j show ?thesis by (auto simp: handle_step_def)
  qed
  then show ?thesis
    by (intro ok_weaken [OF watch_exec_balanced [OF assms(2,3)]]) auto
qed

text \<open>
  C14: Each start and stop of a watcher or timer records the state its outcome calls for, and
  keeps the count of the handle in step with the reference the state stands for, so that the
  invariant of the world is kept and the handle stays alive for its other holders.
\<close>

theorem watch_commands_ok:
  assumes "winv E w" "handles w a = Some i" "held_by_others i"
  shows "ok (\<lambda>(r, w'). winv E w' \<and> vars w' = vars w \<and>
      (\<exists>j. handle_step a i j w w' \<and> held_by_others j \<and> watch_next cmd r j)) (watch_exec env cmd a w)"
  by (rule watch_exec_ok [OF assms])

text \<open>The witness: a started idle watcher held by one variable.\<close>

definition watcher_example :: "opcmd \<Rightarrow> bool \<Rightarrow> int \<Rightarrow> handle_instance" where
  "watcher_example s extra c = (handle_init If_handle)\<lparr>h_refs := c,
     h_watch := watch_properties_init\<lparr>opcmd_state := s, has_extra_ref := extra, event_cb := Some 5\<rparr>\<rparr>"

definition watcher_world :: "opcmd \<Rightarrow> bool \<Rightarrow> int \<Rightarrow> world" where
  "watcher_world s extra c = world_init\<lparr>handles := [0 \<mapsto> watcher_example s extra c],
     vars := [1 \<mapsto> Some (HandleO 0)], nxt := 2\<rparr>"

lemma watcher_world_winv:
  assumes "c = 1 + int (owes (watcher_example s extra c)) + int n"
  shows "winv (\<lambda>p. if p = HandleO 0 then n else 0) (watcher_world s extra c)"
  unfolding winv_def
proof (intro conjI allI)
  show "bounded (watcher_world s extra c)"
    by (simp add: bounded_def watcher_world_def world_init_def)
  have "booking (watcher_world s extra c) = [0 \<mapsto> None]"
    by (auto simp: booking_def watcher_world_def watcher_example_def handle_init_def world_init_def)
  then have "count_ptr (booking (watcher_world s extra c)) l = 0" for l
    by (simp add: count_ptr_def)
  moreover have "h_refs (watcher_example s extra c) = c" by (simp add: watcher_example_def)
  ultimately show "agrees (live_refs (watcher_world s extra c) p)
      (held (\<lambda>p. if p = HandleO 0 then n else 0) (watcher_world s extra c) p)" for p
    using assms
    by (cases p) (auto simp: live_refs_def held_def booked_def watcher_world_def count_ptr_single
        world_init_def)
qed

lemma watcher_example_owes:
  "owes (watcher_example s extra c) = of_bool (watching s) + of_bool extra"
  by (simp add: watcher_example_def owes_def example_defs)

lemma watcher_world_winv0:
  "c = 1 + of_bool (watching s) + of_bool extra \<Longrightarrow> winv (\<lambda>_. 0) (watcher_world s extra c)"
  using watcher_world_winv [of c s extra 0] by (simp add: watcher_example_owes)

lemma watch_commands_ok_witness:
  "ok (\<lambda>(r, w'). winv (\<lambda>_. 0) w' \<and> vars w' = vars (watcher_world Op_START False 2) \<and>
      (\<exists>j. handle_step 0 (watcher_example Op_START False 2) j (watcher_world Op_START False 2) w' \<and>
        held_by_others j \<and> watch_next Stop_idle r j))
    (watch_exec quiet_env Stop_idle 0 (watcher_world Op_START False 2))"
  by (rule watch_commands_ok)
    (simp_all add: watcher_world_winv0 held_by_others_def watcher_example_owes,
     simp_all add: watcher_world_def watcher_example_def)

section \<open>Correctness of the handlers\<close>

lemma watcher_cb_ok:
  assumes "client_ok K env" "winv E w" "handles w a = Some i"
  shows "ok (grown K E) (watcher_cb env a args w)"
proof -
  have live: "live_refs w (HandleO a) \<noteq> None" using assms(3) by (simp add: live_handle)
  from ok_weaken [OF call_handle_grown [OF assms(1,2) live, of "[]", simplified]] assms
  show ?thesis by (auto simp: watcher_cb_def intro: grownI split: option.split)
qed

lemma watcher_cb_course:
  assumes "winv E w" "0 < h_refs j" "watcher_cb env a args (handle_put a j w) = Inr u" "after u = Inr w'"
  shows "gives_copy env (event_cb (h_watch j)) a args j after w w'"
  by (rule gives_copyI [OF assms(1,2), where after = after and u = u, OF assms(4)]) (use assms(3) in \<open>simp add: watcher_cb_def store_simps\<close>)

lemma handle_put_id: "handles w a = Some i \<Longrightarrow> handle_put a i w = w"
  by (simp add: handle_put_def fun_upd_idem)

text \<open>An event that leaves the instance as it is.\<close>

lemma event_course:
  assumes "winv E w" "handles w a = Some i" "watcher_cb env a args w = Inr u" "after u = Inr w'"
  shows "gives_copy env (event_cb (h_watch i)) a args i after w w'"
  by (rule watcher_cb_course [OF assms(1) winv_refs_pos(1) [OF assms(1,2)], where after = after and u = u])
    (simp_all add: handle_put_id [OF assms(2)] assms(3,4))

lemma unref_grown:
  assumes "closes_loops env" "ok (grown K (inc (HandleO a) E)) r"
  shows "ok (grown K E) (rbind r (handle_unref env a))"
proof (rule ok_bind [OF assms(2)])
  fix w assume "grown K (inc (HandleO a) E) w"
  from grown_inc [OF this] obtain F where F: "winv (inc (HandleO a) F) w" "above K E F" .
  show "ok (grown K E) (handle_unref env a w)"
    by (rule grown_weaken [OF handle_unref_ok [OF assms(1) F(1)] F(2)])
qed

text \<open>
  The handler of a signal gives the client a copy of the handle; after a one-shot watcher
  has fired it is no longer started and its reference is released, exactly once.
\<close>

lemma signal_cb_ok:
  assumes "client_ok K env" "winv E w" "handles w a = Some i"
  shows "ok (grown K E) (signal_cb env a w)"
proof (cases "opcmd_state (h_watch i) = Op_START_ONESHOT")
  case False
  with watcher_cb_ok [OF assms] assms(3) show ?thesis by (simp add: signal_cb_def)
next
  case True
  let ?j = "i\<lparr>h_watch := (h_watch i)\<lparr>opcmd_state := Op_UNKNOWN\<rparr>\<rparr>"
  have "winv (inc (HandleO a) E) (handle_put a ?j w)"
    by (rule winv_handle_change [OF assms(2,3)])
      (use True winv_refs_pos(1) [OF assms(2,3)] in \<open>simp_all add: owes_def inc_apply\<close>)
  from watcher_cb_ok [OF assms(1) this, of a ?j "[Flag True]"]
  have "ok (grown K (inc (HandleO a) E)) (watcher_cb env a [Flag True] (handle_put a ?j w))"
    by (simp add: store_simps)
  from unref_grown [OF client_ok_dest(1) [OF assms(1)] this] True assms(3) show ?thesis
    by (simp add: signal_cb_def watch_mod_def)
qed

text \<open>An event sent owns a reference.\<close>

lemma async_send_ok:
  assumes "closes_loops env" "winv E w" "handles w a = Some i"
  shows "ok (\<lambda>(r, w'). winv (if r < 0 then E else inc (HandleO a) E) w' \<and> vars w' = vars w)
    (async_send env a w)"
proof -
  have pos: "0 < h_refs i" by (rule winv_refs_pos(1) [OF assms(2,3)])
  let ?e = "Call ''uv_async_send'' [Ptr (Some a)]"
  let ?r = "uv_ret env (trace w) ?e"
  have "\<exists>j tr. async_send env a (st a i (trace w) w) = Inr (?r, st a j tr w) \<and> h_loop j = h_loop i \<and>
      owes j = owes i \<and> h_refs j = (if ?r < 0 then h_refs i else h_refs i + 1)"
    using pos by (simp add: async_send_def st_simps)
  then obtain j tr where run: "async_send env a (st a i (trace w) w) = Inr (?r, st a j tr w)"
    and j: "h_loop j = h_loop i" "owes j = owes i" "h_refs j = (if ?r < 0 then h_refs i else h_refs i + 1)"
    by blast
  have "winv (if ?r < 0 then E else inc (HandleO a) E) (handle_put a j w)"
    by (rule winv_handle_change [OF assms(2,3)]) (use j pos in \<open>simp_all add: inc_apply\<close>)
  moreover have "st a j tr w = (handle_put a j w)\<lparr>trace := tr\<rparr>"
    by (simp add: st_def handle_put_def)
  ultimately have "winv (if ?r < 0 then E else inc (HandleO a) E) (st a j tr w)"
    by (simp only: winv_trace)
  with run have "ok (\<lambda>(r, w'). winv (if r < 0 then E else inc (HandleO a) E) w' \<and> vars w' = vars w)
    (async_send env a (st a i (trace w) w))"
    by (simp add: st_def)
  then show ?thesis by (subst st_id [OF assms(3)])
qed

lemma async_cb_ok:
  assumes "client_ok K env" "winv (inc (HandleO a) E) w"
  shows "ok (grown K E) (async_cb env a w)"
proof -
  from winv_owned_live [OF assms(2)] obtain i where "handles w a = Some i"
    by (auto simp: live_handle)
  from unref_grown [OF client_ok_dest(1) [OF assms(1)] watcher_cb_ok [OF assms this]]
  show ?thesis by (simp add: async_cb_def)
qed

text \<open>
  C30: Sending an async event takes a reference that the event owns, and gives it back when the
  event could not be sent; the handler of the event calls the client with a copy of the handle, if
  there is a callback, and then releases the reference of the event.
\<close>

theorem async_life:
  assumes "client_ok K env" "winv E w" "handles w a = Some i"
  shows "ok (\<lambda>(r, w'). winv (if r < 0 then E else inc (HandleO a) E) w' \<and> vars w' = vars w)
      (async_send env a w) \<and>
    (winv (inc (HandleO a) F) u \<and> handles u a = Some j \<longrightarrow>
      ok (\<lambda>u'. grown K F u' \<and> gives_copy env (event_cb (h_watch j)) a [] j (handle_unref env a) u u') (async_cb env a u))"
proof (intro conjI impI async_send_ok [OF client_ok_dest(1) [OF assms(1)] assms(2,3)])
  assume "winv (inc (HandleO a) F) u \<and> handles u a = Some j"
  then have u: "winv (inc (HandleO a) F) u" "handles u a = Some j" by simp_all
  from async_cb_ok [OF assms(1) u(1)] event_course [OF u, of env "[]" _ "handle_unref env a"]
  show "ok (\<lambda>u'. grown K F u' \<and> gives_copy env (event_cb (h_watch j)) a [] j (handle_unref env a) u u') (async_cb env a u)"
    by (auto simp: ok_iff async_cb_def rbind_eq_Inr)
qed

theorem async_life_witness:
  "ok (\<lambda>(r, w'). winv (if r < 0 then (\<lambda>_. 0) else inc (HandleO 0) (\<lambda>_. 0)) w' \<and>
      vars w' = vars (watcher_world Op_UNKNOWN False 1))
    (async_send quiet_env 0 (watcher_world Op_UNKNOWN False 1)) \<and>
   ok (\<lambda>u'. grown {} (\<lambda>_. 0) u' \<and> gives_copy quiet_env (Some 5) 0 [] (watcher_example Op_UNKNOWN False 2)
      (handle_unref quiet_env 0) (watcher_world Op_UNKNOWN False 2) u')
    (async_cb quiet_env 0 (watcher_world Op_UNKNOWN False 2))"
proof -
  have w: "winv (\<lambda>_. 0) (watcher_world Op_UNKNOWN False 1)"
    by (rule watcher_world_winv0) simp
  have "handles (watcher_world Op_UNKNOWN False c) 0 = Some (watcher_example Op_UNKNOWN False c)" for c
    by (simp add: watcher_world_def)
  moreover have "winv (inc (HandleO 0) (\<lambda>_. 0)) (watcher_world Op_UNKNOWN False 2)"
    using watcher_world_winv [of 2 Op_UNKNOWN False "Suc 0"]
    by (simp add: watcher_example_owes inc_def fun_upd_def)
  moreover have "event_cb (h_watch (watcher_example Op_UNKNOWN False 2)) = Some 5" by (simp add: watcher_example_def)
  ultimately show ?thesis
    using async_life [where K = "{}", OF client_ok_quiet w, of 0 "watcher_example Op_UNKNOWN False 1" "\<lambda>_. 0"
        "watcher_world Op_UNKNOWN False 2" "watcher_example Op_UNKNOWN False 2"] by simp
qed

text \<open>
  libuv may deliver several events sent in one call of the handler. The handler then gives
  back one reference for all of them: after two events and one delivery, a handle whose only
  variable has gone out of scope is never closed.
\<close>

theorem async_coalesced_leak:
  "ok (\<lambda>w. map_option h_refs (handles w 0) = Some 1 \<and> vars w 1 = None)
    (rbind (async_send quiet_env 0 (watcher_world Op_UNKNOWN False 1)) (\<lambda>(r, w).
     rbind (async_send quiet_env 0 w) (\<lambda>(r, w).
     rbind (async_cb quiet_env 0 w) (\<lambda>w.
     handle_var_dtor quiet_env 1 w))))"
  by code_simp

text \<open>
  The handler of a repeating timer, or of one that is not armed, leaves every reference.
\<close>

lemma timer_cb_repeating_ok:
  assumes "client_ok K env" "winv E w" "handles w a = Some i"
    and "u_repeat (h_uv i) \<noteq> 0 \<or> \<not> has_extra_ref (h_watch i)"
  shows "ok (grown K E) (timer_cb env a w)"
  using watcher_cb_ok [OF assms(1-3)] assms(3,4)
  by (auto simp: timer_cb_def timer_repeat_interval_def)

lemma status_cb_ok:
  assumes "client_ok K env" "winv E w" "handles w a = Some i"
  shows "ok (grown K E) (rbind (handle_mod a (\<lambda>i. i\<lparr>h_uv_error := s\<rparr>) w) (watcher_cb env a args))"
proof -
  let ?j = "i\<lparr>h_uv_error := s\<rparr>"
  have "winv E (handle_put a ?j w)" by (rule winv_handle_put [OF assms(2,3)]) simp_all
  from watcher_cb_ok [OF assms(1) this, of a ?j args] assms(3) show ?thesis by (simp add: store_simps)
qed

text \<open>
  C15: The handlers of the watchers call the client with a copy of the handle and what libuv reports,
  if it has set a callback, and lose no reference whatever the callback does. The handlers of poll
  and file-system events record the status before. The handler of a one-shot signal records that the
  watcher is no longer started before it calls the client, tells it so, and then releases the
  watcher's reference, exactly once; no other handler releases one, that of a timer that repeats or is not armed
  included.
\<close>

theorem watch_callbacks_ok:
  assumes "client_ok K env" "winv E w" "handles w a = Some i"
  shows "let handled = (\<lambda>args j after w'. grown K E w' \<and> gives_copy env (event_cb (h_watch i)) a args j after w w')
    in ok (handled [] i Inr) (idle_cb env a w) \<and> ok (handled [] i Inr) (prepare_cb env a w) \<and>
      ok (handled [] i Inr) (check_cb env a w) \<and>
      ok (handled [Num events] (i\<lparr>h_uv_error := status\<rparr>) Inr) (poll_cb env a status events w) \<and>
      ok (handled [Str filename, Num events] (i\<lparr>h_uv_error := status\<rparr>) Inr) (fs_event_cb env a filename events status w) \<and>
      ok (if opcmd_state (h_watch i) = Op_START_ONESHOT
          then handled [Flag True] (i\<lparr>h_watch := (h_watch i)\<lparr>opcmd_state := Op_UNKNOWN\<rparr>\<rparr>) (handle_unref env a)
          else handled [Flag False] i Inr) (signal_cb env a w) \<and>
      (u_repeat (h_uv i) \<noteq> 0 \<or> \<not> has_extra_ref (h_watch i) \<longrightarrow> ok (handled [] i Inr) (timer_cb env a w))"
proof -
  define handled where "handled args j after w' \<longleftrightarrow>
    grown K E w' \<and> gives_copy env (event_cb (h_watch i)) a args j after w w'" for args j after w'
  have pos: "0 < h_refs i" by (rule winv_refs_pos(1) [OF assms(2,3)])
  have event: "ok (handled args i Inr) (watcher_cb env a args w)" for args
    using watcher_cb_ok [OF assms, of args] event_course [OF assms(2,3), of env args _ Inr, OF _ refl]
    by (auto simp: ok_iff handled_def)
  have status: "ok (handled args (i\<lparr>h_uv_error := status\<rparr>) Inr)
      (rbind (handle_mod a (\<lambda>i. i\<lparr>h_uv_error := status\<rparr>) w) (watcher_cb env a args))" for args
    using status_cb_ok [OF assms, of status args] assms(3) pos
      watcher_cb_course [OF assms(2), of "i\<lparr>h_uv_error := status\<rparr>" env a args _ Inr, OF _ _ refl]
    by (auto simp: ok_iff handled_def)
  let ?j = "i\<lparr>h_watch := (h_watch i)\<lparr>opcmd_state := Op_UNKNOWN\<rparr>\<rparr>"
  have "gives_copy env (event_cb (h_watch i)) a [Flag True] ?j (handle_unref env a) w w'"
    if "rbind (watcher_cb env a [Flag True] (handle_put a ?j w)) (handle_unref env a) = Inr w'" for w'
    using that pos watcher_cb_course [OF assms(2), of ?j env a "[Flag True]" _ "handle_unref env a" w']
    by (auto simp: rbind_eq_Inr)
  then have signal: "ok (if opcmd_state (h_watch i) = Op_START_ONESHOT then handled [Flag True] ?j (handle_unref env a)
      else handled [Flag False] i Inr) (signal_cb env a w)"
    using signal_cb_ok [OF assms] event [of "[Flag False]"] assms(3)
    by (auto simp: ok_iff handled_def signal_cb_def watch_mod_def)
  have timer: "ok (handled [] i Inr) (timer_cb env a w)" if "u_repeat (h_uv i) \<noteq> 0 \<or> \<not> has_extra_ref (h_watch i)"
    using event [of "[]"] assms(3) that by (auto simp: timer_cb_def timer_repeat_interval_def)
  show ?thesis
    unfolding Let_def handled_def [symmetric, abs_def] idle_cb_def prepare_cb_def check_cb_def poll_cb_def fs_event_cb_def
    by (intro conjI impI event status signal timer)
qed

theorem watch_callbacks_ok_witness:
  "ok (\<lambda>w'. grown {} (\<lambda>_. 0) w' \<and> gives_copy quiet_env (Some 5) 0 [] (watcher_example Op_START_ONESHOT False 2) Inr
      (watcher_world Op_START_ONESHOT False 2) w') (idle_cb quiet_env 0 (watcher_world Op_START_ONESHOT False 2)) \<and>
   ok (\<lambda>w'. grown {} (\<lambda>_. 0) w' \<and> gives_copy quiet_env (Some 5) 0 [Flag True] (watcher_example Op_UNKNOWN False 2)
      (handle_unref quiet_env 0) (watcher_world Op_START_ONESHOT False 2) w')
    (signal_cb quiet_env 0 (watcher_world Op_START_ONESHOT False 2))"
proof -
  have i: "event_cb (h_watch (watcher_example Op_START_ONESHOT False 2)) = Some 5"
    "opcmd_state (h_watch (watcher_example Op_START_ONESHOT False 2)) = Op_START_ONESHOT"
    "(watcher_example Op_START_ONESHOT False 2)\<lparr>h_watch :=
      (h_watch (watcher_example Op_START_ONESHOT False 2))\<lparr>opcmd_state := Op_UNKNOWN\<rparr>\<rparr> = watcher_example Op_UNKNOWN False 2"
    by (simp_all add: watcher_example_def watch_properties_init_def)
  have w: "winv (\<lambda>_. 0) (watcher_world Op_START_ONESHOT False 2)" by (rule watcher_world_winv0) simp
  have h: "handles (watcher_world Op_START_ONESHOT False 2) 0 = Some (watcher_example Op_START_ONESHOT False 2)"
    by (simp add: watcher_world_def)
  note all = watch_callbacks_ok [where K = "{}", OF client_ok_quiet w h, unfolded Let_def i if_P [OF refl]]
  show ?thesis using all [THEN conjunct1] all by blast
qed

text \<open>
  C39: When a one-shot timer expires its handler releases the reference but leaves it marked as
  taken. So if one variable holds the timer, stopping it afterwards deletes the handle under the
  variable, in whatever world and environment, and the destructor of that variable finds it gone.
\<close>

theorem timer_oneshot_released_twice:
  assumes i: "handles w a = Some i" "has_extra_ref (h_watch i)" "u_repeat (h_uv i) = 0" "event_cb (h_watch i) = None"
    and refs: "h_refs i = 2" and v: "vars w v = Some (Some (HandleO a))" and wire: "h_iface i = If_handle"
    and l: "h_loop i = Some l" "loops w l = Some li" "1 < l_refs li"
  shows "ok (\<lambda>(r, w'). handles w' a = None \<and> vars w' v = Some (Some (HandleO a)) \<and>
      handle_var_dtor env v w' = Inl Use_after_free)
    (rbind (timer_cb env a w) (timer_stop env a))"
proof -
  let ?i = "i\<lparr>h_refs := 1\<rparr>"
  have cb: "timer_cb env a w = Inr (handle_put a ?i w)"
    using i refs by (simp add: timer_cb_def timer_repeat_interval_def watcher_cb_def handle_unref_def
      ref_count_dec_def Let_def store_simps)
  show ?thesis
    unfolding cb rbind_Inr using i(2) refs v wire l
    by (auto simp: timer_stop_def status_call_def uv_on_handle_def handle_return_status_def handle_set_status_eq
      watch_mod_def handle_mod_def handle_unref_def ref_count_dec_def Let_def handle_close_def uv_handle_close_def
      close_cb_def handle_delete_def unbook_loop_def loop_unref_def loop_at_def loop_put_def call_destroy_cb_def
      handle_var_dtor_def sp_dtor_def var_load_def var_drop_def handle_at_def emit_def store_simps split: option.split)
qed

text \<open>The witness: a timer that has been started on the loop of the program.\<close>

definition timer_example :: handle_instance where
  "timer_example = (handle_init If_handle)\<lparr>h_refs := 2, h_loop := Some 5,
     h_watch := watch_properties_init\<lparr>has_extra_ref := True\<rparr>\<rparr>"

definition timer_world :: world where
  "timer_world = world_init\<lparr>handles := [0 \<mapsto> timer_example],
     loops := [5 \<mapsto> \<lparr>l_uv_error = 0, l_refs = 2, l_destroy_cb = None, l_exit_cb = None\<rparr>],
     vars := [1 \<mapsto> Some (HandleO 0), 2 \<mapsto> Some (LoopO 5)], nxt := 6\<rparr>"

theorem timer_oneshot_released_twice_witness:
  "ok (\<lambda>(r, w'). handles w' 0 = None \<and> vars w' 1 = Some (Some (HandleO 0)) \<and>
      handle_var_dtor quiet_env 1 w' = Inl Use_after_free)
    (rbind (timer_cb quiet_env 0 timer_world) (timer_stop quiet_env 0))"
  by (rule timer_oneshot_released_twice [where i = timer_example and l = 5 and
        li = "\<lparr>l_uv_error = 0, l_refs = 2, l_destroy_cb = None, l_exit_cb = None\<rparr>"])
    (simp_all add: timer_world_def timer_example_def watch_properties_init_def handle_init_def uv_struct_init_def)

end
