(* ===== verification/Uvcc_Endian.thy ===== *)
theory Uvcc_Endian
  imports Uvcc_Prelude
begin

text \<open>
  \<^verbatim>\<open>endian.hpp\<close>: the conversion between host and network byte order. The conversion functions
  come from the system: \<open>htobe16()\<close> and its kin on Linux, \<open>htons()\<close> and \<open>htonl()\<close> on Windows,
  where the 64-bit conversion is put together from two 32-bit ones.
\<close>

unbundle bit_operations_syntax

section \<open>The system's conversions\<close>

text \<open>The bytes of an integer, the most significant first, as the network wants them.\<close>

definition network_bytes :: "nat \<Rightarrow> 'a::len word \<Rightarrow> 8 word list" where
  "network_bytes n x = map (\<lambda>k. ucast (drop_bit (8 * (n - 1 - k)) x)) [0..<n]"

definition bswap16 :: "16 word \<Rightarrow> 16 word" where
  "bswap16 x = word_rcat (rev (network_bytes 2 x))"

definition bswap32 :: "32 word \<Rightarrow> 32 word" where
  "bswap32 x = word_rcat (rev (network_bytes 4 x))"

definition bswap64 :: "64 word \<Rightarrow> 64 word" where
  "bswap64 x = word_rcat (rev (network_bytes 8 x))"

section \<open>The conversions of the library\<close>

datatype byte_order = Little_endian | Big_endian

datatype platform = Linux | Windows

definition hton16 :: "byte_order \<Rightarrow> 16 word \<Rightarrow> 16 word" where
  "hton16 bo x = (case bo of Little_endian \<Rightarrow> bswap16 x | Big_endian \<Rightarrow> x)"

definition hton32 :: "byte_order \<Rightarrow> 32 word \<Rightarrow> 32 word" where
  "hton32 bo x = (case bo of Little_endian \<Rightarrow> bswap32 x | Big_endian \<Rightarrow> x)"

definition hton64 :: "platform \<Rightarrow> byte_order \<Rightarrow> 64 word \<Rightarrow> 64 word" where
  "hton64 p bo x = (case (p, bo) of
       (_, Big_endian) \<Rightarrow> x
     | (Linux, Little_endian) \<Rightarrow> bswap64 x
     | (Windows, Little_endian) \<Rightarrow>
         ucast (hton32 bo (ucast (drop_bit 32 x))) OR push_bit 32 (ucast (hton32 bo (ucast x))))"

definition ntoh16 :: "byte_order \<Rightarrow> 16 word \<Rightarrow> 16 word" where
  "ntoh16 bo x = (case bo of Little_endian \<Rightarrow> bswap16 x | Big_endian \<Rightarrow> x)"

definition ntoh32 :: "byte_order \<Rightarrow> 32 word \<Rightarrow> 32 word" where
  "ntoh32 bo x = (case bo of Little_endian \<Rightarrow> bswap32 x | Big_endian \<Rightarrow> x)"

definition ntoh64 :: "platform \<Rightarrow> byte_order \<Rightarrow> 64 word \<Rightarrow> 64 word" where
  "ntoh64 p bo x = (case (p, bo) of
       (_, Big_endian) \<Rightarrow> x
     | (Linux, Little_endian) \<Rightarrow> bswap64 x
     | (Windows, Little_endian) \<Rightarrow>
         ucast (ntoh32 bo (ucast (drop_bit 32 x))) OR push_bit 32 (ucast (ntoh32 bo (ucast x))))"

section \<open>Correctness\<close>

text \<open>The bytes of an integer in the order of their addresses.\<close>

definition memory_bytes :: "byte_order \<Rightarrow> nat \<Rightarrow> 'a::len word \<Rightarrow> 8 word list" where
  "memory_bytes bo n x =
     (case bo of Big_endian \<Rightarrow> network_bytes n x | Little_endian \<Rightarrow> rev (network_bytes n x))"

lemma length_network_bytes [simp]: "length (network_bytes n x) = n"
  by (simp add: network_bytes_def)

lemma bit_network_bytes:
  "k < n \<Longrightarrow> bit (network_bytes n x ! k) i = (i < 8 \<and> bit x (8 * (n - 1 - k) + i))"
  by (simp add: network_bytes_def bit_simps)

lemma bit_word_rcat_iff:
  "bit (word_rcat (bs :: 8 word list) :: 'b::len word) i \<longleftrightarrow>
     i < LENGTH('b) \<and> i div 8 < length bs \<and> bit (rev bs ! (i div 8)) (i mod 8)"
  using bit_horner_sum_uint_exp_iff [of "rev bs" i] by (simp add: word_rcat_def bit_word_of_int_iff)

text \<open>Taking an integer apart into bytes and putting it together again are inverse.\<close>

lemma word_rcat_network_bytes:
  fixes x :: "'a::len word"
  assumes "LENGTH('a) = 8 * n"
  shows "word_rcat (network_bytes n x) = x"
proof (rule bit_word_eqI)
  fix i assume i: "i < LENGTH('a)"
  with assms have "i div 8 < n" by simp
  then show "bit (word_rcat (network_bytes n x) :: 'a word) i = bit x i"
    using i by (simp add: bit_word_rcat_iff rev_nth bit_network_bytes)
qed

lemma network_bytes_rcat:
  fixes bs :: "8 word list"
  assumes "LENGTH('a) = 8 * length bs"
  shows "network_bytes (length bs) (word_rcat bs :: 'a::len word) = bs"
proof (rule nth_equalityI)
  fix k assume k: "k < length (network_bytes (length bs) (word_rcat bs :: 'a word))"
  then have k': "k < length bs" by simp
  show "network_bytes (length bs) (word_rcat bs :: 'a word) ! k = bs ! k"
  proof (rule bit_word_eqI)
    fix i assume "i < LENGTH(8)"
    moreover from this k' have "8 * (length bs - Suc k) + i < 8 * length bs" by simp
    ultimately show "bit (network_bytes (length bs) (word_rcat bs :: 'a word) ! k) i = bit (bs ! k) i"
      using k' assms by (simp add: bit_network_bytes bit_word_rcat_iff rev_nth)
  qed
qed simp

lemma bswap_bytes:
  "rev (network_bytes 2 (bswap16 x)) = network_bytes 2 x"
  "rev (network_bytes 4 (bswap32 y)) = network_bytes 4 y"
  "rev (network_bytes 8 (bswap64 z)) = network_bytes 8 z"
  using network_bytes_rcat [where bs = "rev (network_bytes 2 x)" and 'a = 16]
    network_bytes_rcat [where bs = "rev (network_bytes 4 y)" and 'a = 32]
    network_bytes_rcat [where bs = "rev (network_bytes 8 z)" and 'a = 64]
  by (simp_all add: bswap16_def bswap32_def bswap64_def)

lemma bswap_twice:
  "bswap16 (bswap16 x) = x" "bswap32 (bswap32 y) = y" "bswap64 (bswap64 z) = z"
  unfolding bswap16_def [of "bswap16 x"] bswap32_def [of "bswap32 y"] bswap64_def [of "bswap64 z"]
    bswap_bytes
  by (simp_all add: word_rcat_network_bytes)

lemma bswap64_halves:
  fixes x :: "64 word"
  shows "ucast (bswap32 (ucast (drop_bit 32 x))) OR push_bit 32 (ucast (bswap32 (ucast x))) = bswap64 x"
proof (rule bit_word_eqI)
  fix i assume i: "i < LENGTH(64)"
  show "bit (ucast (bswap32 (ucast (drop_bit 32 x))) OR push_bit 32 (ucast (bswap32 (ucast x))) :: 64 word) i \<longleftrightarrow>
    bit (bswap64 x) i"
  proof (cases "i < 32")
    case True
    moreover from this have "i div 8 < 4" by simp
    moreover have "24 + i mod 8 - 8 * (i div 8) < 32"
      using pos_mod_bound [of 8 "int i"] mod_less_divisor [of 8 i] by linarith
    ultimately show ?thesis
      by (simp add: bit_simps bswap32_def bswap64_def bit_word_rcat_iff bit_network_bytes algebra_simps)
  next
    case False
    then obtain j where j: "i = 32 + j" by (metis not_less nat_le_iff_add)
    have "(32 + j) mod 8 = j mod 8" "(32 + j) div 8 = 4 + j div 8"
      using mod_mult_self4 [of 8 4 j] div_mult_self4 [of 8 4 j] by simp_all
    with j have idx: "(i - 32) div 8 = i div 8 - 4" "(i - 32) mod 8 = i mod 8" "4 \<le> i div 8"
      by simp_all
    from i have bnd: "i - 32 < 32" "i div 8 < 8" "i div 8 - 4 < 4" by simp_all
    from idx(3) bnd(2) have pos: "8 * (4 - 1 - (i div 8 - 4)) + i mod 8 = 8 * (8 - 1 - i div 8) + i mod 8"
      by simp
    have "8 * (8 - 1 - i div 8) + i mod 8 < 32"
      using idx(3) mod_less_divisor [of 8 i] by linarith
    then show ?thesis
      using False i idx bnd pos
      by (simp only: bit_or_iff bit_ucast_iff bit_push_bit_iff bswap32_def bswap64_def bit_word_rcat_iff
          length_rev length_network_bytes rev_rev_ident bit_network_bytes) simp
  qed
qed

text \<open>
  C35: In memory, an integer converted to network order has its most significant byte first,
  for each width and whatever the byte order of the host, and converting back gives the
  original integer. The 64-bit conversion the Windows branch assembles from two 32-bit ones
  is the one Linux provides.
\<close>

theorem network_order:
  "memory_bytes bo 2 (hton16 bo x) = network_bytes 2 x \<and> ntoh16 bo (hton16 bo x) = x \<and>
   memory_bytes bo 4 (hton32 bo y) = network_bytes 4 y \<and> ntoh32 bo (hton32 bo y) = y \<and>
   memory_bytes bo 8 (hton64 p bo z) = network_bytes 8 z \<and> ntoh64 p bo (hton64 p bo z) = z"
  by (cases bo; cases p)
    (simp_all add: hton16_def hton32_def hton64_def ntoh16_def ntoh32_def ntoh64_def bswap_twice
      bswap64_halves bswap_bytes memory_bytes_def)

end
