(* ===== verification/Uvcc_Netstruct.thy ===== *)
theory Uvcc_Netstruct
  imports Uvcc_Prelude
begin

text \<open>
  \<^verbatim>\<open>netstruct.hpp\<close>: the initialisation of socket address structures. A structure is modelled
  by its memory, a list of bytes whose first two hold the address family (little-endian, as
  on the Linux platforms libuv supports for this layout). The conversion of textual addresses
  is libuv's; it is a parameter.
\<close>

unbundle bit_operations_syntax

section \<open>Socket addresses as memory\<close>

type_synonym memory = "8 word list"

definition AF_UNSPEC :: "16 word" where "AF_UNSPEC = 0"
definition AF_INET :: "16 word" where "AF_INET = 2"
definition AF_INET6 :: "16 word" where "AF_INET6 = 10"

lemmas af_defs = AF_UNSPEC_def AF_INET_def AF_INET6_def

definition sizeof_sockaddr :: nat where "sizeof_sockaddr = 16"
definition sizeof_sockaddr_in :: nat where "sizeof_sockaddr_in = 16"
definition sizeof_sockaddr_in6 :: nat where "sizeof_sockaddr_in6 = 28"
definition sizeof_sockaddr_storage :: nat where "sizeof_sockaddr_storage = 128"

lemmas sizeof_defs = sizeof_sockaddr_def sizeof_sockaddr_in_def sizeof_sockaddr_in6_def
  sizeof_sockaddr_storage_def

definition family_bytes :: "16 word \<Rightarrow> memory" where
  "family_bytes f = [ucast f, ucast (drop_bit 8 f)]"

fun sa_family :: "memory \<Rightarrow> 16 word" where
  "sa_family (x # y # _) = ucast x OR push_bit 8 (ucast y)"
| "sa_family _ = AF_UNSPEC"

text \<open>\<open>memset(&s, 0, sizeof(s))\<close>, and then the family.\<close>

definition zeroed :: "nat \<Rightarrow> memory" where
  "zeroed n = replicate n 0"

definition with_family :: "16 word \<Rightarrow> memory \<Rightarrow> memory" where
  "with_family f m = family_bytes f @ drop 2 m"

section \<open>The init functions\<close>

definition init_sockaddr_in :: "int \<times> memory" where
  "init_sockaddr_in = (0, with_family AF_INET (zeroed sizeof_sockaddr_in))"

definition init_sockaddr_in6 :: "int \<times> memory" where
  "init_sockaddr_in6 = (0, with_family AF_INET6 (zeroed sizeof_sockaddr_in6))"

definition init_sockaddr_storage :: "16 word \<Rightarrow> int \<times> memory" where
  "init_sockaddr_storage f = (0, with_family f (zeroed sizeof_sockaddr_storage))"

text \<open>
  Overwriting the first bytes of a structure by those of another, which must have as many; a
  shorter source would be read past its end.
\<close>

definition assign_as :: "nat \<Rightarrow> memory \<Rightarrow> memory \<Rightarrow> memory res" where
  "assign_as n dst src =
     (if length src < n \<or> length dst < n then Inl Wild_pointer else Inr (take n src @ drop n dst))"

definition init_storage_from :: "memory \<Rightarrow> (int \<times> memory) res" where
  "init_storage_from sa =
     (let ss = zeroed sizeof_sockaddr_storage in
      if sa_family sa = AF_INET then
        rbind (assign_as sizeof_sockaddr_in ss sa) (\<lambda>ss. Inr (0, ss))
      else if sa_family sa = AF_INET6 then
        rbind (assign_as sizeof_sockaddr_in6 ss sa) (\<lambda>ss. Inr (0, ss))
      else Inr (UV_EAFNOSUPPORT, ss))"

text \<open>
  \<open>std::atoi()\<close>: leading white space, an optional sign, and decimal digits up to the first
  other character. Values outside the range of \<^verbatim>\<open>int\<close> have no meaning in C and are not
  considered.
\<close>

fun digits_value :: "int \<Rightarrow> string \<Rightarrow> int" where
  "digits_value acc [] = acc"
| "digits_value acc (c # cs) =
     (let d = of_char c - 48 in if 0 \<le> d \<and> d \<le> 9 then digits_value (10 * acc + d) cs else acc)"

definition is_blank :: "char \<Rightarrow> bool" where
  "is_blank c \<longleftrightarrow> (of_char c :: nat) \<in> {9..13} \<or> c = CHR '' ''"

definition atoi :: "string \<Rightarrow> int" where
  "atoi s = (case dropWhile is_blank s of
       [] \<Rightarrow> 0
     | c # cs \<Rightarrow>
         if c = CHR ''-'' then - digits_value 0 cs
         else if c = CHR ''+'' then digits_value 0 cs
         else digits_value 0 (c # cs))"

text \<open>
  \<open>pton4\<close> and \<open>pton6\<close> stand for \<open>uv_ip4_addr()\<close> and \<open>uv_ip6_addr()\<close>: the value returned and the
  bytes written for an address and a port number.
\<close>

type_synonym pton = "string \<Rightarrow> int \<Rightarrow> int \<times> memory"

definition port_number :: "string option \<Rightarrow> int" where
  "port_number port = (case port of None \<Rightarrow> 0 | Some s \<Rightarrow> atoi s)"

definition init_in_addr :: "pton \<Rightarrow> string \<Rightarrow> string option \<Rightarrow> int \<times> memory" where
  "init_in_addr pton4 ip port = pton4 ip (port_number port)"

definition init_in6_addr :: "pton \<Rightarrow> string \<Rightarrow> string option \<Rightarrow> int \<times> memory" where
  "init_in6_addr pton6 ip port = pton6 ip (port_number port)"

definition init_storage_addr ::
  "pton \<Rightarrow> pton \<Rightarrow> string \<Rightarrow> string option \<Rightarrow> (int \<times> memory) res" where
  "init_storage_addr pton4 pton6 ip port =
     (let ss = zeroed sizeof_sockaddr_storage; (r4, m4) = init_in_addr pton4 ip port in
      rbind (assign_as sizeof_sockaddr_in ss m4) (\<lambda>ss.
      if r4 = 0 then Inr (0, ss)
      else
        (let (r6, m6) = init_in6_addr pton6 ip port in
         rbind (assign_as sizeof_sockaddr_in6 ss m6) (\<lambda>ss.
         Inr (if r6 = 0 then 0 else UV_EINVAL, ss)))))"

record addrinfo =
  ai_family :: int
  ai_socktype :: int
  ai_flags :: int
  ai_protocol :: int

definition init_addrinfo :: "int \<Rightarrow> int \<Rightarrow> int \<Rightarrow> int \<times> addrinfo" where
  "init_addrinfo family socktype flags =
     (0, \<lparr>ai_family = family, ai_socktype = socktype, ai_flags = flags, ai_protocol = 0\<rparr>)"

section \<open>Correctness\<close>

lemma length_zeroed [simp]: "length (zeroed n) = n"
  by (simp add: zeroed_def)

lemma sa_family_bytes [simp]: "sa_family (family_bytes f @ m) = f"
  by (simp add: family_bytes_def) (rule bit_word_eqI, auto simp: bit_simps)

lemma sa_family_cong: "2 \<le> length m \<Longrightarrow> take 2 m' = take 2 m \<Longrightarrow> sa_family m' = sa_family m"
  by (cases m rule: sa_family.cases; cases m' rule: sa_family.cases)
    (auto simp: numeral_2_eq_2)

lemma sa_family_take: "2 \<le> n \<Longrightarrow> 2 \<le> length m \<Longrightarrow> sa_family (take n m) = sa_family m"
  by (rule sa_family_cong) (simp_all add: min_def)

lemma assign_as_ok:
  assumes "n \<le> length src" "n \<le> length dst" "2 \<le> n"
  shows "ok (\<lambda>m. take n m = take n src \<and> length m = length dst \<and> sa_family m = sa_family src)
    (assign_as n dst src)"
  using assms by (auto simp: assign_as_def min_def intro!: sa_family_cong)

lemma zero_family: "sa_family (zeroed sizeof_sockaddr_storage) = AF_UNSPEC"
  by (simp add: zeroed_def sizeof_defs numeral_eq_Suc AF_UNSPEC_def)

text \<open>How many bytes the address of a family takes.\<close>

definition sockaddr_size :: "memory \<Rightarrow> nat option" where
  "sockaddr_size sa =
     (if sa_family sa = AF_INET then Some sizeof_sockaddr_in
      else if sa_family sa = AF_INET6 then Some sizeof_sockaddr_in6 else None)"

text \<open>
  C31: The address of the peer is stored whole and followed by zeros, for both Internet families, so
  that its family can be told from the storage; an address of another family is refused
  with \<^verbatim>\<open>UV_EAFNOSUPPORT\<close> and leaves the storage zeroed; and a structure shorter than its family
  says would be read past its end.
\<close>

theorem peer_stored:
  "case sockaddr_size sa of
       None \<Rightarrow> init_storage_from sa = Inr (UV_EAFNOSUPPORT, zeroed sizeof_sockaddr_storage)
     | Some n \<Rightarrow>
         if length sa < n then init_storage_from sa = Inl Wild_pointer
         else init_storage_from sa = Inr (0, take n sa @ zeroed (sizeof_sockaddr_storage - n)) \<and>
           sa_family (take n sa @ zeroed (sizeof_sockaddr_storage - n)) = sa_family sa"
proof -
  have AF: "AF_INET6 \<noteq> AF_INET" by (simp add: af_defs)
  have family: "sa_family (take n sa @ zeroed k) = sa_family sa" if "2 \<le> n" "n \<le> length sa" for n k
    by (rule sa_family_cong) (use that in \<open>simp_all add: min_def\<close>)
  from family [of 16] family [of 28] AF show ?thesis
    by (auto simp: init_storage_from_def sockaddr_size_def assign_as_def sizeof_defs Let_def zeroed_def)
qed

text \<open>
  C32: A textual address is stored as an IPv4 address when it is one, else as an IPv6 address
  when it is one, and is refused with \<^verbatim>\<open>UV_EINVAL\<close> otherwise; the family in the storage tells
  which. The hypotheses say that libuv's conversions write a whole structure of their family.
\<close>

theorem init_storage_addr_ok:
  assumes "\<And>s p. length (snd (pton4 s p)) = sizeof_sockaddr_in \<and> sa_family (snd (pton4 s p)) = AF_INET"
    and "\<And>s p. length (snd (pton6 s p)) = sizeof_sockaddr_in6 \<and> sa_family (snd (pton6 s p)) = AF_INET6"
  shows "ok (\<lambda>(r, ss). length ss = sizeof_sockaddr_storage \<and>
      (if fst (pton4 ip (port_number port)) = 0 then
         r = 0 \<and> sa_family ss = AF_INET \<and> take 16 ss = snd (pton4 ip (port_number port))
       else if fst (pton6 ip (port_number port)) = 0 then
         r = 0 \<and> sa_family ss = AF_INET6 \<and> take 28 ss = snd (pton6 ip (port_number port))
       else r = UV_EINVAL))
    (init_storage_addr pton4 pton6 ip port)"
proof -
  obtain r4 m4 r6 m6 where p: "pton4 ip (port_number port) = (r4, m4)" "pton6 ip (port_number port) = (r6, m6)"
    by fastforce
  with assms(1) [of ip "port_number port"] assms(2) [of ip "port_number port"]
  have m: "length m4 = 16" "sa_family m4 = AF_INET" "length m6 = 28" "sa_family m6 = AF_INET6"
    by (simp_all add: sizeof_defs)
  from assign_as_ok [of 16 m4 "zeroed 128"] m obtain s4 where s4:
    "assign_as 16 (zeroed 128) m4 = Inr s4" "take 16 s4 = m4" "length s4 = 128" "sa_family s4 = AF_INET"
    by (auto simp: ok_iff)
  from assign_as_ok [of 28 m6 s4] m s4 show ?thesis
    by (auto simp: init_storage_addr_def init_in_addr_def init_in6_addr_def p s4 sizeof_defs ok_iff)
qed

definition any_pton4 :: pton where
  "any_pton4 s p = (if s = ''127.0.0.1'' then 0 else UV_EINVAL, with_family AF_INET (zeroed sizeof_sockaddr_in))"

definition any_pton6 :: pton where
  "any_pton6 s p = (if s = ''::1'' then 0 else UV_EINVAL, with_family AF_INET6 (zeroed sizeof_sockaddr_in6))"

theorem init_storage_addr_ok_witness:
  "ok (\<lambda>(r, ss). length ss = sizeof_sockaddr_storage \<and>
      (if fst (any_pton4 ''::1'' (port_number (Some ''80''))) = 0 then
         r = 0 \<and> sa_family ss = AF_INET \<and> take 16 ss = snd (any_pton4 ''::1'' (port_number (Some ''80'')))
       else if fst (any_pton6 ''::1'' (port_number (Some ''80''))) = 0 then
         r = 0 \<and> sa_family ss = AF_INET6 \<and> take 28 ss = snd (any_pton6 ''::1'' (port_number (Some ''80'')))
       else r = UV_EINVAL))
    (init_storage_addr any_pton4 any_pton6 ''::1'' (Some ''80''))"
  by (rule init_storage_addr_ok)
    (simp_all add: any_pton4_def any_pton6_def with_family_def sizeof_defs, simp_all add: family_bytes_def)

end
