(* ===== verification/Uvcc_Pending.thy ===== *)
theory Uvcc_Pending
  imports Uvcc_Watchers Uvcc_Netstruct
begin

text \<open>
  What the concrete requests have in common. A request that runs asynchronously takes a
  reference to itself and to every handle and buffer it works on, starts the libuv operation,
  and gives all of them back if that fails; otherwise they belong to the pending operation,
  and the completion handler gives them back after the client's callback.
\<close>

section \<open>Starting\<close>

text \<open>
  The second half of an asynchronous \<open>run()\<close>: the status is cleared, the operation started, and
  on failure the status recorded, the other references \<open>release\<close>d and then the request's own.
\<close>

definition request_try ::
  "env \<Rightarrow> addr \<Rightarrow> (world \<Rightarrow> (int \<times> world) res) \<Rightarrow> (world \<Rightarrow> world res) \<Rightarrow> world \<Rightarrow> (int \<times> world) res" where
  "request_try env a call release w =
     rbind (request_set_status a 0 w) (\<lambda>w.
     rbind (call w) (\<lambda>(uv_ret, w).
     if uv_ret < 0 then
       rbind (request_set_status a uv_ret w) (\<lambda>w.
       rbind (release w) (\<lambda>w.
       rbind (request_unref env a w) (\<lambda>w. Inr (uv_ret, w))))
     else Inr (uv_ret, w)))"

definition props_mod :: "addr \<Rightarrow> (req_properties \<Rightarrow> req_properties) \<Rightarrow> world \<Rightarrow> world res" where
  "props_mod a f w = request_mod a (\<lambda>i. i\<lparr>r_props := f (r_props i)\<rparr>) w"

text \<open>\<open>return uv_status(::f(uv_req, args))\<close>\<close>

definition request_status_call :: "env \<Rightarrow> string \<Rightarrow> addr \<Rightarrow> arg list \<Rightarrow> world \<Rightarrow> (int \<times> world) res" where
  "request_status_call env f a args w = rbind (uv_on_request env f a args w) (request_return_status a)"

text \<open>A variable for a loop libuv has entered into a structure.\<close>

definition loop_from :: "var \<Rightarrow> addr option \<Rightarrow> world \<Rightarrow> world res" where
  "loop_from v p w = sp_from loop_obj_ref v (map_option LoopO p) w"

text \<open>The constructor of a request of a given type.\<close>

definition request_ctor :: "uv_req_type \<Rightarrow> world \<Rightarrow> (addr \<times> world) res" where
  "request_ctor t w =
     (let (a, w) = request_create w in
      rbind (request_mod a (\<lambda>i. i\<lparr>r_uv := (r_uv i)\<lparr>q_type := t\<rparr>\<rparr>) w) (\<lambda>w. Inr (a, w)))"

section \<open>Completing\<close>

text \<open>
  Calling the client's callback, without and with the buffer of the request; a buffer nobody is
  called with is released.
\<close>

definition request_fire :: "env \<Rightarrow> addr \<Rightarrow> world \<Rightarrow> world res" where
  "request_fire env a w =
     rbind (request_at a w) (\<lambda>i.
     case r_request_cb i of
         None \<Rightarrow> Inr w
       | Some c \<Rightarrow> with_request env a (\<lambda>v. usr env c [v] []) w)"

definition request_fire_buffer :: "env \<Rightarrow> addr \<Rightarrow> world \<Rightarrow> world res" where
  "request_fire_buffer env a w =
     rbind (request_at a w) (\<lambda>i.
     case r_request_cb i of
         None \<Rightarrow> rbind (deref (p_buf (r_props i))) (\<lambda>b. buffer_unref env b w)
       | Some c \<Rightarrow>
           (let (u, w) = var_new (map_option BufferO (p_buf (r_props i))) w in
            rbind (with_request env a (\<lambda>v. usr env c [v, u] []) w) (\<lambda>w. buffer_var_dtor env u w)))"

text \<open>
  The rest of a completion handler under its guards: the request is released first, being the
  last guard constructed, then what \<open>rest\<close> stands for.
\<close>

definition guarded ::
  "env \<Rightarrow> addr \<Rightarrow> (world \<Rightarrow> world res) \<Rightarrow> (world \<Rightarrow> world res) \<Rightarrow> world \<Rightarrow> world res" where
  "guarded env a body rest w =
     rbind (body w) (\<lambda>w. rbind (request_unref env a w) (\<lambda>w. rest w))"

section \<open>Steps of a run\<close>

text \<open>A program variable refers to the instance.\<close>

definition refers :: "world \<Rightarrow> obj \<Rightarrow> bool" where
  "refers w p \<longleftrightarrow> (\<exists>v. vars w v = Some (Some p))"

lemma refersI: "vars w v = Some (Some p) \<Longrightarrow> refers w p"
  by (auto simp: refers_def)

lemma refers_cong: "vars w' = vars w \<Longrightarrow> refers w' p = refers w p"
  by (simp add: refers_def)

lemma refers_live: "winv E w \<Longrightarrow> refers w p \<Longrightarrow> live_refs w p \<noteq> None"
  unfolding refers_def using winv_var_live by blast

lemma refers_request:
  assumes "winv E w" "refers w (RequestO a)"
  obtains i where "requests w a = Some i"
  using refers_live [OF assms] by (auto simp: live_request)

lemma refers_handle:
  assumes "winv E w" "refers w (HandleO a)"
  obtains i where "handles w a = Some i"
  using refers_live [OF assms] by (auto simp: live_handle)

lemma refers_buffer:
  assumes "winv E w" "refers w (BufferO a)"
  obtains i where "buffers w a = Some i"
  using refers_live [OF assms] by (auto simp: live_buffer)

text \<open>Taking references, recording properties, setting the status: each with what follows it.\<close>

lemma hold_handle:
  assumes "winv E w" "refers w (HandleO h)"
    "\<And>w'. winv (inc (HandleO h) E) w' \<Longrightarrow> vars w' = vars w \<Longrightarrow> ok Q (k w')"
  shows "ok Q (rbind (handle_ref h w) k)"
  by (rule ok_bind [OF handle_ref_ok [OF assms(1) refers_live [OF assms(1,2)]]]) (use assms(3) in blast)

lemma hold_buffer:
  assumes "winv E w" "refers w (BufferO b)"
    "\<And>w'. winv (inc (BufferO b) E) w' \<Longrightarrow> vars w' = vars w \<Longrightarrow> ok Q (k w')"
  shows "ok Q (rbind (buffer_ref b w) k)"
  by (rule ok_bind [OF buffer_ref_ok [OF assms(1) refers_live [OF assms(1,2)]]]) (use assms(3) in blast)

lemma hold_request:
  assumes "winv E w" "refers w (RequestO a)"
    "\<And>w'. winv (inc (RequestO a) E) w' \<Longrightarrow> vars w' = vars w \<Longrightarrow> ok Q (k w')"
  shows "ok Q (rbind (request_ref a w) k)"
  by (rule ok_bind [OF request_ref_ok [OF assms(1) refers_live [OF assms(1,2)]]]) (use assms(3) in blast)

lemma request_mod_step:
  assumes "winv E w" "requests w a = Some i" "r_refs (f i) = r_refs i"
    "\<And>w'. winv E w' \<Longrightarrow> vars w' = vars w \<Longrightarrow> handles w' = handles w \<Longrightarrow> buffers w' = buffers w \<Longrightarrow>
       requests w' a = Some (f i) \<Longrightarrow> ok Q (k w')"
  shows "ok Q (rbind (request_mod a f w) k)"
  using winv_request_put [OF assms(1,2,3)] assms(2,4) by (simp add: store_simps)

lemma set_status:
  assumes "winv E w" "requests w a = Some i"
    "\<And>w'. winv E w' \<Longrightarrow> vars w' = vars w \<Longrightarrow> handles w' = handles w \<Longrightarrow> buffers w' = buffers w \<Longrightarrow>
       requests w' a = Some (i\<lparr>r_uv_error := r\<rparr>) \<Longrightarrow> ok Q (k w')"
  shows "ok Q (rbind (request_set_status a r w) k)"
  unfolding request_set_status_def by (rule request_mod_step [OF assms(1,2)]) (use assms(3) in auto)

lemma set_props:
  assumes "winv E w" "requests w a = Some i"
    "\<And>w'. winv E w' \<Longrightarrow> vars w' = vars w \<Longrightarrow> handles w' = handles w \<Longrightarrow> buffers w' = buffers w \<Longrightarrow>
       requests w' a = Some (i\<lparr>r_props := f (r_props i)\<rparr>) \<Longrightarrow> ok Q (k w')"
  shows "ok Q (rbind (props_mod a f w) k)"
  unfolding props_mod_def by (rule request_mod_step [OF assms(1,2)]) (use assms(3) in auto)

text \<open>A libuv function given the request.\<close>

lemma uv_on_request_ok:
  assumes "winv E w" "requests w a = Some i"
  shows "ok (\<lambda>(r, w'). winv E w' \<and> vars w' = vars w \<and> handles w' = handles w \<and>
      r = uv_ret env (trace w) (Call f (Ptr (Some a) # args)) \<and>
      requests w' a = Some (i\<lparr>r_uv := uv_req_eff env (trace w) (Call f (Ptr (Some a) # args)) (r_uv i)\<rparr>))
    (uv_on_request env f a args w)"
  using winv_request_put [OF assms, of "i\<lparr>r_uv := uv_req_eff env (trace w) (Call f (Ptr (Some a) # args)) (r_uv i)\<rparr>"]
    assms(2)
  by (simp add: uv_on_request_def Let_def store_simps)

text \<open>
  What libuv documents of a function that starts an operation on a handle: when it has succeeded, the
  handle is entered into the request.
\<close>

definition records_handle :: "env \<Rightarrow> string \<Rightarrow> bool" where
  "records_handle env f \<longleftrightarrow> (\<forall>tr a h args s. 0 \<le> uv_ret env tr (Call f (Ptr a # Ptr (Some h) # args)) \<longrightarrow>
     q_handle (uv_req_eff env tr (Call f (Ptr a # Ptr (Some h) # args)) s) = Some h)"

text \<open>The functions the requests on streams and sockets call in this way.\<close>

definition start_functions :: "string list" where
  "start_functions = [''uv_tcp_connect'', ''uv_shutdown'', ''uv_write'', ''uv_udp_send'']"

definition records_handles :: "env \<Rightarrow> bool" where
  "records_handles env \<longleftrightarrow> (\<forall>f \<in> set start_functions. records_handle env f)"

lemma records_handlesD:
  assumes "records_handles env"
  shows "records_handle env ''uv_tcp_connect''" "records_handle env ''uv_shutdown''"
    "records_handle env ''uv_write''" "records_handle env ''uv_udp_send''"
  using assms by (simp_all add: records_handles_def start_functions_def)

lemma request_status_call_ok:
  assumes "winv E w" "requests w a = Some i"
  shows "ok (\<lambda>(r, w'). winv E w' \<and> vars w' = vars w \<and> r = uv_ret env (trace w) (Call f (Ptr (Some a) # args)) \<and>
      (\<exists>j. requests w' a = Some j \<and> r_uv_error j = r)) (request_status_call env f a args w)"
  unfolding request_status_call_def
  by (rule ok_bind [OF uv_on_request_ok [OF assms]])
    (auto simp: request_return_status_def intro: set_status [where E = E])

lemma count_step:
  assumes "winv E w" "0 < E (BufferO b)" "\<And>n. ok Q (k n)"
  shows "ok Q (rbind (buffer_count b w) k)"
proof -
  from winv_owned_live' [OF assms(1,2)] obtain i where "buffers w b = Some i" by (auto simp: live_buffer)
  with assms(3) show ?thesis by (simp add: buffer_count_def buffer_at_def)
qed

section \<open>Starting and failing to start\<close>

text \<open>
  The state of a request whose operation is pending: the operation owns the references \<open>F\<close> and
  one to the request, whose instance satisfies \<open>P\<close>.
\<close>

definition pending :: "(obj \<Rightarrow> nat) \<Rightarrow> addr \<Rightarrow> (req_instance \<Rightarrow> bool) \<Rightarrow> world \<Rightarrow> bool" where
  "pending F a P w \<longleftrightarrow> winv (inc (RequestO a) F) w \<and> (\<exists>i. requests w a = Some i \<and> P i)"

text \<open>The outcome of a run: an error with nothing held, or a pending operation.\<close>

definition started ::
  "(obj \<Rightarrow> nat) \<Rightarrow> (obj \<Rightarrow> nat) \<Rightarrow> addr \<Rightarrow> (req_instance \<Rightarrow> bool) \<Rightarrow> int \<times> world \<Rightarrow> bool" where
  "started E F a P = (\<lambda>(r, w). if r < 0 then winv E w else pending F a P w)"

lemma request_try_ok:
  assumes inv: "winv (inc (RequestO a) F) w" and i: "requests w a = Some i"
    and call: "\<And>w'. winv (inc (RequestO a) F) w' \<Longrightarrow> vars w' = vars w \<Longrightarrow> handles w' = handles w \<Longrightarrow>
      buffers w' = buffers w \<Longrightarrow> requests w' a = Some (i\<lparr>r_uv_error := 0\<rparr>) \<Longrightarrow>
      ok (\<lambda>(r :: int, w'). pending F a (\<lambda>j. 0 \<le> r \<longrightarrow> P j) w') (call w')"
    and release: "\<And>w. winv (inc (RequestO a) F) w \<Longrightarrow> ok (winv (inc (RequestO a) E)) (release w)"
  shows "ok (started E F a P) (request_try env a call release w)"
  unfolding request_try_def
proof (rule set_status [OF inv i])
  fix w1 assume "winv (inc (RequestO a) F) w1" "vars w1 = vars w" "handles w1 = handles w"
    "buffers w1 = buffers w" "requests w1 a = Some (i\<lparr>r_uv_error := 0\<rparr>)"
  from call [OF this] obtain r w2 where c: "call w1 = Inr (r, w2)"
    and w2: "pending F a (\<lambda>j. 0 \<le> r \<longrightarrow> P j) w2" by (auto simp: ok_iff)
  from w2 obtain j where j: "winv (inc (RequestO a) F) w2" "requests w2 a = Some j"
    by (auto simp: pending_def)
  have "ok (\<lambda>(r', w'). r' = r \<and> winv E w') (rbind (request_set_status a r w2) (\<lambda>w. rbind (release w) (\<lambda>w.
       rbind (request_unref env a w) (\<lambda>w. Inr (r, w)))))"
    by (rule set_status [OF j], rule ok_bind [OF release], assumption,
        rule ok_bind [OF request_unref_ok], assumption, simp)
  with c w2 show "ok (started E F a P) (rbind (call w1) (\<lambda>(uv_ret, w).
     if uv_ret < 0 then
       rbind (request_set_status a uv_ret w) (\<lambda>w.
       rbind (release w) (\<lambda>w.
       rbind (request_unref env a w) (\<lambda>w. Inr (uv_ret, w))))
     else Inr (uv_ret, w)))"
    by (auto simp: started_def elim: ok_weaken)
qed

text \<open>
  A result that is the answer of libuv to the call of \<open>f\<close> with arguments that begin with \<open>as\<close>: a run
  fails only when libuv refuses the operation.
\<close>

definition answered :: "env \<Rightarrow> string \<Rightarrow> arg list \<Rightarrow> int \<Rightarrow> bool" where
  "answered env f as r \<longleftrightarrow> (\<exists>tr args. r = uv_ret env tr (Call f (as @ args)))"

lemma answered_request:
  "uv_on_request env f a (as @ args) w = Inr (r, w') \<Longrightarrow> answered env f (Ptr (Some a) # as) r"
  by (auto simp: uv_on_request_def answered_def Let_def rbind_eq_Inr)

lemma answered_status: "request_return_status a (r, w) = Inr (r', w') \<Longrightarrow> r' = r"
  by (auto simp: request_return_status_def rbind_eq_Inr)

lemma answered_try:
  assumes "request_try env a call release w = Inr (r, w')" "\<And>u u'. call u = Inr (r, u') \<Longrightarrow> answered env f as r"
  shows "answered env f as r"
  using assms by (auto simp: request_try_def rbind_eq_Inr split: if_splits)

text \<open>The usual call: the function \<open>f\<close> on the request.\<close>

lemma uv_call_pending:
  assumes "winv (inc (RequestO a) F) w" "requests w a = Some i"
    "\<And>e. e = Call f (Ptr (Some a) # args) \<Longrightarrow> 0 \<le> uv_ret env (trace w) e \<Longrightarrow> P (i\<lparr>r_uv := uv_req_eff env (trace w) e (r_uv i)\<rparr>)"
  shows "ok (\<lambda>(r :: int, w'). pending F a (\<lambda>j. 0 \<le> r \<longrightarrow> P j) w') (uv_on_request env f a args w)"
  by (rule ok_weaken [OF uv_on_request_ok [OF assms(1,2)]]) (use assms(3) in \<open>auto simp: pending_def\<close>)

text \<open>Giving back what the operation was to work on.\<close>

lemma release_handle:
  assumes "closes_loops env" "winv (inc (HandleO h) E) w"
  shows "ok (winv E) (handle_unref env h w)"
  by (rule ok_weaken [OF handle_unref_ok [OF assms]]) simp

lemma release_handle_buffer:
  assumes "client_ok K env" "winv (inc (HandleO h) (inc (BufferO b) E)) w"
  shows "ok (winv E) (rbind (handle_unref env h w) (buffer_unref env b))"
  by (rule ok_bind [OF release_handle [OF client_ok_dest(1) [OF assms(1)] assms(2)]])
    (rule buffer_unref_ok [OF client_ok_dest(2) [OF assms(1)]])

text \<open>
  The three shapes of a run, for any libuv call: on the request alone, with a handle, and with a
  handle and a buffer, where \<open>f\<close> is what it enters into the properties.
\<close>

lemma run_request_ok:
  assumes "winv E w" "refers w (RequestO a)"
    and call: "\<And>w' i. winv (inc (RequestO a) E) w' \<Longrightarrow> requests w' a = Some i \<Longrightarrow>
      ok (\<lambda>(r :: int, w'). pending E a (\<lambda>j. 0 \<le> r \<longrightarrow> P j) w') (call w')"
  shows "ok (started E E a P) (rbind (request_ref a w) (request_try env a call Inr))"
proof (rule hold_request [OF assms(1,2)])
  fix w1 assume w1: "winv (inc (RequestO a) E) w1" "vars w1 = vars w"
  with assms(2) have "refers w1 (RequestO a)" by (simp add: refers_def)
  from refers_request [OF w1(1) this] obtain i where i: "requests w1 a = Some i" .
  show "ok (started E E a P) (request_try env a call Inr w1)"
    by (rule request_try_ok [OF w1(1) i]) (use call in auto)
qed

lemma run_handle_ok:
  assumes "closes_loops env" "winv E w" "refers w (RequestO a)" "refers w (HandleO h)"
    and call: "\<And>w' i. winv (inc (RequestO a) (inc (HandleO h) E)) w' \<Longrightarrow> requests w' a = Some i \<Longrightarrow>
      ok (\<lambda>(r :: int, w'). pending (inc (HandleO h) E) a (\<lambda>j. 0 \<le> r \<longrightarrow> P j) w') (call w')"
  shows "ok (started E (inc (HandleO h) E) a P)
    (rbind (handle_ref h w) (\<lambda>w. rbind (request_ref a w) (request_try env a call (handle_unref env h))))"
proof (rule hold_handle [OF assms(2,4)], rule hold_request)
  fix w1 assume w1: "winv (inc (HandleO h) E) w1" "vars w1 = vars w"
  show "winv (inc (HandleO h) E) w1" by fact
  show "refers w1 (RequestO a)" using w1(2) assms(3) by (simp add: refers_def)
  fix w2 assume w2: "winv (inc (RequestO a) (inc (HandleO h) E)) w2" "vars w2 = vars w1"
  from w2(2) w1(2) assms(3) have "refers w2 (RequestO a)" by (simp add: refers_def)
  from refers_request [OF w2(1) this] obtain i where i: "requests w2 a = Some i" .
  show "ok (started E (inc (HandleO h) E) a P) (request_try env a call (handle_unref env h) w2)"
    by (rule request_try_ok [OF w2(1) i call], assumption, assumption, rule release_handle [OF assms(1)])
      (simp add: inc_commute [of "RequestO a"])
qed

lemma run_handle_buffer_ok:
  assumes "client_ok K env" "winv E w" "refers w (RequestO a)" "refers w (HandleO h)" "refers w (BufferO b)"
    and call: "\<And>w' i p. winv (inc (RequestO a) (inc (BufferO b) (inc (HandleO h) E))) w' \<Longrightarrow>
      requests w' a = Some i \<Longrightarrow> r_props i = f p \<Longrightarrow>
      ok (\<lambda>(r :: int, w'). pending (inc (BufferO b) (inc (HandleO h) E)) a (\<lambda>j. 0 \<le> r \<longrightarrow> P j) w') (call w')"
  shows "ok (started E (inc (BufferO b) (inc (HandleO h) E)) a P)
    (rbind (handle_ref h w) (\<lambda>w. rbind (buffer_ref b w) (\<lambda>w. rbind (request_ref a w) (\<lambda>w.
     rbind (props_mod a f w)
       (request_try env a call (\<lambda>w. rbind (handle_unref env h w) (buffer_unref env b)))))))"
proof (rule hold_handle [OF assms(2,4)], rule hold_buffer)
  let ?F = "inc (BufferO b) (inc (HandleO h) E)"
  fix w1 assume w1: "winv (inc (HandleO h) E) w1" "vars w1 = vars w"
  show "winv (inc (HandleO h) E) w1" by fact
  show "refers w1 (BufferO b)" using w1(2) assms(5) by (simp add: refers_def)
  fix w2 assume w2: "winv ?F w2" "vars w2 = vars w1"
  have "refers w2 (RequestO a)" using w2(2) w1(2) assms(3) by (simp add: refers_def)
  with w2(1) show "ok (started E ?F a P) (rbind (request_ref a w2) (\<lambda>w. rbind (props_mod a f w)
       (request_try env a call (\<lambda>w. rbind (handle_unref env h w) (buffer_unref env b)))))"
  proof (rule hold_request)
    fix w3 assume w3: "winv (inc (RequestO a) ?F) w3" "vars w3 = vars w2"
    have "refers w3 (RequestO a)" using w3(2) w2(2) w1(2) assms(3) by (simp add: refers_def)
    from refers_request [OF w3(1) this] obtain i where i: "requests w3 a = Some i" .
    from w3(1) i show "ok (started E ?F a P) (rbind (props_mod a f w3)
       (request_try env a call (\<lambda>w. rbind (handle_unref env h w) (buffer_unref env b))))"
    proof (rule set_props)
      fix w4 assume w4: "winv (inc (RequestO a) ?F) w4" "requests w4 a = Some (i\<lparr>r_props := f (r_props i)\<rparr>)"
      have "inc (RequestO a) ?F = inc (HandleO h) (inc (BufferO b) (inc (RequestO a) E))"
        by (simp add: inc_commute [of "RequestO a"] inc_commute [of "BufferO b" "HandleO h"])
      with w4 show "ok (started E ?F a P) (request_try env a call
          (\<lambda>w. rbind (handle_unref env h w) (buffer_unref env b)) w4)"
        by (intro request_try_ok [OF w4] call release_handle_buffer [OF assms(1)]) auto
    qed
  qed
qed

lemma run_handle_props_ok:
  assumes "closes_loops env" "winv E w" "refers w (RequestO a)" "refers w (HandleO h)"
    and call: "\<And>w' i p. winv (inc (RequestO a) (inc (HandleO h) E)) w' \<Longrightarrow> requests w' a = Some i \<Longrightarrow>
      r_props i = f p \<Longrightarrow>
      ok (\<lambda>(r :: int, w'). pending (inc (HandleO h) E) a (\<lambda>j. 0 \<le> r \<longrightarrow> P j) w') (call w')"
  shows "ok (started E (inc (HandleO h) E) a P)
    (rbind (handle_ref h w) (\<lambda>w. rbind (request_ref a w) (\<lambda>w. rbind (props_mod a f w)
      (request_try env a call (handle_unref env h)))))"
proof (rule hold_handle [OF assms(2,4)], rule hold_request)
  fix w1 assume w1: "winv (inc (HandleO h) E) w1" "vars w1 = vars w"
  show "winv (inc (HandleO h) E) w1" by fact
  show "refers w1 (RequestO a)" using w1(2) assms(3) by (simp add: refers_def)
  fix w2 assume w2: "winv (inc (RequestO a) (inc (HandleO h) E)) w2" "vars w2 = vars w1"
  from w2(2) w1(2) assms(3) have "refers w2 (RequestO a)" by (simp add: refers_def)
  from refers_request [OF w2(1) this] obtain i where i: "requests w2 a = Some i" .
  from w2(1) i show "ok (started E (inc (HandleO h) E) a P)
    (rbind (props_mod a f w2) (request_try env a call (handle_unref env h)))"
  proof (rule set_props)
    fix w3 assume w3: "winv (inc (RequestO a) (inc (HandleO h) E)) w3"
      "requests w3 a = Some (i\<lparr>r_props := f (r_props i)\<rparr>)"
    then show "ok (started E (inc (HandleO h) E) a P) (request_try env a call (handle_unref env h) w3)"
      by (intro request_try_ok [OF w3] call release_handle [OF assms(1)])
        (auto simp: inc_commute [of "RequestO a"])
  qed
qed

section \<open>Completion\<close>

lemma request_unref_grown:
  assumes "grown K (inc (RequestO a) E) w"
  shows "ok (grown K E) (request_unref env a w)"
proof -
  from grown_inc [OF assms] obtain F where F: "winv (inc (RequestO a) F) w" "above K E F" .
  show ?thesis
    using request_unref_ok [OF F(1), of env] F(2) by (elim ok_weaken) (auto simp: grown_def)
qed

lemma handle_unref_grown:
  assumes "client_ok K env" "grown K (inc (HandleO h) E) w"
  shows "ok (grown K E) (handle_unref env h w)"
proof -
  from grown_inc [OF assms(2)] obtain F where F: "winv (inc (HandleO h) F) w" "above K E F" .
  show ?thesis
    using handle_unref_ok [OF client_ok_dest(1) [OF assms(1)] F(1)] F(2)
    by (elim ok_weaken) (auto simp: grown_def)
qed

lemma request_fire_ok:
  assumes "client_ok K env" "winv E w" "requests w a = Some i"
  shows "ok (grown K E) (request_fire env a w)"
proof -
  have live: "live_refs w (RequestO a) \<noteq> None" using assms(3) by (simp add: live_request)
  from ok_weaken [OF call_request_grown [OF assms(1,2) live, of "[]", simplified]] assms
  show ?thesis by (auto simp: request_fire_def intro: grownI split: option.split)
qed

lemma request_fire_buffer_ok:
  assumes "client_ok K env" "winv (inc (BufferO b) E) w" "requests w a = Some i" "p_buf (r_props i) = Some b"
  shows "ok (grown K E) (request_fire_buffer env a w)"
proof -
  have live: "live_refs w (RequestO a) \<noteq> None" using assms(3) by (simp add: live_request)
  have "ok (grown K E) (with_buffer env b (\<lambda>u. with_request env a (\<lambda>v. usr env c [v, u] [])) w)" for c
    by (rule call_request_buffer_grown [OF assms(1,2) live])
  moreover have "ok (grown K E) (buffer_unref env b w)"
    by (rule ok_weaken [OF buffer_unref_ok [OF client_ok_dest(2) [OF assms(1)] assms(2)]]) (rule grownI)
  ultimately show ?thesis
    using assms(3,4) by (auto simp: request_fire_buffer_def with_buffer_def split: option.split)
qed

lemma guarded_ok:
  assumes "ok (grown K (inc (RequestO a) E)) (body w)" "\<And>w. grown K E w \<Longrightarrow> ok (grown K G) (rest w)"
  shows "ok (grown K G) (guarded env a body rest w)"
  unfolding guarded_def
  by (rule ok_bind [OF assms(1)], rule ok_bind [OF request_unref_grown], assumption, rule assms(2))

lemma guarded_request:
  assumes "ok (grown K (inc (RequestO a) E)) (body w)"
  shows "ok (grown K E) (guarded env a body Inr w)"
  by (rule guarded_ok [where E = E and body = body, OF assms]) simp

lemma guarded_handle:
  assumes "client_ok K env" "ok (grown K (inc (RequestO a) (inc (HandleO h) E))) (body w)"
  shows "ok (grown K E) (guarded env a body (handle_unref env h) w)"
  by (rule guarded_ok [where E = "inc (HandleO h) E" and body = body, OF assms(2)]) (rule handle_unref_grown [OF assms(1)])

lemma request_ctor_ok:
  assumes "winv E w"
  shows "ok (\<lambda>(a, w'). winv (inc (RequestO a) E) w' \<and> vars w' = vars w \<and> requests w a = None \<and>
      requests w' a = Some (request_init\<lparr>r_uv := uv_req_init\<lparr>q_type := t\<rparr>\<rparr>)) (request_ctor t w)"
proof -
  obtain a w1 where c: "request_create w = (a, w1)" by force
  note w1 = request_create_ok [OF assms c]
  have "winv (inc (RequestO a) E) (request_put a (request_init\<lparr>r_uv := uv_req_init\<lparr>q_type := t\<rparr>\<rparr>) w1)"
    by (rule winv_request_put [OF w1(1,3)]) simp
  moreover have "r_uv request_init = uv_req_init" by (simp add: request_init_def)
  moreover have "requests w a = None"
    using c winv_bounded [OF assms] by (auto simp: request_create_def bounded_def)
  ultimately show ?thesis
    using w1 by (simp add: request_ctor_def c store_simps)
qed

section \<open>A world with one of everything\<close>

text \<open>
  Two streams, a file, a buffer and a request with a callback, each with a program variable that
  refers to it: the witnesses are stated for it.
\<close>

definition request_world :: world where
  "request_world =
     (let (h, w) = handle_create If_stream world_init;
          (s, w) = handle_create If_stream w;
          (f, w) = handle_create If_file w;
          (b, w) = buffer_create [5] w;
          (a, w) = request_create w
      in request_put a (request_init\<lparr>r_request_cb := Some 7\<rparr>)
        (var_store 14 (Some (RequestO a)) (var_store 13 (Some (BufferO b))
        (var_store 12 (Some (HandleO f)) (var_store 11 (Some (HandleO s))
        (var_store 10 (Some (HandleO h)) w))))))"

lemma winv_world_init: "winv (\<lambda>_. 0) world_init"
proof -
  have "booking world_init = (\<lambda>_. None)" by (auto simp: booking_def world_init_def)
  then have "held (\<lambda>_. 0) world_init p = 0" for p
    by (cases p) (simp_all add: held_def booked_def world_init_def)
  moreover have "live_refs world_init p = None" for p
    by (simp add: live_refs_def world_init_def split: obj.split)
  ultimately show ?thesis
    by (simp add: winv_def bounded_def world_init_def)
qed

lemma request_world_eq:
  "vars request_world = [10 \<mapsto> Some (HandleO 0), 11 \<mapsto> Some (HandleO 1), 12 \<mapsto> Some (HandleO 2),
     13 \<mapsto> Some (BufferO 3), 14 \<mapsto> Some (RequestO 4)]"
  "requests request_world 4 = Some (request_init\<lparr>r_request_cb := Some 7\<rparr>)"
  by (simp_all add: request_world_def handle_create_def buffer_create_def request_create_def
      world_init_def store_simps eval_nat_numeral)

lemma request_world_winv: "winv (\<lambda>_. 0) request_world"
proof -
  obtain h w1 where 1: "handle_create If_stream world_init = (h, w1)" by force
  note w1 = handle_create_ok [OF winv_world_init 1]
  obtain s w2 where 2: "handle_create If_stream w1 = (s, w2)" by force
  note w2 = handle_create_ok [OF w1(1) 2]
  obtain f w3 where 3: "handle_create If_file w2 = (f, w3)" by force
  note w3 = handle_create_ok [OF w2(1) 3]
  obtain b w4 where 4: "buffer_create [5] w3 = (b, w4)" by force
  note w4 = buffer_create_ok [OF w3(1) 4]
  obtain a w5 where 5: "request_create w4 = (a, w5)" by force
  note w5 = request_create_ok [OF w4(1) 5]
  have v: "vars w5 = (\<lambda>_. None)"
    using w5(4) 4 w3(4) w2(4) w1(4) by (auto simp: buffer_create_def world_init_def)
  have order: "inc (RequestO a) (inc (BufferO b) (inc (HandleO f) (inc (HandleO s) (inc (HandleO h) E)))) =
      owned (Some (HandleO h)) (owned (Some (HandleO s)) (owned (Some (HandleO f))
        (owned (Some (BufferO b)) (owned (Some (RequestO a)) E))))" for E
    by (rule ext) (simp add: inc_apply)
  have "winv (\<lambda>_. 0) (var_store 14 (Some (RequestO a)) (var_store 13 (Some (BufferO b))
      (var_store 12 (Some (HandleO f)) (var_store 11 (Some (HandleO s))
      (var_store 10 (Some (HandleO h)) w5)))))"
    by (intro winv_var_acquire) (use w5(1) v in \<open>simp_all only: order, simp_all add: store_simps\<close>)
  then show ?thesis
    using winv_request_put [of "\<lambda>_. 0" _ a request_init] w5(3)
    by (simp add: request_world_def 1 2 3 4 5 store_simps)
qed

lemma request_world_refers:
  "refers request_world (HandleO 0)" "refers request_world (HandleO 1)"
  "refers request_world (HandleO 2)" "refers request_world (BufferO 3)"
  "refers request_world (RequestO 4)"
  by (rule refersI [of _ 10] refersI [of _ 11] refersI [of _ 12] refersI [of _ 13] refersI [of _ 14],
      simp add: request_world_eq)+

lemma records_handle_quiet: "records_handle quiet_env f"
  by (simp add: records_handle_def quiet_env_def split: list.split arg.split)

lemma records_handles_quiet: "records_handles quiet_env"
  by (simp add: records_handles_def records_handle_quiet)

lemmas request_world_facts = client_ok_quiet request_world_winv request_world_refers
  records_handles_quiet

end
