(* ===== verification/Uvcc_Fs_Request.thy ===== *)
theory Uvcc_Fs_Request
  imports Uvcc_Pending
begin

text \<open>
  \<^verbatim>\<open>request-fs.hpp\<close>: the file-system requests. Each runs synchronously when it has no callback,
  and otherwise asynchronously, holding references to itself and to the file and buffer it works
  on until its completion handler has run. The definitions common to the classes come first.
\<close>

section \<open>The base class\<close>

text \<open>A constructor with \<open>init< _UV_FS_TYPE_ >()\<close>.\<close>

definition fs_init :: "uv_fs_type \<Rightarrow> addr \<Rightarrow> world \<Rightarrow> world res" where
  "fs_init t a w =
     rbind (request_mod a (\<lambda>i. i\<lparr>r_uv := (r_uv i)\<lparr>q_type := UV_FS, q_fs_type := t\<rparr>\<rparr>) w) (\<lambda>w.
     props_mod a (\<lambda>p. p\<lparr>p_cleanup := Fs_cleanup\<rparr>) w)"

definition fs_ctor :: "uv_fs_type \<Rightarrow> world \<Rightarrow> (addr \<times> world) res" where
  "fs_ctor t w =
     (let (a, w) = request_create w in rbind (fs_init t a w) (\<lambda>w. Inr (a, w)))"

definition fs_type_of :: "addr \<Rightarrow> world \<Rightarrow> uv_fs_type res" where
  "fs_type_of a w = rbind (request_at a w) (\<lambda>i. Inr (q_fs_type (r_uv i)))"

definition fs_loop :: "var \<Rightarrow> addr \<Rightarrow> world \<Rightarrow> world res" where
  "fs_loop v a w = rbind (request_at a w) (\<lambda>i. loop_from v (q_loop (r_uv i)) w)"

text \<open>\<open>::uv_fs_req_cleanup()\<close> on the request, with which every run begins.\<close>

definition fs_req_cleanup :: "env \<Rightarrow> addr \<Rightarrow> world \<Rightarrow> world res" where
  "fs_req_cleanup env a w =
     rbind (uv_on_request env ''uv_fs_req_cleanup'' a [] w) (\<lambda>(r, w). Inr w)"

text \<open>A negative offset stands for the current position of the file.\<close>

definition file_offset :: "env \<Rightarrow> addr \<Rightarrow> int \<Rightarrow> world \<Rightarrow> (int \<times> world) res" where
  "file_offset env h offset w =
     (if offset < 0
      then rbind (file_fd h w) (\<lambda>fd. Inr (uv env ''lseek64'' [Num fd, Num 0, Num 1] w))
      else Inr (offset, w))"

text \<open>A libuv function on the loop and the descriptor of the file \<open>h\<close>; \<open>cb\<close> tells whether a handler is given.\<close>

definition file_call ::
  "env \<Rightarrow> string \<Rightarrow> addr \<Rightarrow> addr \<Rightarrow> arg list \<Rightarrow> bool \<Rightarrow> world \<Rightarrow> (int \<times> world) res" where
  "file_call env f a h args cb w =
     rbind (handle_at h w) (\<lambda>hi.
     uv_on_request env f a
       ([Ptr (u_loop (h_uv hi)), Num (c_int (u_result (h_uv hi)))] @ args @ [Callback cb]) w)"

text \<open>
  The run of a request on a file: \<open>upd\<close> is what it enters into the properties. The synchronous
  call returns its result as the status.
\<close>

definition fs_file_run ::
  "env \<Rightarrow> string \<Rightarrow> addr \<Rightarrow> addr \<Rightarrow> (req_properties \<Rightarrow> req_properties) \<Rightarrow> arg list \<Rightarrow> world \<Rightarrow>
   (int \<times> world) res" where
  "fs_file_run env f a h upd args w =
     rbind (request_at a w) (\<lambda>i.
     if r_request_cb i = None then
       rbind (props_mod a upd w) (\<lambda>w.
       rbind (file_call env f a h args False w) (request_return_status a))
     else
       rbind (handle_ref h w) (\<lambda>w.
       rbind (request_ref a w) (\<lambda>w.
       rbind (props_mod a upd w) (\<lambda>w.
       request_try env a (file_call env f a h args True) (handle_unref env h) w))))"

text \<open>The run of a request on a path that keeps no file of an earlier run.\<close>

definition fs_path_run_nofile ::
  "env \<Rightarrow> string \<Rightarrow> addr \<Rightarrow> addr \<Rightarrow> arg list \<Rightarrow> world \<Rightarrow> (int \<times> world) res" where
  "fs_path_run_nofile env f a l args w =
     rbind (fs_req_cleanup env a w) (\<lambda>w.
     rbind (request_at a w) (\<lambda>i.
     if r_request_cb i = None then
       rbind (props_mod a (\<lambda>p. p\<lparr>p_handle := None\<rparr>) w) (\<lambda>w.
       request_status_call env f a (Ptr (Some l) # args @ [Callback False]) w)
     else
       rbind (request_ref a w) (\<lambda>w.
       rbind (props_mod a (\<lambda>p. p\<lparr>p_handle := None\<rparr>) w) (\<lambda>w.
       request_try env a (uv_on_request env f a (Ptr (Some l) # args @ [Callback True])) Inr w))))"

text \<open>The run of a request that is about paths only.\<close>

definition fs_path_run ::
  "env \<Rightarrow> string \<Rightarrow> addr \<Rightarrow> addr \<Rightarrow> arg list \<Rightarrow> world \<Rightarrow> (int \<times> world) res" where
  "fs_path_run env f a l args w =
     rbind (fs_req_cleanup env a w) (\<lambda>w.
     rbind (request_at a w) (\<lambda>i.
     if r_request_cb i = None then
       request_status_call env f a (Ptr (Some l) # args @ [Callback False]) w
     else
       rbind (request_ref a w) (\<lambda>w.
       request_try env a (uv_on_request env f a (Ptr (Some l) # args @ [Callback True])) Inr w)))"

text \<open>\<open>instance_ptr->uv_error = _uv_req->result\<close>\<close>

definition fs_result_status :: "addr \<Rightarrow> world \<Rightarrow> world res" where
  "fs_result_status a w = request_mod a (\<lambda>i. i\<lparr>r_uv_error := c_int (q_result (r_uv i))\<rparr>) w"

text \<open>The completion handlers: of requests on a file, on a file or a path, and on paths.\<close>

definition fs_file_cb :: "env \<Rightarrow> addr \<Rightarrow> world \<Rightarrow> world res" where
  "fs_file_cb env a w =
     rbind (fs_result_status a w) (\<lambda>w.
     rbind (request_at a w) (\<lambda>i.
     rbind (deref (p_handle (r_props i))) (\<lambda>h.
     guarded env a (request_fire env a) (handle_unref env h) w)))"

definition fs_either_cb :: "env \<Rightarrow> addr \<Rightarrow> world \<Rightarrow> world res" where
  "fs_either_cb env a w =
     rbind (fs_result_status a w) (\<lambda>w.
     rbind (request_at a w) (\<lambda>i.
     case p_handle (r_props i) of
         Some h \<Rightarrow> guarded env a (request_fire env a) (handle_unref env h) w
       | None \<Rightarrow> guarded env a (request_fire env a) Inr w))"

definition fs_path_cb :: "env \<Rightarrow> addr \<Rightarrow> world \<Rightarrow> world res" where
  "fs_path_cb env a w =
     rbind (fs_result_status a w) (\<lambda>w. guarded env a (request_fire env a) Inr w)"

text \<open>\<open>handle()\<close> and \<open>path()\<close>: a request on a path has a new, closed file made up for it.\<close>

definition fs_handle :: "var \<Rightarrow> addr \<Rightarrow> world \<Rightarrow> world res" where
  "fs_handle v a w = rbind (request_at a w) (\<lambda>i. handle_from v (p_handle (r_props i)) w)"

definition fs_handle_or_path :: "env \<Rightarrow> var \<Rightarrow> addr \<Rightarrow> world \<Rightarrow> world res" where
  "fs_handle_or_path env v a w =
     rbind (request_at a w) (\<lambda>i.
     case p_handle (r_props i) of
         Some h \<Rightarrow> handle_from v (Some h) w
       | None \<Rightarrow>
           rbind (file_from_fd env (q_loop (r_uv i)) (-1) (q_path (r_uv i)) w) (\<lambda>(h, w).
           Inr (var_store v (Some (HandleO h)) w)))"

definition fs_path :: "addr \<Rightarrow> world \<Rightarrow> string option res" where
  "fs_path a w = rbind (request_at a w) (\<lambda>i. Inr (q_path (r_uv i)))"

definition fs_new_path :: "addr \<Rightarrow> world \<Rightarrow> string option res" where
  "fs_new_path a w = rbind (request_at a w) (\<lambda>i. Inr (q_new_path (r_uv i)))"

definition fs_ptr_result :: "addr \<Rightarrow> world \<Rightarrow> string option res" where
  "fs_ptr_result a w = rbind (request_at a w) (\<lambda>i. Inr (q_ptr (r_uv i)))"

definition fs_file_or_path :: "addr \<Rightarrow> world \<Rightarrow> string option res" where
  "fs_file_or_path a w =
     rbind (request_at a w) (\<lambda>i.
     case p_handle (r_props i) of
         Some h \<Rightarrow> rbind (handle_at h w) (\<lambda>hi. Inr (u_path (h_uv hi)))
       | None \<Rightarrow> Inr (q_path (r_uv i)))"

definition fs_offset :: "addr \<Rightarrow> world \<Rightarrow> int res" where
  "fs_offset a w = rbind (request_at a w) (\<lambda>i. Inr (p_offset (r_props i)))"

section \<open>Closing, reading and writing\<close>

definition fs_close_ctor :: "world \<Rightarrow> (addr \<times> world) res" where
  "fs_close_ctor = fs_ctor UV_FS_CLOSE"

definition fs_close_run :: "env \<Rightarrow> addr \<Rightarrow> addr \<Rightarrow> world \<Rightarrow> (int \<times> world) res" where
  "fs_close_run env a h w =
     rbind (fs_req_cleanup env a w) (\<lambda>w.
     rbind (file_mod h (\<lambda>p. p\<lparr>is_closing_flag := 1\<rparr>) w) (\<lambda>w.
     rbind (request_at a w) (\<lambda>i.
     if r_request_cb i = None then
       rbind (props_mod a (\<lambda>p. p\<lparr>p_handle := Some h\<rparr>) w) (\<lambda>w.
       rbind (read_stop env h w) (\<lambda>(r, w).
       rbind (file_call env ''uv_fs_close'' a h [] False w) (request_return_status a)))
     else
       rbind (handle_ref h w) (\<lambda>w.
       rbind (request_ref a w) (\<lambda>w.
       rbind (props_mod a (\<lambda>p. p\<lparr>p_handle := Some h\<rparr>) w) (\<lambda>w.
       rbind (read_stop env h w) (\<lambda>(r, w).
       request_try env a (file_call env ''uv_fs_close'' a h [] True) (handle_unref env h) w)))))))"

definition fs_close_cb :: "env \<Rightarrow> addr \<Rightarrow> world \<Rightarrow> world res" where
  "fs_close_cb = fs_file_cb"

definition fs_read_ctor :: "world \<Rightarrow> (addr \<times> world) res" where
  "fs_read_ctor = fs_ctor UV_FS_READ"

text \<open>The arguments that describe a buffer, its count read when the call is made.\<close>

definition file_buffer_call ::
  "env \<Rightarrow> string \<Rightarrow> addr \<Rightarrow> addr \<Rightarrow> addr \<Rightarrow> int \<Rightarrow> bool \<Rightarrow> world \<Rightarrow> (int \<times> world) res" where
  "file_buffer_call env f a h b offset cb w =
     rbind (buffer_count b w) (\<lambda>n.
     file_call env f a h [Ptr (Some b), Num (int n), Num offset] cb w)"

definition fs_read_at :: "env \<Rightarrow> addr \<Rightarrow> addr \<Rightarrow> addr \<Rightarrow> int \<Rightarrow> world \<Rightarrow> (int \<times> world) res" where
  "fs_read_at env a h b offset w =
     rbind (request_at a w) (\<lambda>i.
     if r_request_cb i = None then
       rbind (props_mod a (\<lambda>p. p\<lparr>p_handle := Some h, p_offset := offset\<rparr>) w) (\<lambda>w.
       rbind (file_buffer_call env ''uv_fs_read'' a h b offset False w) (request_return_status a))
     else
       rbind (handle_ref h w) (\<lambda>w.
       rbind (buffer_ref b w) (\<lambda>w.
       rbind (request_ref a w) (\<lambda>w.
       rbind (props_mod a (\<lambda>p. p\<lparr>p_handle := Some h, p_buf := Some b, p_offset := offset\<rparr>) w) (\<lambda>w.
       request_try env a (file_buffer_call env ''uv_fs_read'' a h b offset True)
         (\<lambda>w. rbind (handle_unref env h w) (buffer_unref env b)) w)))))"

definition fs_read_run :: "env \<Rightarrow> addr \<Rightarrow> addr \<Rightarrow> addr \<Rightarrow> int \<Rightarrow> world \<Rightarrow> (int \<times> world) res" where
  "fs_read_run env a h b offset w =
     rbind (fs_req_cleanup env a w) (\<lambda>w.
     rbind (file_offset env h offset w) (\<lambda>(offset, w). fs_read_at env a h b offset w))"

definition fs_read_cb :: "env \<Rightarrow> addr \<Rightarrow> world \<Rightarrow> world res" where
  "fs_read_cb env a w =
     rbind (fs_result_status a w) (\<lambda>w.
     rbind (request_at a w) (\<lambda>i.
     rbind (deref (p_handle (r_props i))) (\<lambda>h.
     guarded env a (request_fire_buffer env a) (handle_unref env h) w)))"

definition fs_write_ctor :: "world \<Rightarrow> (addr \<times> world) res" where
  "fs_write_ctor = fs_ctor UV_FS_WRITE"

text \<open>The size of a write is the sum of the lengths of its buffers, as an unsigned number.\<close>

definition write_size :: "addr \<Rightarrow> world \<Rightarrow> 64 word res" where
  "write_size b w = rbind (buffer_at b w) (\<lambda>i. Inr (sum_list (b_lens i)))"

definition fs_write_at :: "env \<Rightarrow> addr \<Rightarrow> addr \<Rightarrow> addr \<Rightarrow> int \<Rightarrow> world \<Rightarrow> (int \<times> world) res" where
  "fs_write_at env a h b offset w =
     rbind (request_at a w) (\<lambda>i.
     if r_request_cb i = None then
       rbind (props_mod a (\<lambda>p. p\<lparr>p_handle := Some h, p_offset := offset\<rparr>) w) (\<lambda>w.
       rbind (file_buffer_call env ''uv_fs_write'' a h b offset False w) (request_return_status a))
     else
       rbind (handle_ref h w) (\<lambda>w.
       rbind (buffer_ref b w) (\<lambda>w.
       rbind (request_ref a w) (\<lambda>w.
       rbind (write_size b w) (\<lambda>wr_size.
       rbind (props_mod a (\<lambda>p. p\<lparr>p_handle := Some h, p_buf := Some b, p_offset := offset,
           p_pending_size := wr_size\<rparr>) w) (\<lambda>w.
       rbind (file_mod h (\<lambda>p. p\<lparr>write_queue_size := write_queue_size p + wr_size\<rparr>) w) (\<lambda>w.
       request_try env a (file_buffer_call env ''uv_fs_write'' a h b offset True)
         (\<lambda>w. rbind (file_mod h (\<lambda>p. p\<lparr>write_queue_size := write_queue_size p - wr_size\<rparr>) w) (\<lambda>w.
              rbind (handle_unref env h w) (buffer_unref env b))) w)))))))"

definition fs_write_run :: "env \<Rightarrow> addr \<Rightarrow> addr \<Rightarrow> addr \<Rightarrow> int \<Rightarrow> world \<Rightarrow> (int \<times> world) res" where
  "fs_write_run env a h b offset w =
     rbind (fs_req_cleanup env a w) (\<lambda>w.
     rbind (file_offset env h offset w) (\<lambda>(offset, w). fs_write_at env a h b offset w))"

definition fs_write_try :: "env \<Rightarrow> addr \<Rightarrow> addr \<Rightarrow> addr \<Rightarrow> int \<Rightarrow> world \<Rightarrow> (int \<times> world) res" where
  "fs_write_try env a h b offset w =
     rbind (fs_req_cleanup env a w) (\<lambda>w.
     rbind (io_write_queue_size h w) (\<lambda>n.
     if n \<noteq> 0 then request_return_status a (UV_EAGAIN, w)
     else
       rbind (file_offset env h offset w) (\<lambda>(offset, w).
       rbind (props_mod a (\<lambda>p. p\<lparr>p_handle := Some h, p_offset := offset\<rparr>) w) (\<lambda>w.
       rbind (file_buffer_call env ''uv_fs_write'' a h b offset False w) (request_return_status a)))))"

definition fs_write_cb :: "env \<Rightarrow> addr \<Rightarrow> world \<Rightarrow> world res" where
  "fs_write_cb env a w =
     rbind (fs_result_status a w) (\<lambda>w.
     rbind (request_at a w) (\<lambda>i.
     rbind (deref (p_handle (r_props i))) (\<lambda>h.
     rbind (file_mod h (\<lambda>p. p\<lparr>write_queue_size := write_queue_size p - p_pending_size (r_props i)\<rparr>) w) (\<lambda>w.
     guarded env a (request_fire_buffer env a) (handle_unref env h) w))))"

section \<open>Other operations on a file\<close>

definition fs_sync_ctor :: "world \<Rightarrow> (addr \<times> world) res" where
  "fs_sync_ctor = fs_ctor UV_FS_FSYNC"

definition fs_sync_run :: "env \<Rightarrow> addr \<Rightarrow> addr \<Rightarrow> bool \<Rightarrow> world \<Rightarrow> (int \<times> world) res" where
  "fs_sync_run env a h flush_all_metadata w =
     rbind (fs_req_cleanup env a w)
       (fs_file_run env (if flush_all_metadata then ''uv_fs_fsync'' else ''uv_fs_fdatasync'') a h
         (\<lambda>p. p\<lparr>p_handle := Some h\<rparr>) [])"

definition fs_sync_cb :: "env \<Rightarrow> addr \<Rightarrow> world \<Rightarrow> world res" where
  "fs_sync_cb = fs_file_cb"

definition fs_truncate_ctor :: "world \<Rightarrow> (addr \<times> world) res" where
  "fs_truncate_ctor = fs_ctor UV_FS_FTRUNCATE"

definition fs_truncate_run :: "env \<Rightarrow> addr \<Rightarrow> addr \<Rightarrow> int \<Rightarrow> world \<Rightarrow> (int \<times> world) res" where
  "fs_truncate_run env a h offset w =
     rbind (fs_req_cleanup env a w) (\<lambda>w.
     rbind (file_offset env h offset w) (\<lambda>(offset, w).
     fs_file_run env ''uv_fs_ftruncate'' a h (\<lambda>p. p\<lparr>p_handle := Some h, p_offset := offset\<rparr>)
       [Num offset] w))"

definition fs_truncate_cb :: "env \<Rightarrow> addr \<Rightarrow> world \<Rightarrow> world res" where
  "fs_truncate_cb = fs_file_cb"

definition fs_sendfile_ctor :: "world \<Rightarrow> (addr \<times> world) res" where
  "fs_sendfile_ctor = fs_ctor UV_FS_SENDFILE"

text \<open>
  The descriptor of the output endpoint: for a file the result of its open request, otherwise
  what \<open>fileno()\<close> finds, a number on this platform, which is \<open>-1\<close> unless libuv stores another.
\<close>

definition sendfile_out :: "env \<Rightarrow> addr \<Rightarrow> world \<Rightarrow> (int \<times> world) res" where
  "sendfile_out env out w =
     rbind (handle_type out w) (\<lambda>t.
     if t = UV_FILE then rbind (file_fd out w) (\<lambda>fd. Inr (fd, w)) else handle_fileno env out w)"

definition sendfile_call ::
  "env \<Rightarrow> addr \<Rightarrow> int \<Rightarrow> addr \<Rightarrow> int \<Rightarrow> 64 word \<Rightarrow> bool \<Rightarrow> world \<Rightarrow> (int \<times> world) res" where
  "sendfile_call env a out h offset len cb w =
     rbind (handle_at h w) (\<lambda>hi.
     uv_on_request env ''uv_fs_sendfile'' a
       [Ptr (u_loop (h_uv hi)), Num out, Num (c_int (u_result (h_uv hi))), Num offset, U64 len,
        Callback cb] w)"

text \<open>The bytes to be written to a file count in its queue.\<close>

definition out_queue_add :: "addr \<Rightarrow> 64 word \<Rightarrow> world \<Rightarrow> world res" where
  "out_queue_add out n w =
     rbind (handle_type out w) (\<lambda>t.
     if t = UV_FILE then file_mod out (\<lambda>p. p\<lparr>write_queue_size := write_queue_size p + n\<rparr>) w
     else Inr w)"

definition out_queue_sub :: "addr \<Rightarrow> 64 word \<Rightarrow> world \<Rightarrow> world res" where
  "out_queue_sub out n w =
     rbind (handle_type out w) (\<lambda>t.
     if t = UV_FILE then file_mod out (\<lambda>p. p\<lparr>write_queue_size := write_queue_size p - n\<rparr>) w
     else Inr w)"

definition fs_sendfile_at ::
  "env \<Rightarrow> addr \<Rightarrow> addr \<Rightarrow> int \<Rightarrow> addr \<Rightarrow> int \<Rightarrow> 64 word \<Rightarrow> world \<Rightarrow> (int \<times> world) res" where
  "fs_sendfile_at env a out fd h offset len w =
     rbind (request_at a w) (\<lambda>i.
     if r_request_cb i = None then
       rbind (props_mod a (\<lambda>p. p\<lparr>p_handle_out := Some out, p_handle := Some h, p_offset := offset\<rparr>) w) (\<lambda>w.
       rbind (sendfile_call env a fd h offset len False w) (request_return_status a))
     else
       rbind (handle_ref out w) (\<lambda>w.
       rbind (handle_ref h w) (\<lambda>w.
       rbind (request_ref a w) (\<lambda>w.
       rbind (props_mod a (\<lambda>p. p\<lparr>p_handle_out := Some out, p_handle := Some h, p_offset := offset,
           p_pending_size := len\<rparr>) w) (\<lambda>w.
       rbind (out_queue_add out len w) (\<lambda>w.
       request_try env a (sendfile_call env a fd h offset len True)
         (\<lambda>w. rbind (out_queue_sub out len w) (\<lambda>w. rbind (handle_unref env out w) (handle_unref env h)))
         w))))))"

definition fs_sendfile_run ::
  "env \<Rightarrow> addr \<Rightarrow> addr \<Rightarrow> addr \<Rightarrow> int \<Rightarrow> 64 word \<Rightarrow> world \<Rightarrow> (int \<times> world) res" where
  "fs_sendfile_run env a out h offset len w =
     rbind (fs_req_cleanup env a w) (\<lambda>w.
     rbind (sendfile_out env out w) (\<lambda>(fd, w).
     if fd = -1 then Inr (UV_EBADF, w)
     else
       rbind (file_offset env h offset w) (\<lambda>(offset, w). fs_sendfile_at env a out fd h offset len w)))"

definition fs_sendfile_cb :: "env \<Rightarrow> addr \<Rightarrow> world \<Rightarrow> world res" where
  "fs_sendfile_cb env a w =
     rbind (fs_result_status a w) (\<lambda>w.
     rbind (request_at a w) (\<lambda>i.
     rbind (deref (p_handle_out (r_props i))) (\<lambda>out.
     rbind (deref (p_handle (r_props i))) (\<lambda>h.
     rbind (out_queue_sub out (p_pending_size (r_props i)) w) (\<lambda>w.
     guarded env a (request_fire env a) (\<lambda>w. rbind (handle_unref env h w) (handle_unref env out)) w)))))"

definition fs_sendfile_handle_out :: "var \<Rightarrow> addr \<Rightarrow> world \<Rightarrow> world res" where
  "fs_sendfile_handle_out v a w = rbind (request_at a w) (\<lambda>i. handle_from v (p_handle_out (r_props i)) w)"

section \<open>Operations on a file or a path\<close>

definition fs_stat_ctor :: "world \<Rightarrow> (addr \<times> world) res" where
  "fs_stat_ctor = fs_ctor UV_FS_STAT"

definition fs_stat_run ::
  "env \<Rightarrow> addr \<Rightarrow> addr \<Rightarrow> string \<Rightarrow> bool \<Rightarrow> world \<Rightarrow> (int \<times> world) res" where
  "fs_stat_run env a l path follow_symlinks w =
     fs_path_run_nofile env (if follow_symlinks then ''uv_fs_stat'' else ''uv_fs_lstat'') a l [Str path] w"

definition fs_stat_run_file :: "env \<Rightarrow> addr \<Rightarrow> addr \<Rightarrow> world \<Rightarrow> (int \<times> world) res" where
  "fs_stat_run_file env a h w =
     rbind (fs_req_cleanup env a w)
       (fs_file_run env ''uv_fs_fstat'' a h (\<lambda>p. p\<lparr>p_handle := Some h\<rparr>) [])"

definition fs_stat_cb :: "env \<Rightarrow> addr \<Rightarrow> world \<Rightarrow> world res" where
  "fs_stat_cb = fs_either_cb"

definition fs_chmod_handle :: "env \<Rightarrow> var \<Rightarrow> addr \<Rightarrow> world \<Rightarrow> world res" where
  "fs_chmod_handle = fs_handle_or_path"

definition fs_chmod_path :: "addr \<Rightarrow> world \<Rightarrow> string option res" where
  "fs_chmod_path = fs_file_or_path"

definition fs_chmod_ctor :: "world \<Rightarrow> (addr \<times> world) res" where
  "fs_chmod_ctor = fs_ctor UV_FS_CHMOD"

definition fs_chmod_run ::
  "env \<Rightarrow> addr \<Rightarrow> addr \<Rightarrow> string \<Rightarrow> int \<Rightarrow> world \<Rightarrow> (int \<times> world) res" where
  "fs_chmod_run env a l path mode w =
     fs_path_run_nofile env ''uv_fs_chmod'' a l ([Str path] @ [Num mode]) w"

definition fs_chmod_run_file ::
  "env \<Rightarrow> addr \<Rightarrow> addr \<Rightarrow> int \<Rightarrow> world \<Rightarrow> (int \<times> world) res" where
  "fs_chmod_run_file env a h mode w =
     rbind (fs_req_cleanup env a w)
       (fs_file_run env ''uv_fs_fchmod'' a h (\<lambda>p. p\<lparr>p_handle := Some h\<rparr>) [Num mode])"

definition fs_chmod_cb :: "env \<Rightarrow> addr \<Rightarrow> world \<Rightarrow> world res" where
  "fs_chmod_cb = fs_either_cb"

definition fs_chown_handle :: "env \<Rightarrow> var \<Rightarrow> addr \<Rightarrow> world \<Rightarrow> world res" where
  "fs_chown_handle = fs_handle_or_path"

definition fs_chown_path :: "addr \<Rightarrow> world \<Rightarrow> string option res" where
  "fs_chown_path = fs_file_or_path"

definition fs_chown_ctor :: "world \<Rightarrow> (addr \<times> world) res" where
  "fs_chown_ctor = fs_ctor UV_FS_CHOWN"

definition fs_chown_run ::
  "env \<Rightarrow> addr \<Rightarrow> addr \<Rightarrow> string \<Rightarrow> int \<Rightarrow> int \<Rightarrow> world \<Rightarrow> (int \<times> world) res" where
  "fs_chown_run env a l path uid gid w =
     fs_path_run_nofile env ''uv_fs_chown'' a l ([Str path] @ [Num uid, Num gid]) w"

definition fs_chown_run_file ::
  "env \<Rightarrow> addr \<Rightarrow> addr \<Rightarrow> int \<Rightarrow> int \<Rightarrow> world \<Rightarrow> (int \<times> world) res" where
  "fs_chown_run_file env a h uid gid w =
     rbind (fs_req_cleanup env a w)
       (fs_file_run env ''uv_fs_fchown'' a h (\<lambda>p. p\<lparr>p_handle := Some h\<rparr>) [Num uid, Num gid])"

definition fs_chown_cb :: "env \<Rightarrow> addr \<Rightarrow> world \<Rightarrow> world res" where
  "fs_chown_cb = fs_either_cb"

definition fs_utime_handle :: "env \<Rightarrow> var \<Rightarrow> addr \<Rightarrow> world \<Rightarrow> world res" where
  "fs_utime_handle = fs_handle_or_path"

definition fs_utime_path :: "addr \<Rightarrow> world \<Rightarrow> string option res" where
  "fs_utime_path = fs_file_or_path"

definition fs_utime_ctor :: "world \<Rightarrow> (addr \<times> world) res" where
  "fs_utime_ctor = fs_ctor UV_FS_UTIME"

definition fs_utime_run ::
  "env \<Rightarrow> addr \<Rightarrow> addr \<Rightarrow> string \<Rightarrow> arg \<Rightarrow> arg \<Rightarrow> world \<Rightarrow> (int \<times> world) res" where
  "fs_utime_run env a l path atime mtime w =
     fs_path_run_nofile env ''uv_fs_utime'' a l ([Str path] @ [atime, mtime]) w"

definition fs_utime_run_file ::
  "env \<Rightarrow> addr \<Rightarrow> addr \<Rightarrow> arg \<Rightarrow> arg \<Rightarrow> world \<Rightarrow> (int \<times> world) res" where
  "fs_utime_run_file env a h atime mtime w =
     rbind (fs_req_cleanup env a w)
       (fs_file_run env ''uv_fs_futime'' a h (\<lambda>p. p\<lparr>p_handle := Some h\<rparr>) [atime, mtime])"

definition fs_utime_cb :: "env \<Rightarrow> addr \<Rightarrow> world \<Rightarrow> world res" where
  "fs_utime_cb = fs_either_cb"

section \<open>Operations on paths\<close>

definition fs_unlink_ctor :: "world \<Rightarrow> (addr \<times> world) res" where
  "fs_unlink_ctor = fs_ctor UV_FS_UNLINK"

definition fs_unlink_run ::
  "env \<Rightarrow> addr \<Rightarrow> addr \<Rightarrow> string \<Rightarrow> world \<Rightarrow> (int \<times> world) res" where
  "fs_unlink_run env a l path w = fs_path_run env ''uv_fs_unlink'' a l [Str path] w"

definition fs_unlink_cb :: "env \<Rightarrow> addr \<Rightarrow> world \<Rightarrow> world res" where
  "fs_unlink_cb = fs_path_cb"

definition fs_mkdir_ctor :: "world \<Rightarrow> (addr \<times> world) res" where
  "fs_mkdir_ctor = fs_ctor UV_FS_MKDIR"

definition fs_mkdir_run ::
  "env \<Rightarrow> addr \<Rightarrow> addr \<Rightarrow> string \<Rightarrow> int \<Rightarrow> world \<Rightarrow> (int \<times> world) res" where
  "fs_mkdir_run env a l path mode w = fs_path_run env ''uv_fs_mkdir'' a l [Str path, Num mode] w"

definition fs_mkdir_cb :: "env \<Rightarrow> addr \<Rightarrow> world \<Rightarrow> world res" where
  "fs_mkdir_cb = fs_path_cb"

definition fs_mkdtemp_ctor :: "world \<Rightarrow> (addr \<times> world) res" where
  "fs_mkdtemp_ctor = fs_ctor UV_FS_MKDTEMP"

definition fs_mkdtemp_run ::
  "env \<Rightarrow> addr \<Rightarrow> addr \<Rightarrow> string \<Rightarrow> world \<Rightarrow> (int \<times> world) res" where
  "fs_mkdtemp_run env a l tmpl w = fs_path_run env ''uv_fs_mkdtemp'' a l [Str tmpl] w"

definition fs_mkdtemp_cb :: "env \<Rightarrow> addr \<Rightarrow> world \<Rightarrow> world res" where
  "fs_mkdtemp_cb = fs_path_cb"

definition fs_rmdir_ctor :: "world \<Rightarrow> (addr \<times> world) res" where
  "fs_rmdir_ctor = fs_ctor UV_FS_RMDIR"

definition fs_rmdir_run ::
  "env \<Rightarrow> addr \<Rightarrow> addr \<Rightarrow> string \<Rightarrow> world \<Rightarrow> (int \<times> world) res" where
  "fs_rmdir_run env a l path w = fs_path_run env ''uv_fs_rmdir'' a l [Str path] w"

definition fs_rmdir_cb :: "env \<Rightarrow> addr \<Rightarrow> world \<Rightarrow> world res" where
  "fs_rmdir_cb = fs_path_cb"

definition fs_scandir_ctor :: "world \<Rightarrow> (addr \<times> world) res" where
  "fs_scandir_ctor = fs_ctor UV_FS_SCANDIR"

definition fs_scandir_run ::
  "env \<Rightarrow> addr \<Rightarrow> addr \<Rightarrow> string \<Rightarrow> world \<Rightarrow> (int \<times> world) res" where
  "fs_scandir_run env a l path w = fs_path_run env ''uv_fs_scandir'' a l [Str path, Num 0] w"

text \<open>The next entry of the directory is left in a structure of the caller.\<close>

definition fs_scandir_next :: "env \<Rightarrow> addr \<Rightarrow> world \<Rightarrow> (int \<times> world) res" where
  "fs_scandir_next env a w = request_status_call env ''uv_fs_scandir_next'' a [] w"

definition fs_scandir_cb :: "env \<Rightarrow> addr \<Rightarrow> world \<Rightarrow> world res" where
  "fs_scandir_cb = fs_path_cb"

definition fs_rename_ctor :: "world \<Rightarrow> (addr \<times> world) res" where
  "fs_rename_ctor = fs_ctor UV_FS_RENAME"

definition fs_rename_run ::
  "env \<Rightarrow> addr \<Rightarrow> addr \<Rightarrow> string \<Rightarrow> string \<Rightarrow> world \<Rightarrow> (int \<times> world) res" where
  "fs_rename_run env a l path new_path w = fs_path_run env ''uv_fs_rename'' a l [Str path, Str new_path] w"

definition fs_rename_cb :: "env \<Rightarrow> addr \<Rightarrow> world \<Rightarrow> world res" where
  "fs_rename_cb = fs_path_cb"

definition fs_access_ctor :: "world \<Rightarrow> (addr \<times> world) res" where
  "fs_access_ctor = fs_ctor UV_FS_ACCESS"

definition fs_access_run ::
  "env \<Rightarrow> addr \<Rightarrow> addr \<Rightarrow> string \<Rightarrow> int \<Rightarrow> world \<Rightarrow> (int \<times> world) res" where
  "fs_access_run env a l path mode w = fs_path_run env ''uv_fs_access'' a l [Str path, Num mode] w"

definition fs_access_cb :: "env \<Rightarrow> addr \<Rightarrow> world \<Rightarrow> world res" where
  "fs_access_cb = fs_path_cb"

definition fs_link_ctor :: "world \<Rightarrow> (addr \<times> world) res" where
  "fs_link_ctor = fs_ctor UV_FS_LINK"

definition fs_link_run ::
  "env \<Rightarrow> addr \<Rightarrow> addr \<Rightarrow> string \<Rightarrow> string \<Rightarrow> bool \<Rightarrow> int \<Rightarrow> world \<Rightarrow> (int \<times> world) res" where
  "fs_link_run env a l path link_path symlink symlink_flags w =
     (if symlink then fs_path_run env ''uv_fs_symlink'' a l [Str path, Str link_path, Num symlink_flags] w
      else fs_path_run env ''uv_fs_link'' a l [Str path, Str link_path] w)"

definition fs_link_cb :: "env \<Rightarrow> addr \<Rightarrow> world \<Rightarrow> world res" where
  "fs_link_cb = fs_path_cb"

definition fs_readlink_ctor :: "world \<Rightarrow> (addr \<times> world) res" where
  "fs_readlink_ctor = fs_ctor UV_FS_READLINK"

definition fs_readlink_run ::
  "env \<Rightarrow> addr \<Rightarrow> addr \<Rightarrow> string \<Rightarrow> world \<Rightarrow> (int \<times> world) res" where
  "fs_readlink_run env a l path w = fs_path_run env ''uv_fs_readlink'' a l [Str path] w"

definition fs_readlink_cb :: "env \<Rightarrow> addr \<Rightarrow> world \<Rightarrow> world res" where
  "fs_readlink_cb = fs_path_cb"

definition fs_realpath_ctor :: "world \<Rightarrow> (addr \<times> world) res" where
  "fs_realpath_ctor = fs_ctor UV_FS_REALPATH"

definition fs_realpath_run ::
  "env \<Rightarrow> addr \<Rightarrow> addr \<Rightarrow> string \<Rightarrow> world \<Rightarrow> (int \<times> world) res" where
  "fs_realpath_run env a l path w = fs_path_run env ''uv_fs_realpath'' a l [Str path] w"

definition fs_realpath_cb :: "env \<Rightarrow> addr \<Rightarrow> world \<Rightarrow> world res" where
  "fs_realpath_cb = fs_path_cb"

section \<open>Steps\<close>

lemma cleanup_step_trace:
  assumes "winv E w" "requests w a = Some i"
    "\<And>w' u. winv E w' \<Longrightarrow> vars w' = vars w \<Longrightarrow> handles w' = handles w \<Longrightarrow> buffers w' = buffers w \<Longrightarrow>
       requests w' a = Some (i\<lparr>r_uv := u\<rparr>) \<Longrightarrow>
       trace w' = trace w @ [Call ''uv_fs_req_cleanup'' [Ptr (Some a)]] \<Longrightarrow> ok Q (k w')"
  shows "ok Q (rbind (fs_req_cleanup env a w) k)"
proof -
  let ?j = "i\<lparr>r_uv := uv_req_eff env (trace w) (Call ''uv_fs_req_cleanup'' [Ptr (Some a)]) (r_uv i)\<rparr>"
  have "winv E (request_put a ?j w)" by (rule winv_request_put [OF assms(1,2)]) simp
  with assms(2) assms(3) [of "emit (Call ''uv_fs_req_cleanup'' [Ptr (Some a)]) (request_put a ?j w)"]
  show ?thesis
    by (simp add: fs_req_cleanup_def uv_on_request_def Let_def store_simps)
qed

lemma cleanup_step:
  assumes "winv E w" "requests w a = Some i"
    "\<And>w' u. winv E w' \<Longrightarrow> vars w' = vars w \<Longrightarrow> handles w' = handles w \<Longrightarrow> buffers w' = buffers w \<Longrightarrow>
       requests w' a = Some (i\<lparr>r_uv := u\<rparr>) \<Longrightarrow> ok Q (k w')"
  shows "ok Q (rbind (fs_req_cleanup env a w) k)"
  by (rule cleanup_step_trace [OF assms(1,2)]) (rule assms(3))

lemma offset_step:
  assumes "winv E w" "handles w h = Some hi"
    "\<And>off w'. winv E w' \<Longrightarrow> vars w' = vars w \<Longrightarrow> handles w' = handles w \<Longrightarrow> buffers w' = buffers w \<Longrightarrow>
       requests w' = requests w \<Longrightarrow> ok Q (k (off, w'))"
  shows "ok Q (rbind (file_offset env h offset w) k)"
  using assms by (simp add: file_offset_def file_fd_def uv_def store_simps)

lemma file_mod_step:
  assumes "winv E w" "handles w h = Some hi"
    "\<And>w' j. winv E w' \<Longrightarrow> vars w' = vars w \<Longrightarrow> handles w' = (handles w)(h \<mapsto> hi\<lparr>h_file := f (h_file hi)\<rparr>) \<Longrightarrow>
       buffers w' = buffers w \<Longrightarrow> requests w' = requests w \<Longrightarrow> ok Q (k w')"
  shows "ok Q (rbind (file_mod h f w) k)"
  using winv_handle_put [OF assms(1,2), of "hi\<lparr>h_file := f (h_file hi)\<rparr>"] assms(2,3)
  by (simp add: file_mod_def store_simps)

lemma owned_handle:
  assumes "winv E w" "0 < E (HandleO h)"
  obtains i where "handles w h = Some i"
  using winv_owned_live' [OF assms] by (auto simp: live_handle)

lemma return_status_ok:
  assumes "winv E w" "requests w a = Some i"
  shows "ok (\<lambda>(r', w'). r' = r \<and> winv E w' \<and> (\<exists>j. requests w' a = Some j \<and> r_uv_error j = r))
    (request_return_status a (r, w))"
  unfolding request_return_status_def prod.case
  by (rule set_status [OF assms]) auto

text \<open>The outcome of a synchronous call: the result is the status.\<close>

definition returned :: "(obj \<Rightarrow> nat) \<Rightarrow> addr \<Rightarrow> int \<times> world \<Rightarrow> bool" where
  "returned E a = (\<lambda>(r, w). winv E w \<and> (\<exists>i. requests w a = Some i \<and> r_uv_error i = r))"

text \<open>The outcome of a run, according to whether the request has a callback.\<close>

definition ran ::
  "cb option \<Rightarrow> (obj \<Rightarrow> nat) \<Rightarrow> (obj \<Rightarrow> nat) \<Rightarrow> addr \<Rightarrow> (req_instance \<Rightarrow> bool) \<Rightarrow> int \<times> world \<Rightarrow> bool" where
  "ran c E F a P = (if c = None then returned E a else started E F a P)"

lemma ran_simps [simp]: "ran None E F a P = returned E a" "ran (Some c) E F a P = started E F a P"
  by (simp_all add: ran_def)

lemma returned_status:
  assumes "winv E w" "requests w a = Some i"
  shows "ok (returned E a) (request_return_status a (r, w))"
  by (rule ok_weaken [OF return_status_ok [OF assms]]) (auto simp: returned_def)

lemma returned_call:
  assumes "winv E w" "requests w a = Some i"
  shows "ok (returned E a) (request_status_call env f a args w)"
  by (rule ok_weaken [OF request_status_call_ok [OF assms]]) (auto simp: returned_def)

lemma file_call_sync:
  assumes "winv E w" "requests w a = Some i" "handles w h = Some hi"
  shows "ok (returned E a) (rbind (file_call env f a h args False w) (request_return_status a))"
proof -
  have "ok (returned E a) (rbind (uv_on_request env f a as w) (request_return_status a))" for as
    by (rule ok_bind [OF uv_on_request_ok [OF assms(1,2)]]) (auto intro: returned_status)
  with assms(3) show ?thesis by (simp add: file_call_def)
qed

lemma file_call_pending:
  assumes "winv (inc (RequestO a) F) w" "requests w a = Some i" "0 < F (HandleO h)"
    "\<And>u. P (i\<lparr>r_uv := u\<rparr>)"
  shows "ok (\<lambda>(r :: int, w'). pending F a (\<lambda>j. 0 \<le> r \<longrightarrow> P j) w') (file_call env f a h args True w)"
proof -
  from assms(3) have "0 < inc (RequestO a) F (HandleO h)" by (simp add: inc_apply)
  from owned_handle [OF assms(1) this] obtain hi where "handles w h = Some hi" .
  then show ?thesis
    by (simp add: file_call_def uv_call_pending [OF assms(1,2)] assms(4))
qed

lemma file_buffer_call_pending:
  assumes "winv (inc (RequestO a) F) w" "requests w a = Some i" "0 < F (HandleO h)" "0 < F (BufferO b)"
    "\<And>u. P (i\<lparr>r_uv := u\<rparr>)"
  shows "ok (\<lambda>(r :: int, w'). pending F a (\<lambda>j. 0 \<le> r \<longrightarrow> P j) w')
    (file_buffer_call env f a h b offset True w)"
  unfolding file_buffer_call_def
  by (rule count_step [OF assms(1)]) (use assms in \<open>simp_all add: inc_apply file_call_pending\<close>)

section \<open>The shared runs\<close>

text \<open>What a run needs: the request and the file it works on are held by the program.\<close>

lemma fs_file_run_ok:
  assumes "closes_loops env" "winv E w" "refers w (RequestO a)" "refers w (HandleO h)"
    "requests w a = Some i" "\<And>p. p_handle (upd p) = Some h"
  shows "ok (ran (r_request_cb i) E (inc (HandleO h) E) a (\<lambda>i. p_handle (r_props i) = Some h))
    (fs_file_run env f a h upd args w)"
proof (cases "r_request_cb i")
  case None
  from refers_handle [OF assms(2,4)] obtain hi where "handles w h = Some hi" .
  then have "ok (returned E a) (rbind (props_mod a upd w) (\<lambda>w.
      rbind (file_call env f a h args False w) (request_return_status a)))"
    by (intro set_props [OF assms(2,5)] file_call_sync) auto
  with None assms(5) show ?thesis by (simp add: fs_file_run_def)
next
  case (Some c)
  have "ok (started E (inc (HandleO h) E) a (\<lambda>i. p_handle (r_props i) = Some h))
    (rbind (handle_ref h w) (\<lambda>w. rbind (request_ref a w) (\<lambda>w. rbind (props_mod a upd w)
      (request_try env a (file_call env f a h args True) (handle_unref env h)))))"
    by (rule run_handle_props_ok [OF assms(1-4)], rule file_call_pending)
      (use assms(6) in \<open>auto simp: inc_apply\<close>)
  with Some assms(5) show ?thesis by (simp add: fs_file_run_def)
qed

lemma fs_path_run_ok:
  assumes "winv E w" "refers w (RequestO a)" "requests w a = Some i"
  shows "ok (ran (r_request_cb i) E E a (\<lambda>_. True)) (fs_path_run env f a l args w)"
  unfolding fs_path_run_def
proof (rule cleanup_step [OF assms(1,3)])
  fix w1 u assume w1: "winv E w1" "vars w1 = vars w" "requests w1 a = Some (i\<lparr>r_uv := u\<rparr>)"
  have "ok (started E E a (\<lambda>_. True)) (rbind (request_ref a w1)
      (request_try env a (uv_on_request env f a (Ptr (Some l) # args @ [Callback True])) Inr))"
    by (rule run_request_ok [OF w1(1)], use w1(2) assms(2) in \<open>simp add: refers_def\<close>,
        rule uv_call_pending) auto
  with returned_call [OF w1(1,3)] show "ok (ran (r_request_cb i) E E a (\<lambda>_. True)) (rbind (request_at a w1) (\<lambda>i.
     if r_request_cb i = None then
       request_status_call env f a (Ptr (Some l) # args @ [Callback False]) w1
     else
       rbind (request_ref a w1)
         (request_try env a (uv_on_request env f a (Ptr (Some l) # args @ [Callback True])) Inr)))"
    using w1(3) by (cases "r_request_cb i") simp_all
qed

lemma fs_path_run_nofile_ok:
  assumes "winv E w" "refers w (RequestO a)" "requests w a = Some i"
  shows "ok (ran (r_request_cb i) E E a (\<lambda>i. p_handle (r_props i) = None)) (fs_path_run_nofile env f a l args w)"
  unfolding fs_path_run_nofile_def
proof (rule cleanup_step [OF assms(1,3)])
  let ?upd = "\<lambda>p. p\<lparr>p_handle := None\<rparr>"
  fix w1 u assume w1: "winv E w1" "vars w1 = vars w" "requests w1 a = Some (i\<lparr>r_uv := u\<rparr>)"
  have sync: "ok (returned E a) (rbind (props_mod a ?upd w1) (\<lambda>w.
       request_status_call env f a (Ptr (Some l) # args @ [Callback False]) w))"
    by (rule set_props [OF w1(1,3)]) (rule returned_call)
  have "refers w1 (RequestO a)" using w1(2) assms(2) by (simp add: refers_def)
  with w1(1) have async: "ok (started E E a (\<lambda>i. p_handle (r_props i) = None)) (rbind (request_ref a w1) (\<lambda>w.
       rbind (props_mod a ?upd w)
         (request_try env a (uv_on_request env f a (Ptr (Some l) # args @ [Callback True])) Inr)))"
  proof (rule hold_request)
    fix w2 assume w2: "winv (inc (RequestO a) E) w2" "vars w2 = vars w1"
    with w1(2) assms(2) have "refers w2 (RequestO a)" by (simp add: refers_def)
    from refers_request [OF w2(1) this] obtain j where j: "requests w2 a = Some j" .
    show "ok (started E E a (\<lambda>i. p_handle (r_props i) = None)) (rbind (props_mod a ?upd w2)
       (request_try env a (uv_on_request env f a (Ptr (Some l) # args @ [Callback True])) Inr))"
      by (rule set_props [OF w2(1) j], rule request_try_ok, assumption, assumption,
          rule uv_call_pending) auto
  qed
  show "ok (ran (r_request_cb i) E E a (\<lambda>i. p_handle (r_props i) = None)) (rbind (request_at a w1) (\<lambda>i.
     if r_request_cb i = None then
       rbind (props_mod a ?upd w1) (\<lambda>w.
       request_status_call env f a (Ptr (Some l) # args @ [Callback False]) w)
     else
       rbind (request_ref a w1) (\<lambda>w. rbind (props_mod a ?upd w)
         (request_try env a (uv_on_request env f a (Ptr (Some l) # args @ [Callback True])) Inr))))"
    using w1(3) sync async by (cases "r_request_cb i") simp_all
qed

text \<open>With the clean-up every run begins with.\<close>

lemma fs_file_op_ok:
  assumes "closes_loops env" "winv E w" "refers w (RequestO a)" "refers w (HandleO h)"
    "requests w a = Some i" "\<And>p. p_handle (upd p) = Some h"
  shows "ok (ran (r_request_cb i) E (inc (HandleO h) E) a (\<lambda>i. p_handle (r_props i) = Some h))
    (rbind (fs_req_cleanup env a w) (fs_file_run env f a h upd args))"
proof (rule cleanup_step [OF assms(2,5)])
  fix w1 u assume w1: "winv E w1" "vars w1 = vars w" "requests w1 a = Some (i\<lparr>r_uv := u\<rparr>)"
  then have "refers w1 (RequestO a)" "refers w1 (HandleO h)" using assms(3,4) by (simp_all add: refers_def)
  from fs_file_run_ok [OF assms(1) w1(1) this w1(3) assms(6)]
  show "ok (ran (r_request_cb i) E (inc (HandleO h) E) a (\<lambda>i. p_handle (r_props i) = Some h))
    (fs_file_run env f a h upd args w1)" by simp
qed

lemma fs_prepared:
  assumes "winv E w" "refers w (HandleO h)" "requests w a = Some i"
    "\<And>off w' u. winv E w' \<Longrightarrow> vars w' = vars w \<Longrightarrow> handles w' = handles w \<Longrightarrow> buffers w' = buffers w \<Longrightarrow>
       requests w' a = Some (i\<lparr>r_uv := u\<rparr>) \<Longrightarrow> ok Q (body off w')"
  shows "ok Q (rbind (fs_req_cleanup env a w) (\<lambda>w. rbind (file_offset env h offset w) (\<lambda>(off, w). body off w)))"
proof (rule cleanup_step [OF assms(1,3)])
  fix w1 u assume w1: "winv E w1" "vars w1 = vars w" "handles w1 = handles w" "buffers w1 = buffers w"
    "requests w1 a = Some (i\<lparr>r_uv := u\<rparr>)"
  from refers_handle [OF assms(1,2)] obtain hi where "handles w1 h = Some hi" using w1(3) by auto
  then show "ok Q (rbind (file_offset env h offset w1) (\<lambda>(off, w). body off w))"
    by (rule offset_step [OF w1(1)]) (use assms(4) w1 in simp)
qed

lemma fs_truncate_run_ok:
  assumes "closes_loops env" "winv E w" "refers w (RequestO a)" "refers w (HandleO h)"
    "requests w a = Some i"
  shows "ok (ran (r_request_cb i) E (inc (HandleO h) E) a (\<lambda>i. p_handle (r_props i) = Some h))
    (fs_truncate_run env a h offset w)"
  unfolding fs_truncate_run_def
proof (rule fs_prepared [OF assms(2,4,5)])
  fix off w' u assume w': "winv E w'" "vars w' = vars w" "requests w' a = Some (i\<lparr>r_uv := u\<rparr>)"
  then have "refers w' (RequestO a)" "refers w' (HandleO h)" using assms(3,4) by (simp_all add: refers_def)
  from fs_file_run_ok [OF assms(1) w'(1) this w'(3)]
  show "ok (ran (r_request_cb i) E (inc (HandleO h) E) a (\<lambda>i. p_handle (r_props i) = Some h))
    (fs_file_run env ''uv_fs_ftruncate'' a h (\<lambda>p. p\<lparr>p_handle := Some h, p_offset := off\<rparr>) [Num off] w')"
    by simp
qed

section \<open>Reading and writing\<close>

lemma file_buffer_call_sync:
  assumes "winv E w" "requests w a = Some i" "handles w h = Some hi" "buffers w b = Some bi"
  shows "ok (returned E a) (rbind (file_buffer_call env f a h b off False w) (request_return_status a))"
  using file_call_sync [OF assms(1-3)] assms(4)
  by (simp add: file_buffer_call_def buffer_count_def buffer_at_def)

text \<open>A file request that works on a buffer, pending.\<close>

abbreviation transferring :: "addr \<Rightarrow> addr \<Rightarrow> req_instance \<Rightarrow> bool" where
  "transferring h b i \<equiv> p_handle (r_props i) = Some h \<and> p_buf (r_props i) = Some b"

lemma transfer_sync:
  assumes "winv E w" "requests w a = Some i" "refers w (HandleO h)" "refers w (BufferO b)"
  shows "ok (returned E a) (rbind (props_mod a upd w) (\<lambda>w.
    rbind (file_buffer_call env f a h b off False w) (request_return_status a)))"
proof -
  from refers_handle [OF assms(1,3)] obtain hi where "handles w h = Some hi" .
  moreover from refers_buffer [OF assms(1,4)] obtain bi where "buffers w b = Some bi" .
  ultimately show ?thesis by (intro set_props [OF assms(1,2)] file_buffer_call_sync) auto
qed

lemma fs_read_run_ok:
  assumes "client_ok K env" "winv E w" "refers w (RequestO a)" "refers w (HandleO h)"
    "refers w (BufferO b)" "requests w a = Some i"
  shows "ok (ran (r_request_cb i) E (inc (BufferO b) (inc (HandleO h) E)) a (transferring h b))
    (fs_read_run env a h b offset w)"
  unfolding fs_read_run_def
proof (rule fs_prepared [OF assms(2,4,6)])
  fix off w' u assume w': "winv E w'" "vars w' = vars w" "requests w' a = Some (i\<lparr>r_uv := u\<rparr>)"
  then have r: "refers w' (RequestO a)" "refers w' (HandleO h)" "refers w' (BufferO b)"
    using assms(3-5) by (simp_all add: refers_def)
  have async: "ok (started E (inc (BufferO b) (inc (HandleO h) E)) a (transferring h b))
    (rbind (handle_ref h w') (\<lambda>w. rbind (buffer_ref b w) (\<lambda>w. rbind (request_ref a w) (\<lambda>w.
     rbind (props_mod a (\<lambda>p. p\<lparr>p_handle := Some h, p_buf := Some b, p_offset := off\<rparr>) w)
       (request_try env a (file_buffer_call env ''uv_fs_read'' a h b off True)
         (\<lambda>w. rbind (handle_unref env h w) (buffer_unref env b)))))))"
    by (rule run_handle_buffer_ok [OF assms(1) w'(1) r], rule file_buffer_call_pending)
      (auto simp: inc_apply)
  show "ok (ran (r_request_cb i) E (inc (BufferO b) (inc (HandleO h) E)) a (transferring h b))
    (fs_read_at env a h b off w')"
    using w'(3) transfer_sync [OF w'(1,3) r(2,3)] async
    by (cases "r_request_cb i") (simp_all add: fs_read_at_def)
qed

lemma fs_write_try_ok:
  assumes "client_ok K env" "winv E w" "refers w (RequestO a)" "refers w (HandleO h)"
    "refers w (BufferO b)" "requests w a = Some i" "handles w h = Some hi" "h_iface hi = If_file"
  shows "ok (\<lambda>(r, w'). returned E a (r, w') \<and> (write_queue_size (h_file hi) \<noteq> 0 \<longrightarrow> r = UV_EAGAIN \<and>
      trace w' = trace w @ [Call ''uv_fs_req_cleanup'' [Ptr (Some a)]])) (fs_write_try env a h b offset w)"
  unfolding fs_write_try_def
proof (rule cleanup_step_trace [OF assms(2,6)])
  fix w1 u assume w1: "winv E w1" "vars w1 = vars w" "handles w1 = handles w" "buffers w1 = buffers w"
    "requests w1 a = Some (i\<lparr>r_uv := u\<rparr>)" "trace w1 = trace w @ [Call ''uv_fs_req_cleanup'' [Ptr (Some a)]]"
  show "ok (\<lambda>(r, w'). returned E a (r, w') \<and> (write_queue_size (h_file hi) \<noteq> 0 \<longrightarrow> r = UV_EAGAIN \<and>
      trace w' = trace w @ [Call ''uv_fs_req_cleanup'' [Ptr (Some a)]]))
    (rbind (io_write_queue_size h w1) (\<lambda>n.
     if n \<noteq> 0 then request_return_status a (UV_EAGAIN, w1)
     else rbind (file_offset env h offset w1) (\<lambda>(offset, w).
       rbind (props_mod a (\<lambda>p. p\<lparr>p_handle := Some h, p_offset := offset\<rparr>) w) (\<lambda>w.
       rbind (file_buffer_call env ''uv_fs_write'' a h b offset False w) (request_return_status a)))))"
  proof (cases "write_queue_size (h_file hi) = 0")
    case True
    have "ok (returned E a) (rbind (file_offset env h offset w1) (\<lambda>(offset, w).
       rbind (props_mod a (\<lambda>p. p\<lparr>p_handle := Some h, p_offset := offset\<rparr>) w) (\<lambda>w.
       rbind (file_buffer_call env ''uv_fs_write'' a h b offset False w) (request_return_status a))))"
      by (rule offset_step [OF w1(1)]) (use w1 assms in \<open>auto simp: refers_def intro!: transfer_sync\<close>)
    with True w1 assms(7,8) show ?thesis by (auto simp: io_write_queue_size_def elim: ok_weaken)
  next
    case False
    with w1 assms(7,8) winv_request_put [OF w1(1,5), of "i\<lparr>r_uv := u, r_uv_error := UV_EAGAIN\<rparr>"] show ?thesis
      by (simp add: io_write_queue_size_def request_return_status_def request_set_status_def
          returned_def store_simps)
  qed
qed

end
