(* ===== verification/Uvcc_Fs_Proofs.thy ===== *)
theory Uvcc_Fs_Proofs
  imports Uvcc_Fs_Request
begin

text \<open>
  Correctness of the file-system requests: runs of the requests that transfer data or close the
  file, the completion handlers of all classes, and what the requests must not be used for.
\<close>

section \<open>Completion\<close>

lemma fs_result_step:
  assumes "winv E w" "requests w a = Some i"
    "\<And>w'. winv E w' \<Longrightarrow> vars w' = vars w \<Longrightarrow> handles w' = handles w \<Longrightarrow> buffers w' = buffers w \<Longrightarrow>
       requests w' a = Some (i\<lparr>r_uv_error := c_int (q_result (r_uv i))\<rparr>) \<Longrightarrow> ok Q (k w')"
  shows "ok Q (rbind (fs_result_status a w) k)"
  unfolding fs_result_status_def by (rule request_mod_step [OF assms(1,2)]) (use assms(3) in auto)

lemma fs_file_cb_ok:
  assumes "client_ok K env" "pending (inc (HandleO h) E) a (\<lambda>i. p_handle (r_props i) = Some h) w"
  shows "ok (grown K E) (fs_file_cb env a w)"
proof -
  from assms(2) obtain i where i: "winv (inc (RequestO a) (inc (HandleO h) E)) w"
    "requests w a = Some i" "p_handle (r_props i) = Some h" by (auto simp: pending_def)
  show ?thesis
    unfolding fs_file_cb_def
    by (rule fs_result_step [OF i(1,2)])
      (use i(3) in \<open>auto intro!: guarded_handle [OF assms(1)] request_fire_ok [OF assms(1)]\<close>)
qed

lemma fs_path_cb_ok:
  assumes "client_ok K env" "pending E a (\<lambda>i. True) w"
  shows "ok (grown K E) (fs_path_cb env a w)"
proof -
  from assms(2) obtain i where i: "winv (inc (RequestO a) E) w" "requests w a = Some i"
    by (auto simp: pending_def)
  show ?thesis
    unfolding fs_path_cb_def
    by (rule fs_result_step [OF i]) (auto intro!: guarded_request request_fire_ok [OF assms(1)])
qed

text \<open>A request of the classes with two runs tells by \<open>p_handle\<close> which one it is.\<close>

lemma fs_either_cb_file:
  assumes "client_ok K env" "pending (inc (HandleO h) E) a (\<lambda>i. p_handle (r_props i) = Some h) w"
  shows "ok (grown K E) (fs_either_cb env a w)"
proof -
  from assms(2) obtain i where i: "winv (inc (RequestO a) (inc (HandleO h) E)) w"
    "requests w a = Some i" "p_handle (r_props i) = Some h" by (auto simp: pending_def)
  show ?thesis
    unfolding fs_either_cb_def
    by (rule fs_result_step [OF i(1,2)])
      (use i(3) in \<open>auto intro!: guarded_handle [OF assms(1)] request_fire_ok [OF assms(1)]\<close>)
qed

lemma fs_either_cb_path:
  assumes "client_ok K env" "pending E a (\<lambda>i. p_handle (r_props i) = None) w"
  shows "ok (grown K E) (fs_either_cb env a w)"
proof -
  from assms(2) obtain i where i: "winv (inc (RequestO a) E) w" "requests w a = Some i"
    "p_handle (r_props i) = None" by (auto simp: pending_def)
  show ?thesis
    unfolding fs_either_cb_def
    by (rule fs_result_step [OF i(1,2)])
      (use i(3) in \<open>auto intro!: guarded_request request_fire_ok [OF assms(1)]\<close>)
qed

lemma transferring_pending:
  assumes "pending (inc (BufferO b) (inc (HandleO h) E)) a (transferring h b) w"
  obtains i where "winv (inc (BufferO b) (inc (RequestO a) (inc (HandleO h) E))) w"
    "requests w a = Some i" "p_handle (r_props i) = Some h" "p_buf (r_props i) = Some b"
  using assms by (auto simp: pending_def inc_commute [of "RequestO a" "BufferO b"])

lemma fs_read_cb_ok:
  assumes "client_ok K env" "pending (inc (BufferO b) (inc (HandleO h) E)) a (transferring h b) w"
  shows "ok (grown K E) (fs_read_cb env a w)"
proof -
  from transferring_pending [OF assms(2)] obtain i where
    i: "winv (inc (BufferO b) (inc (RequestO a) (inc (HandleO h) E))) w" "requests w a = Some i"
    "p_handle (r_props i) = Some h" "p_buf (r_props i) = Some b" .
  show ?thesis
    unfolding fs_read_cb_def
    by (rule fs_result_step [OF i(1,2)])
      (use i(3,4) in \<open>auto intro!: guarded_handle [OF assms(1)] request_fire_buffer_ok [OF assms(1)]\<close>)
qed

lemma fs_write_cb_ok:
  assumes "client_ok K env" "pending (inc (BufferO b) (inc (HandleO h) E)) a (transferring h b) w"
  shows "ok (grown K E) (fs_write_cb env a w)"
proof -
  let ?E = "inc (BufferO b) (inc (RequestO a) (inc (HandleO h) E))"
  from transferring_pending [OF assms(2)] obtain i where
    i: "winv ?E w" "requests w a = Some i" "p_handle (r_props i) = Some h" "p_buf (r_props i) = Some b" .
  show ?thesis
    unfolding fs_write_cb_def
  proof (rule fs_result_step [OF i(1,2)])
    fix w1 assume w1: "winv ?E w1" "requests w1 a = Some (i\<lparr>r_uv_error := c_int (q_result (r_uv i))\<rparr>)"
    from owned_handle [OF w1(1), of h] obtain hi where hi: "handles w1 h = Some hi"
      by (auto simp: inc_apply)
    have "ok (grown K E) (rbind (file_mod h (\<lambda>p. p\<lparr>write_queue_size := write_queue_size p - n\<rparr>) w1)
        (guarded env a (request_fire_buffer env a) (handle_unref env h)))" for n
      by (rule file_mod_step [OF w1(1) hi])
        (use i(4) w1(2) in \<open>auto intro!: guarded_handle [OF assms(1)] request_fire_buffer_ok [OF assms(1)]\<close>)
    with w1(2) i(3) show "ok (grown K E) (rbind (request_at a w1) (\<lambda>i.
     rbind (deref (p_handle (r_props i))) (\<lambda>h.
     rbind (file_mod h (\<lambda>p. p\<lparr>write_queue_size := write_queue_size p - p_pending_size (r_props i)\<rparr>) w1) (\<lambda>w.
     guarded env a (request_fire_buffer env a) (handle_unref env h) w))))"
      by simp
  qed
qed

text \<open>A transfer between two handles, pending.\<close>

abbreviation sending :: "addr \<Rightarrow> addr \<Rightarrow> req_instance \<Rightarrow> bool" where
  "sending out h i \<equiv> p_handle_out (r_props i) = Some out \<and> p_handle (r_props i) = Some h"

lemma out_queue_sub_step:
  assumes "winv E w" "0 < E (HandleO out)"
    "\<And>w'. winv E w' \<Longrightarrow> vars w' = vars w \<Longrightarrow> buffers w' = buffers w \<Longrightarrow> requests w' = requests w \<Longrightarrow> ok Q (k w')"
  shows "ok Q (rbind (out_queue_sub out n w) k)"
proof -
  from owned_handle [OF assms(1,2)] obtain i where i: "handles w out = Some i" .
  have "ok Q (rbind (file_mod out (\<lambda>p. p\<lparr>write_queue_size := write_queue_size p - n\<rparr>) w) k)"
    by (rule file_mod_step [OF assms(1) i]) (rule assms(3))
  with i assms show ?thesis by (simp add: out_queue_sub_def handle_type_def)
qed

lemma out_queue_add_step:
  assumes "winv E w" "0 < E (HandleO out)"
    "\<And>w'. winv E w' \<Longrightarrow> vars w' = vars w \<Longrightarrow> buffers w' = buffers w \<Longrightarrow> requests w' = requests w \<Longrightarrow> ok Q (k w')"
  shows "ok Q (rbind (out_queue_add out n w) k)"
proof -
  from owned_handle [OF assms(1,2)] obtain i where i: "handles w out = Some i" .
  have "ok Q (rbind (file_mod out (\<lambda>p. p\<lparr>write_queue_size := write_queue_size p + n\<rparr>) w) k)"
    by (rule file_mod_step [OF assms(1) i]) (rule assms(3))
  with i assms show ?thesis by (simp add: out_queue_add_def handle_type_def)
qed

lemma fs_sendfile_cb_ok:
  assumes "client_ok K env" "pending (inc (HandleO h) (inc (HandleO out) E)) a (sending out h) w"
  shows "ok (grown K E) (fs_sendfile_cb env a w)"
proof -
  let ?E = "inc (RequestO a) (inc (HandleO h) (inc (HandleO out) E))"
  from assms(2) obtain i where i: "winv ?E w" "requests w a = Some i" "sending out h i"
    by (auto simp: pending_def)
  show ?thesis
    unfolding fs_sendfile_cb_def
  proof (rule fs_result_step [OF i(1,2)])
    fix w1 assume w1: "winv ?E w1" "requests w1 a = Some (i\<lparr>r_uv_error := c_int (q_result (r_uv i))\<rparr>)"
    have rest: "ok (grown K E) (rbind (handle_unref env h w) (handle_unref env out))"
      if "grown K (inc (HandleO h) (inc (HandleO out) E)) w" for w
      by (rule ok_bind [OF handle_unref_grown [OF assms(1) that] handle_unref_grown [OF assms(1)]])
    have "ok (grown K E) (rbind (out_queue_sub out n w1)
        (guarded env a (request_fire env a) (\<lambda>w. rbind (handle_unref env h w) (handle_unref env out))))" for n
      by (rule out_queue_sub_step [OF w1(1)], simp add: inc_apply,
          rule guarded_ok [where E = "inc (HandleO h) (inc (HandleO out) E)", OF _ rest])
        (use w1(2) in \<open>auto intro!: request_fire_ok [OF assms(1)]\<close>)
    with w1(2) i(3) show "ok (grown K E) (rbind (request_at a w1) (\<lambda>i.
     rbind (deref (p_handle_out (r_props i))) (\<lambda>out.
     rbind (deref (p_handle (r_props i))) (\<lambda>h.
     rbind (out_queue_sub out (p_pending_size (r_props i)) w1) (\<lambda>w.
     guarded env a (request_fire env a) (\<lambda>w. rbind (handle_unref env h w) (handle_unref env out)) w)))))"
      by simp
  qed
qed

section \<open>Runs that transfer data\<close>

lemma release_write_ok:
  assumes "client_ok K env" "winv (inc (HandleO h) (inc (BufferO b) E)) w"
  shows "ok (winv E) (rbind (file_mod h f w) (\<lambda>w. rbind (handle_unref env h w) (buffer_unref env b)))"
proof -
  from owned_handle [OF assms(2), of h] obtain hi where "handles w h = Some hi" by (auto simp: inc_apply)
  then show ?thesis by (rule file_mod_step [OF assms(2)]) (rule release_handle_buffer [OF assms(1)])
qed

lemma write_size_step:
  assumes "winv E w" "0 < E (BufferO b)" "\<And>n. ok Q (k n)"
  shows "ok Q (rbind (write_size b w) k)"
proof -
  from winv_owned_live' [OF assms(1,2)] obtain bi where "buffers w b = Some bi" by (auto simp: live_buffer)
  with assms(3) show ?thesis by (simp add: write_size_def buffer_at_def)
qed

text \<open>The part of an asynchronous write after the references have been taken.\<close>

lemma fs_write_issue_ok:
  fixes E :: "obj \<Rightarrow> nat" and b h :: addr
  defines "F \<equiv> inc (BufferO b) (inc (HandleO h) E)"
  assumes "client_ok K env" "winv (inc (RequestO a) F) w" "requests w a = Some i"
  shows "ok (started E F a (transferring h b))
    (rbind (props_mod a (\<lambda>p. p\<lparr>p_handle := Some h, p_buf := Some b, p_offset := offset,
         p_pending_size := n\<rparr>) w) (\<lambda>w.
     rbind (file_mod h (\<lambda>p. p\<lparr>write_queue_size := write_queue_size p + n\<rparr>) w)
     (request_try env a (file_buffer_call env ''uv_fs_write'' a h b offset True)
       (\<lambda>w. rbind (file_mod h (\<lambda>p. p\<lparr>write_queue_size := write_queue_size p - n\<rparr>) w) (\<lambda>w.
            rbind (handle_unref env h w) (buffer_unref env b))))))"
proof (rule set_props [OF assms(3,4)])
  let ?i = "i\<lparr>r_props := (r_props i)\<lparr>p_handle := Some h, p_buf := Some b, p_offset := offset,
     p_pending_size := n\<rparr>\<rparr>"
  fix w1 assume w1: "winv (inc (RequestO a) F) w1" "requests w1 a = Some ?i"
  from owned_handle [OF w1(1), of h] obtain hi where hi: "handles w1 h = Some hi"
    by (auto simp: F_def inc_apply)
  show "ok (started E F a (transferring h b))
    (rbind (file_mod h (\<lambda>p. p\<lparr>write_queue_size := write_queue_size p + n\<rparr>) w1)
     (request_try env a (file_buffer_call env ''uv_fs_write'' a h b offset True)
       (\<lambda>w. rbind (file_mod h (\<lambda>p. p\<lparr>write_queue_size := write_queue_size p - n\<rparr>) w) (\<lambda>w.
            rbind (handle_unref env h w) (buffer_unref env b)))))"
  proof (rule file_mod_step [OF w1(1) hi])
    fix w2 assume w2: "winv (inc (RequestO a) F) w2" "requests w2 = requests w1"
    from w2(2) w1(2) have i2: "requests w2 a = Some ?i" by simp
    have order: "inc (RequestO a) (inc (BufferO b) (inc (HandleO h) E)) =
        inc (HandleO h) (inc (BufferO b) (inc (RequestO a) E))"
      by (rule ext) (simp add: inc_apply)
    show "ok (started E F a (transferring h b))
      (request_try env a (file_buffer_call env ''uv_fs_write'' a h b offset True)
        (\<lambda>w. rbind (file_mod h (\<lambda>p. p\<lparr>write_queue_size := write_queue_size p - n\<rparr>) w) (\<lambda>w.
          rbind (handle_unref env h w) (buffer_unref env b))) w2)"
      by (rule request_try_ok [OF w2(1) i2], rule file_buffer_call_pending, assumption, assumption)
        (auto simp: F_def inc_apply order intro: release_write_ok [OF assms(2)])
  qed
qed

lemma fs_write_async_ok:
  assumes "client_ok K env" "winv E w" "refers w (RequestO a)" "refers w (HandleO h)" "refers w (BufferO b)"
  shows "ok (started E (inc (BufferO b) (inc (HandleO h) E)) a (transferring h b))
    (rbind (handle_ref h w) (\<lambda>w. rbind (buffer_ref b w) (\<lambda>w. rbind (request_ref a w) (\<lambda>w.
     rbind (write_size b w) (\<lambda>n.
     (rbind (props_mod a (\<lambda>p. p\<lparr>p_handle := Some h, p_buf := Some b, p_offset := offset,
         p_pending_size := n\<rparr>) w) (\<lambda>w.
     rbind (file_mod h (\<lambda>p. p\<lparr>write_queue_size := write_queue_size p + n\<rparr>) w)
     (request_try env a (file_buffer_call env ''uv_fs_write'' a h b offset True)
       (\<lambda>w. rbind (file_mod h (\<lambda>p. p\<lparr>write_queue_size := write_queue_size p - n\<rparr>) w) (\<lambda>w.
            rbind (handle_unref env h w) (buffer_unref env b)))))))))))"
proof (rule hold_handle [OF assms(2,4)], rule hold_buffer)
  let ?F = "inc (BufferO b) (inc (HandleO h) E)"
  fix w1 assume w1: "winv (inc (HandleO h) E) w1" "vars w1 = vars w"
  show "winv (inc (HandleO h) E) w1" by (rule w1(1))
  show "refers w1 (BufferO b)" using w1 assms(5) by (simp add: refers_def)
  fix w2 assume w2: "winv ?F w2" "vars w2 = vars w1"
  have a: "refers w2 (RequestO a)" using w2 w1 assms(3) by (simp add: refers_def)
  show "ok (started E ?F a (transferring h b)) (rbind (request_ref a w2) (\<lambda>w.
     rbind (write_size b w) (\<lambda>n.
     (rbind (props_mod a (\<lambda>p. p\<lparr>p_handle := Some h, p_buf := Some b, p_offset := offset,
         p_pending_size := n\<rparr>) w) (\<lambda>w.
     rbind (file_mod h (\<lambda>p. p\<lparr>write_queue_size := write_queue_size p + n\<rparr>) w)
     (request_try env a (file_buffer_call env ''uv_fs_write'' a h b offset True)
       (\<lambda>w. rbind (file_mod h (\<lambda>p. p\<lparr>write_queue_size := write_queue_size p - n\<rparr>) w) (\<lambda>w.
            rbind (handle_unref env h w) (buffer_unref env b)))))))))"
  proof (rule hold_request [OF w2(1) a], rule write_size_step, assumption, simp add: inc_apply)
    fix w n assume w: "winv (inc (RequestO a) ?F) w" "vars w = vars w2"
    have "refers w (RequestO a)" using w(2) a by (simp add: refers_def)
    from refers_request [OF w(1) this] obtain i where "requests w a = Some i" .
    from fs_write_issue_ok [OF assms(1) w(1) this]
    show "ok (started E ?F a (transferring h b))
    (rbind (props_mod a (\<lambda>p. p\<lparr>p_handle := Some h, p_buf := Some b, p_offset := offset,
         p_pending_size := n\<rparr>) w) (\<lambda>w.
     rbind (file_mod h (\<lambda>p. p\<lparr>write_queue_size := write_queue_size p + n\<rparr>) w)
     (request_try env a (file_buffer_call env ''uv_fs_write'' a h b offset True)
       (\<lambda>w. rbind (file_mod h (\<lambda>p. p\<lparr>write_queue_size := write_queue_size p - n\<rparr>) w) (\<lambda>w.
            rbind (handle_unref env h w) (buffer_unref env b))))))" .
  qed
qed

lemma fs_write_run_ok:
  assumes "client_ok K env" "winv E w" "refers w (RequestO a)" "refers w (HandleO h)"
    "refers w (BufferO b)" "requests w a = Some i"
  shows "ok (ran (r_request_cb i) E (inc (BufferO b) (inc (HandleO h) E)) a (transferring h b))
    (fs_write_run env a h b offset w)"
  unfolding fs_write_run_def
proof (rule fs_prepared [OF assms(2,4,6)])
  fix off w' u assume w': "winv E w'" "vars w' = vars w" "requests w' a = Some (i\<lparr>r_uv := u\<rparr>)"
  then have r: "refers w' (RequestO a)" "refers w' (HandleO h)" "refers w' (BufferO b)"
    using assms(3-5) by (simp_all add: refers_def)
  show "ok (ran (r_request_cb i) E (inc (BufferO b) (inc (HandleO h) E)) a (transferring h b))
    (fs_write_at env a h b off w')"
    using w'(3) transfer_sync [OF w'(1,3) r(2,3)] fs_write_async_ok [OF assms(1) w'(1) r, of off]
    by (cases "r_request_cb i") (simp_all add: fs_write_at_def)
qed

section \<open>Closing a file\<close>

lemma refers_owes:
  assumes "winv E w" "refers w (HandleO h)" "handles w h = Some i"
  shows "int (owes i) < h_refs i"
proof -
  from assms(2) obtain v where "vars w v = Some (Some (HandleO h))" by (auto simp: refers_def)
  from count_ptr_pos [OF winv_finite(1) [OF assms(1)] this] have "0 < count_ptr (vars w) (HandleO h)" .
  then show ?thesis
    using winv_agrees [OF assms(1), of "HandleO h"] assms(3)
    by (simp add: live_handle held_def booked_def)
qed

text \<open>On a file, to stop reading calls nothing; it gives back the reference of the reading state.\<close>

lemma file_read_stop_step:
  assumes "winv E w" "handles w h = Some i" "h_iface i = If_file" "\<not> rdstate_switch (h_io i)"
    "int (owes i) < h_refs i"
    "\<And>w' j. winv E w' \<Longrightarrow> vars w' = vars w \<Longrightarrow> buffers w' = buffers w \<Longrightarrow> requests w' = requests w \<Longrightarrow>
       handles w' h = Some j \<Longrightarrow> ok Q (k (0, w'))"
  shows "ok Q (rbind (read_stop env h w) k)"
proof -
  have pos: "0 \<le> int (owes i)" by simp
  have "\<exists>j. read_stop env h (st h i (trace w) w) = Inr (0, st h j (trace w) w) \<and> h_loop j = h_loop i \<and>
      h_refs j - int (owes j) = h_refs i - int (owes i) \<and> 0 < h_refs j"
    using assms(3-5) pos
    by (cases "rdcmd_state (h_io i)")
      (simp_all add: read_stop_def read_stop_body_def iface_read_stop_def rd_defs st_simps owes_io)
  then obtain j where r: "read_stop env h (st h i (trace w) w) = Inr (0, st h j (trace w) w)"
    and j: "h_loop j = h_loop i" "h_refs j - int (owes j) = h_refs i - int (owes i)" "0 < h_refs j"
    by blast
  have "handle_step h i j w (st h j (trace w) w)" using j assms(2) by (simp add: handle_step_st)
  from winv_handle_step [OF this assms(1) j(3)] have "winv E (st h j (trace w) w)" .
  from assms(6) [OF this] have "ok Q (k (0, st h j (trace w) w))" by (simp add: st_def)
  with r st_id [OF assms(2)] show ?thesis by simp
qed

text \<open>A file whose reading side is not being changed by a command under way.\<close>

abbreviation idle_file :: "handle_instance \<Rightarrow> bool" where
  "idle_file i \<equiv> h_iface i = If_file \<and> \<not> rdstate_switch (h_io i)"

lemma fs_close_sync_ok:
  assumes "winv E w" "requests w a = Some i" "refers w (HandleO h)" "handles w h = Some hi" "idle_file hi"
  shows "ok (returned E a) (rbind (props_mod a upd w) (\<lambda>w. rbind (read_stop env h w) (\<lambda>(r, w).
    rbind (file_call env ''uv_fs_close'' a h [] False w) (request_return_status a))))"
proof (rule set_props [OF assms(1,2)])
  fix w1 assume w1: "winv E w1" "vars w1 = vars w" "handles w1 = handles w"
    "requests w1 a = Some (i\<lparr>r_props := upd (r_props i)\<rparr>)"
  have h: "handles w1 h = Some hi" "refers w1 (HandleO h)"
    using w1 assms(3,4) by (simp_all add: refers_def)
  show "ok (returned E a) (rbind (read_stop env h w1) (\<lambda>(r, w).
      rbind (file_call env ''uv_fs_close'' a h [] False w) (request_return_status a)))"
    by (rule file_read_stop_step [OF w1(1) h(1) _ _ refers_owes [OF w1(1) h(2,1)]])
      (use assms(5) w1(4) in \<open>auto intro!: file_call_sync\<close>)
qed

lemma fs_close_async_ok:
  assumes "client_ok K env" "winv E w" "refers w (RequestO a)" "refers w (HandleO h)"
    "handles w h = Some hi" "idle_file hi" "\<And>p. p_handle (upd p) = Some h"
  shows "ok (started E (inc (HandleO h) E) a (\<lambda>i. p_handle (r_props i) = Some h))
    (rbind (handle_ref h w) (\<lambda>w. rbind (request_ref a w) (\<lambda>w. rbind (props_mod a upd w) (\<lambda>w.
     rbind (read_stop env h w) (\<lambda>(r, w).
     request_try env a (file_call env ''uv_fs_close'' a h [] True) (handle_unref env h) w)))))"
proof -
  let ?F = "inc (HandleO h) E"
  let ?P = "\<lambda>i. p_handle (r_props i) = Some h"
  let ?w1 = "handle_put h (hi\<lparr>h_refs := h_refs hi + 1\<rparr>) w"
  have ref: "handle_ref h w = Inr ?w1"
    using assms(5) winv_refs_pos(1) [OF assms(2,5)] by (simp add: handle_ref_eq)
  have w1: "winv ?F ?w1" by (rule winv_handle_up [OF assms(2,5)]) simp_all
  have a: "refers ?w1 (RequestO a)" "refers ?w1 (HandleO h)"
    using assms(3,4) by (simp_all add: refers_def store_simps)
  have "ok (started E ?F a ?P) (rbind (request_ref a ?w1) (\<lambda>w. rbind (props_mod a upd w) (\<lambda>w.
     rbind (read_stop env h w) (\<lambda>(r, w).
     request_try env a (file_call env ''uv_fs_close'' a h [] True) (handle_unref env h) w))))"
  proof -
    from refers_request [OF w1 a(1)] obtain i where i: "requests ?w1 a = Some i" .
    let ?w2 = "request_put a (i\<lparr>r_refs := r_refs i + 1\<rparr>) ?w1"
    let ?w3 = "request_put a (i\<lparr>r_refs := r_refs i + 1, r_props := upd (r_props i)\<rparr>) ?w2"
    have req: "request_ref a ?w1 = Inr ?w2"
      using i winv_refs_pos(4) [OF w1 i] by (simp add: request_ref_eq)
    have w2: "winv (inc (RequestO a) ?F) ?w2" by (rule winv_request_up [OF w1 i]) simp
    have w3: "winv (inc (RequestO a) ?F) ?w3"
      by (rule winv_request_put [OF w2, of a "i\<lparr>r_refs := r_refs i + 1\<rparr>"]) (simp_all add: store_simps)
    have h3: "handles ?w3 h = Some (hi\<lparr>h_refs := h_refs hi + 1\<rparr>)" "refers ?w3 (HandleO h)"
      using a(2) by (simp_all add: store_simps refers_def)
    have "ok (started E ?F a ?P) (rbind (read_stop env h ?w3) (\<lambda>(r, w).
       request_try env a (file_call env ''uv_fs_close'' a h [] True) (handle_unref env h) w))"
    proof (rule file_read_stop_step [OF w3 h3(1) _ _ refers_owes [OF w3 h3(2,1)]])
      fix w4 j assume w4: "winv (inc (RequestO a) ?F) w4" "requests w4 = requests ?w3"
      from w4(2) have "requests w4 a = Some (i\<lparr>r_refs := r_refs i + 1, r_props := upd (r_props i)\<rparr>)"
        by (simp add: store_simps)
      then have "ok (started E ?F a ?P)
          (request_try env a (file_call env ''uv_fs_close'' a h [] True) (handle_unref env h) w4)"
        by (rule request_try_ok [OF w4(1)])
          (auto simp: assms(7) inc_apply inc_commute [of "RequestO a"]
            intro!: file_call_pending release_handle client_ok_dest(1) [OF assms(1)])
      then show "ok (started E ?F a ?P) (case (0, w4) of (r, w) \<Rightarrow>
          request_try env a (file_call env ''uv_fs_close'' a h [] True) (handle_unref env h) w)" by simp
    qed (use assms(6) in simp_all)
    then show ?thesis by (simp add: req props_mod_def store_simps)
  qed
  then show ?thesis by (simp add: ref)
qed

lemma fs_close_run_ok:
  assumes "client_ok K env" "winv E w" "refers w (RequestO a)" "refers w (HandleO h)"
    "requests w a = Some i" "handles w h = Some hi" "idle_file hi"
  shows "ok (ran (r_request_cb i) E (inc (HandleO h) E) a (\<lambda>i. p_handle (r_props i) = Some h))
    (fs_close_run env a h w)"
  unfolding fs_close_run_def
proof (rule cleanup_step [OF assms(2,5)])
  fix w1 u assume w1: "winv E w1" "vars w1 = vars w" "handles w1 = handles w" "requests w1 a = Some (i\<lparr>r_uv := u\<rparr>)"
  from w1(3) assms(6) have h1: "handles w1 h = Some hi" by simp
  show "ok (ran (r_request_cb i) E (inc (HandleO h) E) a (\<lambda>i. p_handle (r_props i) = Some h))
    (rbind (file_mod h (\<lambda>p. p\<lparr>is_closing_flag := 1\<rparr>) w1) (\<lambda>w.
     rbind (request_at a w) (\<lambda>i.
     if r_request_cb i = None then
       rbind (props_mod a (\<lambda>p. p\<lparr>p_handle := Some h\<rparr>) w) (\<lambda>w.
       rbind (read_stop env h w) (\<lambda>(r, w).
       rbind (file_call env ''uv_fs_close'' a h [] False w) (request_return_status a)))
     else
       rbind (handle_ref h w) (\<lambda>w.
       rbind (request_ref a w) (\<lambda>w.
       rbind (props_mod a (\<lambda>p. p\<lparr>p_handle := Some h\<rparr>) w) (\<lambda>w.
       rbind (read_stop env h w) (\<lambda>(r, w).
       request_try env a (file_call env ''uv_fs_close'' a h [] True) (handle_unref env h) w)))))))"
  proof (rule file_mod_step [OF w1(1) h1])
    let ?hi = "hi\<lparr>h_file := (h_file hi)\<lparr>is_closing_flag := 1\<rparr>\<rparr>"
    fix w2 assume w2: "winv E w2" "vars w2 = vars w1" "handles w2 = (handles w1)(h \<mapsto> ?hi)" "requests w2 = requests w1"
    have r: "refers w2 (RequestO a)" "refers w2 (HandleO h)" "handles w2 h = Some ?hi"
        "requests w2 a = Some (i\<lparr>r_uv := u\<rparr>)"
      using w1 w2 assms(3,4) by (simp_all add: refers_def)
    from fs_close_async_ok [OF assms(1) w2(1) r(1,2,3)] fs_close_sync_ok [OF w2(1) r(4,2,3)] assms(7) r(4)
    show "ok (ran (r_request_cb i) E (inc (HandleO h) E) a (\<lambda>i. p_handle (r_props i) = Some h))
      (rbind (request_at a w2) (\<lambda>i.
       if r_request_cb i = None then
         rbind (props_mod a (\<lambda>p. p\<lparr>p_handle := Some h\<rparr>) w2) (\<lambda>w.
         rbind (read_stop env h w) (\<lambda>(r, w).
         rbind (file_call env ''uv_fs_close'' a h [] False w) (request_return_status a)))
       else
         rbind (handle_ref h w2) (\<lambda>w.
         rbind (request_ref a w) (\<lambda>w.
         rbind (props_mod a (\<lambda>p. p\<lparr>p_handle := Some h\<rparr>) w) (\<lambda>w.
         rbind (read_stop env h w) (\<lambda>(r, w).
         request_try env a (file_call env ''uv_fs_close'' a h [] True) (handle_unref env h) w))))))"
      by (cases "r_request_cb i") simp_all
  qed
qed

section \<open>Sending a file\<close>

text \<open>
  The descriptor of the output and the calls made to learn it: a file knows its own, for any other
  endpoint libuv is asked.
\<close>

definition out_descriptor :: "env \<Rightarrow> event list \<Rightarrow> addr \<Rightarrow> handle_instance \<Rightarrow> int" where
  "out_descriptor env tr out i = (if iface_type i = UV_FILE then c_int (u_result (h_uv i))
     else uv_out env tr (Call ''uv_fileno'' [Ptr (Some out)]))"

definition out_calls :: "addr \<Rightarrow> handle_instance \<Rightarrow> event list" where
  "out_calls out i = (if iface_type i = UV_FILE then [] else [Call ''uv_fileno'' [Ptr (Some out)]])"

lemma sendfile_out_step:
  assumes "winv E w" "handles w out = Some i"
    "\<And>w'. winv E w' \<Longrightarrow> vars w' = vars w \<Longrightarrow> requests w' = requests w \<Longrightarrow> trace w' = trace w @ out_calls out i \<Longrightarrow>
       ok Q (k (out_descriptor env (trace w) out i, w'))"
  shows "ok Q (rbind (sendfile_out env out w) k)"
proof (cases "iface_type i = UV_FILE")
  case True
  with assms show ?thesis
    by (simp add: sendfile_out_def handle_type_def file_fd_def out_calls_def out_descriptor_def)
next
  case False
  then have fam: "\<not> uv_fs_family (h_iface i)" by (auto simp: iface_type_def)
  have put: "winv E (handle_put out j w')"
    if "winv E w'" "handles w' out = Some i'" "h_refs j = h_refs i'" "h_loop j = h_loop i'" "owes j = owes i'"
    for j i' w'
    by (rule winv_handle_put [OF that])
  have swap: "handle_put out j (emit e w') = emit e (handle_put out j w')" for j e w'
    by (simp add: handle_put_def emit_def)
  have trace: "trace (emit e w') = trace w' @ [e]" for e w' by (simp add: emit_def)
  from fam False assms put [OF assms(1,2)] show ?thesis
    by (simp add: sendfile_out_def handle_type_def handle_fileno_def iface_fileno_def out_calls_def out_descriptor_def
        handle_set_status_def uv_on_handle_def Let_def swap trace store_simps)
qed

lemma sendfile_call_sync:
  assumes "winv E w" "requests w a = Some i" "handles w h = Some hi"
  shows "ok (returned E a) (rbind (sendfile_call env a fd h offset len False w) (request_return_status a))"
proof -
  have "ok (returned E a) (rbind (uv_on_request env f a as w) (request_return_status a))" for f as
    by (rule ok_bind [OF uv_on_request_ok [OF assms(1,2)]]) (auto intro: returned_status)
  with assms(3) show ?thesis by (simp add: sendfile_call_def)
qed

lemma sendfile_call_pending:
  assumes "winv (inc (RequestO a) F) w" "requests w a = Some i" "0 < F (HandleO h)"
    "\<And>u. P (i\<lparr>r_uv := u\<rparr>)"
  shows "ok (\<lambda>(r :: int, w'). pending F a (\<lambda>j. 0 \<le> r \<longrightarrow> P j) w') (sendfile_call env a fd h offset len True w)"
proof -
  from assms(3) have "0 < inc (RequestO a) F (HandleO h)" by (simp add: inc_apply)
  from owned_handle [OF assms(1) this] obtain hi where "handles w h = Some hi" .
  then show ?thesis
    by (simp add: sendfile_call_def uv_call_pending [OF assms(1,2)] assms(4))
qed

lemma fs_sendfile_async_ok:
  assumes "client_ok K env" "winv E w" "refers w (RequestO a)" "refers w (HandleO h)" "refers w (HandleO out)"
  shows "ok (started E (inc (HandleO h) (inc (HandleO out) E)) a (sending out h))
    (rbind (handle_ref out w) (\<lambda>w. rbind (handle_ref h w) (\<lambda>w. rbind (request_ref a w) (\<lambda>w.
     rbind (props_mod a (\<lambda>p. p\<lparr>p_handle_out := Some out, p_handle := Some h, p_offset := offset,
         p_pending_size := len\<rparr>) w) (\<lambda>w.
     rbind (out_queue_add out len w)
     (request_try env a (sendfile_call env a fd h offset len True)
       (\<lambda>w. rbind (out_queue_sub out len w) (\<lambda>w. rbind (handle_unref env out w) (handle_unref env h)))))))))"
proof (rule hold_handle [OF assms(2,5)], rule hold_handle)
  let ?F = "inc (HandleO h) (inc (HandleO out) E)"
  fix w1 assume w1: "winv (inc (HandleO out) E) w1" "vars w1 = vars w"
  show "winv (inc (HandleO out) E) w1" by (rule w1(1))
  show "refers w1 (HandleO h)" using w1 assms(4) by (simp add: refers_def)
  fix w2 assume w2: "winv ?F w2" "vars w2 = vars w1"
  have a: "refers w2 (RequestO a)" using w2 w1 assms(3) by (simp add: refers_def)
  have order: "inc (RequestO a) ?F = inc (HandleO out) (inc (HandleO h) (inc (RequestO a) E))"
    by (rule ext) (simp add: inc_apply)
  have release: "ok (winv (inc (RequestO a) E)) (rbind (out_queue_sub out len w)
      (\<lambda>w. rbind (handle_unref env out w) (handle_unref env h)))" if "winv (inc (RequestO a) ?F) w" for w
    by (rule out_queue_sub_step [OF that], simp add: inc_apply)
      (auto simp: order intro!: ok_bind [OF release_handle] release_handle client_ok_dest(1) [OF assms(1)])
  show "ok (started E ?F a (sending out h)) (rbind (request_ref a w2) (\<lambda>w.
     rbind (props_mod a (\<lambda>p. p\<lparr>p_handle_out := Some out, p_handle := Some h, p_offset := offset,
         p_pending_size := len\<rparr>) w) (\<lambda>w.
     rbind (out_queue_add out len w)
     (request_try env a (sendfile_call env a fd h offset len True)
       (\<lambda>w. rbind (out_queue_sub out len w) (\<lambda>w. rbind (handle_unref env out w) (handle_unref env h)))))))"
  proof (rule hold_request [OF w2(1) a])
    fix w3 assume w3: "winv (inc (RequestO a) ?F) w3" "vars w3 = vars w2"
    have "refers w3 (RequestO a)" using w3(2) a by (simp add: refers_def)
    from refers_request [OF w3(1) this] obtain i where i: "requests w3 a = Some i" .
    show "ok (started E ?F a (sending out h))
     (rbind (props_mod a (\<lambda>p. p\<lparr>p_handle_out := Some out, p_handle := Some h, p_offset := offset,
         p_pending_size := len\<rparr>) w3) (\<lambda>w.
     rbind (out_queue_add out len w)
     (request_try env a (sendfile_call env a fd h offset len True)
       (\<lambda>w. rbind (out_queue_sub out len w) (\<lambda>w. rbind (handle_unref env out w) (handle_unref env h))))))"
      by (rule set_props [OF w3(1) i], rule out_queue_add_step, assumption, simp add: inc_apply,
          rule request_try_ok, assumption, simp, rule sendfile_call_pending, assumption, assumption)
        (auto simp: inc_apply intro: release)
  qed
qed

lemma fs_sendfile_at_ok:
  assumes "client_ok K env" "winv E w" "refers w (RequestO a)" "refers w (HandleO h)" "refers w (HandleO out)"
    "requests w a = Some i"
  shows "ok (ran (r_request_cb i) E (inc (HandleO h) (inc (HandleO out) E)) a (sending out h))
    (fs_sendfile_at env a out fd h offset len w)"
proof -
  from refers_handle [OF assms(2,4)] obtain hi where "handles w h = Some hi" .
  then have "ok (returned E a) (rbind (props_mod a (\<lambda>p. p\<lparr>p_handle_out := Some out, p_handle := Some h,
      p_offset := offset\<rparr>) w) (\<lambda>w. rbind (sendfile_call env a fd h offset len False w) (request_return_status a)))"
    by (intro set_props [OF assms(2,6)] sendfile_call_sync) auto
  with fs_sendfile_async_ok [OF assms(1-5), where offset = offset and len = len and fd = fd] assms(6) show ?thesis
    by (cases "r_request_cb i") (simp_all add: fs_sendfile_at_def)
qed

text \<open>What a run returns is what libuv has answered.\<close>

lemma file_call_answered: "file_call env f a h args c w = Inr (r, w') \<Longrightarrow> answered env f [Ptr (Some a)] r"
  using answered_request [of env f a "[]"] by (auto simp: file_call_def rbind_eq_Inr)

lemma fs_file_run_answered: "fs_file_run env f a h upd args w = Inr (r, w') \<Longrightarrow> answered env f [Ptr (Some a)] r"
  by (auto simp: fs_file_run_def rbind_eq_Inr dest!: answered_status split: if_splits
      intro: file_call_answered elim!: answered_try)

lemma file_buffer_call_answered:
  "file_buffer_call env f a h b offset c w = Inr (r, w') \<Longrightarrow> answered env f [Ptr (Some a)] r"
  by (auto simp: file_buffer_call_def rbind_eq_Inr intro: file_call_answered)

lemma transfers_answered:
  "fs_read_run env a h b offset w = Inr (r, w') \<Longrightarrow> answered env ''uv_fs_read'' [Ptr (Some a)] r"
  "fs_write_run env a h b offset w = Inr (r, w') \<Longrightarrow> answered env ''uv_fs_write'' [Ptr (Some a)] r"
  by (auto simp: fs_read_run_def fs_write_run_def fs_read_at_def fs_write_at_def rbind_eq_Inr dest!: answered_status
      split: if_splits intro: file_buffer_call_answered elim!: answered_try)

lemma file_ops_answered:
  "fs_close_run env a h w = Inr (r, w') \<Longrightarrow> answered env ''uv_fs_close'' [Ptr (Some a)] r"
  "fs_sync_run env a h all w = Inr (r, w') \<Longrightarrow>
    answered env (if all then ''uv_fs_fsync'' else ''uv_fs_fdatasync'') [Ptr (Some a)] r"
  "fs_truncate_run env a h offset w = Inr (r, w') \<Longrightarrow> answered env ''uv_fs_ftruncate'' [Ptr (Some a)] r"
  "fs_stat_run_file env a h w = Inr (r, w') \<Longrightarrow> answered env ''uv_fs_fstat'' [Ptr (Some a)] r"
  "fs_chmod_run_file env a h mode w = Inr (r, w') \<Longrightarrow> answered env ''uv_fs_fchmod'' [Ptr (Some a)] r"
  "fs_chown_run_file env a h uid gid w = Inr (r, w') \<Longrightarrow> answered env ''uv_fs_fchown'' [Ptr (Some a)] r"
  "fs_utime_run_file env a h atime mtime w = Inr (r, w') \<Longrightarrow> answered env ''uv_fs_futime'' [Ptr (Some a)] r"
  by (auto simp: fs_close_run_def fs_sync_run_def fs_truncate_run_def fs_stat_run_file_def fs_chmod_run_file_def
      fs_chown_run_file_def fs_utime_run_file_def rbind_eq_Inr dest!: answered_status split: if_splits
      intro: file_call_answered fs_file_run_answered elim!: answered_try)

lemma sendfile_call_answered:
  "sendfile_call env a fd h offset len c w = Inr (r, w') \<Longrightarrow>
   \<exists>l. answered env ''uv_fs_sendfile'' [Ptr (Some a), l, Num fd] r"
  using answered_request [of env "''uv_fs_sendfile''" a "[_, Num fd]"] by (fastforce simp: sendfile_call_def rbind_eq_Inr)

lemma sendfile_answered:
  assumes "fs_sendfile_at env a out fd h offset len w = Inr (r, w')"
  shows "\<exists>l. answered env ''uv_fs_sendfile'' [Ptr (Some a), l, Num fd] r"
  using assms
  by (auto simp: fs_sendfile_at_def request_try_def rbind_eq_Inr dest!: answered_status sendfile_call_answered split: if_splits)

text \<open>
  An output handle without a descriptor is refused before anything is taken and before libuv is asked
  for the transfer; any other output never is.
\<close>

definition cleaned :: "event list \<Rightarrow> addr \<Rightarrow> event list" where
  "cleaned tr a = tr @ [Call ''uv_fs_req_cleanup'' [Ptr (Some a)]]"

lemma fs_sendfile_run_exact:
  assumes "client_ok K env" "winv E w" "refers w (RequestO a)" "refers w (HandleO h)" "refers w (HandleO out)"
    "requests w a = Some i" "handles w out = Some oi"
  shows "ok (if out_descriptor env (cleaned (trace w) a) out oi = -1
      then (\<lambda>(r, w'). r = UV_EBADF \<and> winv E w' \<and> trace w' = cleaned (trace w) a @ out_calls out oi)
      else (\<lambda>(r, w'). ran (r_request_cb i) E (inc (HandleO h) (inc (HandleO out) E)) a (sending out h) (r, w') \<and>
        (\<exists>l. answered env ''uv_fs_sendfile'' [Ptr (Some a), l, Num (out_descriptor env (cleaned (trace w) a) out oi)] r)))
    (fs_sendfile_run env a out h offset len w)" (is "ok ?Q _")
  unfolding fs_sendfile_run_def
proof (rule cleanup_step_trace [OF assms(2,6)])
  fix w1 u assume w1: "winv E w1" "vars w1 = vars w" "handles w1 = handles w" "requests w1 a = Some (i\<lparr>r_uv := u\<rparr>)"
    and t1: "trace w1 = trace w @ [Call ''uv_fs_req_cleanup'' [Ptr (Some a)]]"
  from w1(3) assms(7) have oi: "handles w1 out = Some oi" by simp
  let ?fd = "out_descriptor env (cleaned (trace w) a) out oi"
  show "ok ?Q (rbind (sendfile_out env out w1) (\<lambda>(fd, w). if fd = -1 then Inr (UV_EBADF, w)
     else rbind (file_offset env h offset w) (\<lambda>(offset, w). fs_sendfile_at env a out fd h offset len w)))"
  proof (rule sendfile_out_step [OF w1(1) oi], unfold t1 cleaned_def [symmetric])
    fix w2 assume w2: "winv E w2" "vars w2 = vars w1" "requests w2 = requests w1"
      and t2: "trace w2 = cleaned (trace w) a @ out_calls out oi"
    have r: "refers w2 (RequestO a)" "refers w2 (HandleO h)" "refers w2 (HandleO out)"
      using w1(2) w2(2) assms(3-5) by (simp_all add: refers_def)
    from refers_handle [OF w2(1) r(2)] obtain hi where hi: "handles w2 h = Some hi" .
    let ?R = "\<lambda>(r, w'). ran (r_request_cb i) E (inc (HandleO h) (inc (HandleO out) E)) a (sending out h) (r, w') \<and>
        (\<exists>l. answered env ''uv_fs_sendfile'' [Ptr (Some a), l, Num ?fd] r)"
    from r hi have "ok ?R (rbind (file_offset env h offset w2) (\<lambda>(offset, w). fs_sendfile_at env a out ?fd h offset len w))"
    proof (intro offset_step [OF w2(1) hi])
      fix off w3 assume w3: "winv E w3" "vars w3 = vars w2" "requests w3 = requests w2"
      have "refers w3 (RequestO a)" "refers w3 (HandleO h)" "refers w3 (HandleO out)"
        "requests w3 a = Some (i\<lparr>r_uv := u\<rparr>)"
        using r w1(4) w2(3) w3 by (simp_all add: refers_def)
      from fs_sendfile_at_ok [OF assms(1) w3(1) this, where fd = ?fd and offset = off and len = len]
        sendfile_answered [of env a out ?fd h off len w3]
      show "ok ?R (case (off, w3) of (offset, w) \<Rightarrow> fs_sendfile_at env a out ?fd h offset len w)"
        by (auto simp: ok_iff)
    qed
    with w2(1) t2 show "ok ?Q (case (?fd, w2) of (fd, w) \<Rightarrow> if fd = -1 then Inr (UV_EBADF, w)
       else rbind (file_offset env h offset w) (\<lambda>(offset, w). fs_sendfile_at env a out fd h offset len w))"
      by simp
  qed
qed

lemma fs_sendfile_run_ok:
  assumes "client_ok K env" "winv E w" "refers w (RequestO a)" "refers w (HandleO h)" "refers w (HandleO out)"
    "requests w a = Some i"
  shows "ok (\<lambda>(r, w'). (r = UV_EBADF \<and> winv E w') \<or>
      ran (r_request_cb i) E (inc (HandleO h) (inc (HandleO out) E)) a (sending out h) (r, w'))
    (fs_sendfile_run env a out h offset len w)"
proof -
  from refers_handle [OF assms(2,5)] obtain oi where "handles w out = Some oi" .
  from fs_sendfile_run_exact [OF assms this] show ?thesis
    by (rule ok_weaken) (auto split: if_splits)
qed

section \<open>Properties\<close>

text \<open>
  C9: A file-system request on an open file works in two modes. Without a callback its run waits
  for the result, records it as the status and leaves every reference as it was. With one, the
  run either fails and gives back all it took, or leaves an operation pending that owns one
  reference to the request, to each file and to the buffer, all entered into the request. What a run
  returns is what libuv has answered to its function. Only a
  transfer to an output without a descriptor is refused by the run itself, and always: nothing is
  taken then and libuv is not asked for the transfer; any other is made to that descriptor.
\<close>

theorem fs_file_requests_start:
  assumes "client_ok K env" "winv E w" "refers w (RequestO a)" "refers w (HandleO h)"
    "refers w (HandleO out)" "refers w (BufferO b)" "requests w a = Some i" "handles w h = Some hi" "idle_file hi"
    "handles w out = Some oi"
  shows "let on_file = (\<lambda>f (r, w'). ran (r_request_cb i) E (inc (HandleO h) E) a (\<lambda>i. p_handle (r_props i) = Some h) (r, w') \<and>
        answered env f [Ptr (Some a)] r);
      transfer = (\<lambda>f (r, w'). ran (r_request_cb i) E (inc (BufferO b) (inc (HandleO h) E)) a (transferring h b) (r, w') \<and>
        answered env f [Ptr (Some a)] r);
      fd = out_descriptor env (cleaned (trace w) a) out oi;
      send = (\<lambda>(r, w'). ran (r_request_cb i) E (inc (HandleO h) (inc (HandleO out) E)) a (sending out h) (r, w') \<and>
        (\<exists>l. answered env ''uv_fs_sendfile'' [Ptr (Some a), l, Num fd] r));
      refused = (\<lambda>(r, w'). r = UV_EBADF \<and> winv E w' \<and> trace w' = cleaned (trace w) a @ out_calls out oi)
    in ok (transfer ''uv_fs_read'') (fs_read_run env a h b offset w) \<and>
      ok (transfer ''uv_fs_write'') (fs_write_run env a h b offset w) \<and>
      ok (on_file ''uv_fs_close'') (fs_close_run env a h w) \<and>
      ok (on_file (if all then ''uv_fs_fsync'' else ''uv_fs_fdatasync'')) (fs_sync_run env a h all w) \<and>
      ok (on_file ''uv_fs_ftruncate'') (fs_truncate_run env a h offset w) \<and>
      ok (on_file ''uv_fs_fstat'') (fs_stat_run_file env a h w) \<and>
      ok (on_file ''uv_fs_fchmod'') (fs_chmod_run_file env a h mode w) \<and>
      ok (on_file ''uv_fs_fchown'') (fs_chown_run_file env a h uid gid w) \<and>
      ok (on_file ''uv_fs_futime'') (fs_utime_run_file env a h atime mtime w) \<and>
      ok (if fd = -1 then refused else send) (fs_sendfile_run env a out h offset len w)"
proof -
  have both: "ok (\<lambda>(r, w'). P (r, w') \<and> A r) m" if "ok P m" "\<And>r w'. m = Inr (r, w') \<Longrightarrow> A r"
    for P A and m :: "(int \<times> world) res"
    using that by (auto simp: ok_iff)
  note on_file = fs_file_op_ok [OF client_ok_dest(1) [OF assms(1)] assms(2-4,7)]
  have ops: "ok (ran (r_request_cb i) E (inc (HandleO h) E) a (\<lambda>i. p_handle (r_props i) = Some h)) m"
    if "m \<in> {fs_sync_run env a h all w, fs_stat_run_file env a h w, fs_chmod_run_file env a h mode w,
      fs_chown_run_file env a h uid gid w, fs_utime_run_file env a h atime mtime w}" for m
    using that by (auto simp: fs_sync_run_def fs_stat_run_file_def fs_chmod_run_file_def fs_chown_run_file_def
        fs_utime_run_file_def intro!: on_file)
  show ?thesis
    unfolding Let_def
    by (intro conjI both fs_read_run_ok [OF assms(1-4,6,7)] fs_write_run_ok [OF assms(1-4,6,7)]
        fs_close_run_ok [OF assms(1-4,7-9)] ops fs_truncate_run_ok [OF client_ok_dest(1) [OF assms(1)] assms(2-4,7)]
        fs_sendfile_run_exact [OF assms(1-5,7,10)] transfers_answered file_ops_answered)
      simp_all
qed

lemma request_world_file: "handles request_world 2 = Some (handle_init If_file)"
  by (simp add: request_world_def handle_create_def buffer_create_def request_create_def
      world_init_def store_simps)

lemma request_world_stream: "handles request_world 0 = Some (handle_init If_stream)"
  by (simp add: request_world_def handle_create_def buffer_create_def request_create_def
      world_init_def store_simps)

theorem fs_file_requests_start_witness:
  "ok (started (\<lambda>_. 0) (inc (BufferO 3) (inc (HandleO 2) (\<lambda>_. 0))) 4 (transferring 2 3))
     (fs_write_run quiet_env 4 2 3 0 request_world) \<and>
   ok (started (\<lambda>_. 0) (inc (HandleO 2) (\<lambda>_. 0)) 4 (\<lambda>i. p_handle (r_props i) = Some 2))
     (fs_close_run quiet_env 4 2 request_world) \<and>
   ok (started (\<lambda>_. 0) (inc (HandleO 2) (inc (HandleO 0) (\<lambda>_. 0))) 4 (sending 0 2))
     (fs_sendfile_run quiet_env 4 0 2 0 10 request_world)"
proof -
  have fd: "out_descriptor quiet_env tr 0 (handle_init If_stream) \<noteq> -1" for tr
    by (simp add: out_descriptor_def iface_type_def handle_init_def uv_struct_init_def quiet_env_def)
  have "idle_file (handle_init If_file)" by (simp add: handle_init_def io_properties_init_def)
  note all = fs_file_requests_start [where offset = 0 and len = 10, OF client_ok_quiet request_world_winv
      request_world_refers(5,3,1,4) request_world_eq(2) request_world_file this request_world_stream, unfolded Let_def]
  note op = all [THEN conjunct2] and last = all [THEN conjunct2, THEN conjunct2, THEN conjunct2, THEN conjunct2,
      THEN conjunct2, THEN conjunct2, THEN conjunct2, THEN conjunct2, THEN conjunct2]
  show ?thesis
    by (intro conjI ok_weaken [OF op [THEN conjunct1]] ok_weaken [OF op [THEN conjunct2, THEN conjunct1]]
        ok_weaken [OF last]) (auto simp: fd)
qed

text \<open>
  C11: The same holds of the requests that name the file by a path: a pending operation owns one
  reference to the request and nothing else, and the classes that can also work on an open file
  record that they do not.
\<close>

theorem fs_path_requests_start:
  assumes "winv E w" "refers w (RequestO a)" "requests w a = Some i"
  shows "let on_path = ran (r_request_cb i) E E a (\<lambda>_. True);
      no_file = ran (r_request_cb i) E E a (\<lambda>i. p_handle (r_props i) = None)
    in ok no_file (fs_stat_run env a l path follow w) \<and> ok no_file (fs_chmod_run env a l path mode w) \<and>
      ok no_file (fs_chown_run env a l path uid gid w) \<and> ok no_file (fs_utime_run env a l path atime mtime w) \<and>
      ok on_path (fs_unlink_run env a l path w) \<and> ok on_path (fs_mkdir_run env a l path mode w) \<and>
      ok on_path (fs_mkdtemp_run env a l path w) \<and> ok on_path (fs_rmdir_run env a l path w) \<and>
      ok on_path (fs_scandir_run env a l path w) \<and> ok on_path (fs_rename_run env a l path path' w) \<and>
      ok on_path (fs_access_run env a l path mode w) \<and> ok on_path (fs_link_run env a l path path' symbolic flags w) \<and>
      ok on_path (fs_readlink_run env a l path w) \<and> ok on_path (fs_realpath_run env a l path w)"
  unfolding Let_def fs_stat_run_def fs_chmod_run_def fs_chown_run_def fs_utime_run_def fs_unlink_run_def
    fs_mkdir_run_def fs_mkdtemp_run_def fs_rmdir_run_def fs_scandir_run_def fs_rename_run_def
    fs_access_run_def fs_link_run_def fs_readlink_run_def fs_realpath_run_def
  by (auto intro: fs_path_run_ok [OF assms] fs_path_run_nofile_ok [OF assms])

theorem fs_path_requests_start_witness:
  "ok (started (\<lambda>_. 0) (\<lambda>_. 0) 4 (\<lambda>i. p_handle (r_props i) = None))
     (fs_stat_run quiet_env 4 9 ''/tmp/x'' True request_world) \<and>
   ok (started (\<lambda>_. 0) (\<lambda>_. 0) 4 (\<lambda>_. True)) (fs_unlink_run quiet_env 4 9 ''/tmp/x'' request_world)"
  using fs_path_requests_start [OF request_world_winv request_world_refers(5) request_world_eq(2)]
  by (simp add: Let_def)

text \<open>
  C10: The completion handlers of the file-system requests give back exactly the references the
  pending operation owned, whatever the client's callback does; the shared handler of the
  classes with two runs tells from the request whether there is a file to release.
\<close>

theorem fs_requests_complete:
  assumes "client_ok K env"
  shows "(pending (inc (HandleO h) E) a (\<lambda>i. p_handle (r_props i) = Some h) w \<longrightarrow>
      ok (grown K E) (fs_close_cb env a w) \<and> ok (grown K E) (fs_sync_cb env a w) \<and>
      ok (grown K E) (fs_truncate_cb env a w) \<and> ok (grown K E) (fs_stat_cb env a w) \<and>
      ok (grown K E) (fs_chmod_cb env a w) \<and> ok (grown K E) (fs_chown_cb env a w) \<and>
      ok (grown K E) (fs_utime_cb env a w)) \<and>
    (pending (inc (BufferO b) (inc (HandleO h) E)) a (transferring h b) w \<longrightarrow>
      ok (grown K E) (fs_read_cb env a w) \<and> ok (grown K E) (fs_write_cb env a w)) \<and>
    (pending (inc (HandleO h) (inc (HandleO out) E)) a (sending out h) w \<longrightarrow>
      ok (grown K E) (fs_sendfile_cb env a w)) \<and>
    (pending E a (\<lambda>i. p_handle (r_props i) = None) w \<longrightarrow>
      ok (grown K E) (fs_stat_cb env a w) \<and> ok (grown K E) (fs_chmod_cb env a w) \<and>
      ok (grown K E) (fs_chown_cb env a w) \<and> ok (grown K E) (fs_utime_cb env a w)) \<and>
    (pending E a (\<lambda>_. True) w \<longrightarrow>
      ok (grown K E) (fs_unlink_cb env a w) \<and> ok (grown K E) (fs_mkdir_cb env a w) \<and>
      ok (grown K E) (fs_mkdtemp_cb env a w) \<and> ok (grown K E) (fs_rmdir_cb env a w) \<and>
      ok (grown K E) (fs_scandir_cb env a w) \<and> ok (grown K E) (fs_rename_cb env a w) \<and>
      ok (grown K E) (fs_access_cb env a w) \<and> ok (grown K E) (fs_link_cb env a w) \<and>
      ok (grown K E) (fs_readlink_cb env a w) \<and> ok (grown K E) (fs_realpath_cb env a w))"
  unfolding fs_close_cb_def fs_sync_cb_def fs_truncate_cb_def fs_stat_cb_def fs_chmod_cb_def
    fs_chown_cb_def fs_utime_cb_def fs_unlink_cb_def fs_mkdir_cb_def fs_mkdtemp_cb_def fs_rmdir_cb_def
    fs_scandir_cb_def fs_rename_cb_def fs_access_cb_def fs_link_cb_def fs_readlink_cb_def fs_realpath_cb_def
  by (intro conjI impI)
    (rule fs_file_cb_ok [OF assms] fs_either_cb_file [OF assms] fs_either_cb_path [OF assms]
      fs_path_cb_ok [OF assms] fs_read_cb_ok [OF assms] fs_write_cb_ok [OF assms] fs_sendfile_cb_ok [OF assms],
      assumption)+

text \<open>The states two requests that have been started leave the example in.\<close>

definition synced_world :: world where
  "synced_world = snd (projr (fs_sync_run quiet_env 4 2 True request_world))"

definition unlinked_world :: world where
  "unlinked_world = snd (projr (fs_unlink_run quiet_env 4 9 ''/tmp/x'' request_world))"

lemmas fs_run_defs = fs_req_cleanup_def fs_file_run_def fs_path_run_def file_call_def request_try_def
  handle_ref_def request_ref_def props_mod_def request_set_status_def uv_on_request_def
  request_world_def handle_create_def buffer_create_def request_create_def world_init_def
  ref_count_inc_def handle_init_def request_init_def quiet_env_def handle_at_def request_at_def
  request_mod_def Let_def

lemma synced_pending:
  "pending (inc (HandleO 2) (\<lambda>_. 0)) 4 (\<lambda>i. p_handle (r_props i) = Some 2) synced_world"
proof -
  have "ok (ran (Some 7) (\<lambda>_. 0) (inc (HandleO 2) (\<lambda>_. 0)) 4 (\<lambda>i. p_handle (r_props i) = Some 2))
      (fs_sync_run quiet_env 4 2 True request_world)"
    using fs_file_op_ok [OF client_ok_dest(1) [OF client_ok_quiet] request_world_winv
        request_world_refers(5,3) request_world_eq(2), of "\<lambda>p. p\<lparr>p_handle := Some 2\<rparr>"]
    by (simp add: fs_sync_run_def)
  moreover have "ok (\<lambda>x. fst x = 0) (fs_sync_run quiet_env 4 2 True request_world)"
    by (simp add: fs_sync_run_def fs_run_defs store_simps)
  ultimately show ?thesis by (auto simp: ok_iff started_def synced_world_def)
qed

lemma unlinked_pending: "pending (\<lambda>_. 0) 4 (\<lambda>_. True) unlinked_world"
proof -
  have "ok (ran (Some 7) (\<lambda>_. 0) (\<lambda>_. 0) 4 (\<lambda>_. True)) (fs_unlink_run quiet_env 4 9 ''/tmp/x'' request_world)"
    using fs_path_run_ok [OF request_world_winv request_world_refers(5) request_world_eq(2)]
    by (simp add: fs_unlink_run_def)
  moreover have "ok (\<lambda>x. fst x = 0) (fs_unlink_run quiet_env 4 9 ''/tmp/x'' request_world)"
    by (simp add: fs_unlink_run_def fs_run_defs store_simps)
  ultimately show ?thesis by (auto simp: ok_iff started_def unlinked_world_def)
qed

theorem fs_requests_complete_witness:
  "ok (grown {} (\<lambda>_. 0)) (fs_sync_cb quiet_env 4 synced_world) \<and>
   ok (grown {} (\<lambda>_. 0)) (fs_stat_cb quiet_env 4 synced_world) \<and>
   ok (grown {} (\<lambda>_. 0)) (fs_unlink_cb quiet_env 4 unlinked_world)"
  using fs_requests_complete [OF client_ok_quiet] synced_pending unlinked_pending by blast

section \<open>The size of the write queue\<close>

lemma fs_write_queue_at:
  assumes "requests w a = Some i" "r_request_cb i = Some c" "handles w h = Some hi" "buffers w b = Some bi"
    "0 < r_refs i" "0 < h_refs hi" "0 < b_refs bi"
  shows "ok (\<lambda>(r, w'). \<exists>hj. handles w' h = Some hj \<and> write_queue_size (h_file hj) =
      write_queue_size (h_file hi) + (if r < 0 then 0 else sum_list (b_lens bi)))
    (fs_write_at env a h b offset w)"
  using assms
  by (simp add: fs_write_at_def handle_ref_eq buffer_ref_def request_ref_eq write_size_def buffer_at_def
      props_mod_def file_mod_def request_try_def request_set_status_def file_buffer_call_def
      buffer_count_def file_call_def uv_on_request_def handle_unref_shared buffer_unref_def
      request_unref_def ref_count_dec_def Let_def store_simps)

text \<open>
  C12: A pending write counts the bytes of its buffer in the write queue of the file; a run that
  fails leaves the queue as it was. \<open>try_write()\<close> refuses with \<open>UV_EAGAIN\<close> while the queue is not
  empty, and then has asked libuv for nothing but the clean-up of the request.
\<close>

theorem fs_write_queue:
  assumes "client_ok K env" "winv E w" "refers w (RequestO a)" "refers w (HandleO h)" "refers w (BufferO b)"
    "requests w a = Some i" "r_request_cb i = Some c" "handles w h = Some hi" "h_iface hi = If_file"
    "buffers w b = Some bi"
  shows "ok (\<lambda>(r, w'). \<exists>hj. handles w' h = Some hj \<and> write_queue_size (h_file hj) =
      write_queue_size (h_file hi) + (if r < 0 then 0 else sum_list (b_lens bi)))
      (fs_write_run env a h b offset w) \<and>
    (write_queue_size (h_file hi) \<noteq> 0 \<longrightarrow>
      ok (\<lambda>(r, w'). r = UV_EAGAIN \<and> trace w' = trace w @ [Call ''uv_fs_req_cleanup'' [Ptr (Some a)]])
        (fs_write_try env a h b offset w))"
proof (intro conjI impI)
  show "ok (\<lambda>(r, w'). \<exists>hj. handles w' h = Some hj \<and> write_queue_size (h_file hj) =
      write_queue_size (h_file hi) + (if r < 0 then 0 else sum_list (b_lens bi)))
      (fs_write_run env a h b offset w)"
    unfolding fs_write_run_def
  proof (rule fs_prepared [OF assms(2,4,6)])
    fix off w' u assume w': "winv E w'" "handles w' = handles w" "buffers w' = buffers w"
      "requests w' a = Some (i\<lparr>r_uv := u\<rparr>)"
    show "ok (\<lambda>(r, w'). \<exists>hj. handles w' h = Some hj \<and> write_queue_size (h_file hj) =
      write_queue_size (h_file hi) + (if r < 0 then 0 else sum_list (b_lens bi)))
      (fs_write_at env a h b off w')"
      by (rule fs_write_queue_at [OF w'(4)])
        (use assms(7,8,10) w' winv_refs_pos [OF assms(2)] winv_refs_pos(4) [OF w'(1,4)] in auto)
  qed
next
  assume "write_queue_size (h_file hi) \<noteq> 0"
  with fs_write_try_ok [OF assms(1-6,8,9), of offset]
  show "ok (\<lambda>(r, w'). r = UV_EAGAIN \<and> trace w' = trace w @ [Call ''uv_fs_req_cleanup'' [Ptr (Some a)]])
        (fs_write_try env a h b offset w)"
    by (elim ok_weaken) auto
qed

lemma request_world_buffer: "buffers request_world 3 = Some (buffer_init [5])"
  by (simp add: request_world_def handle_create_def buffer_create_def request_create_def
      world_init_def store_simps)

theorem fs_write_queue_witness:
  "ok (\<lambda>(r, w'). \<exists>hj. handles w' 2 = Some hj \<and> write_queue_size (h_file hj) = (if r < 0 then 0 else 5))
     (fs_write_run quiet_env 4 2 3 0 request_world)"
  using fs_write_queue [OF client_ok_quiet request_world_winv request_world_refers(5,3,4)
      request_world_eq(2) _ request_world_file _ request_world_buffer, of 7 0]
  by (simp add: handle_init_def file_properties_init_def buffer_init_def buffer_ctor_def Let_def
      cong: if_cong)

section \<open>What a request keeps\<close>

text \<open>A file with the descriptor 3 and a request without a callback, each held by one variable.\<close>

definition sync_world :: world where
  "sync_world = world_init\<lparr>handles := [0 \<mapsto> file_example], requests := [2 \<mapsto> request_init],
     vars := [1 \<mapsto> Some (HandleO 0), 3 \<mapsto> Some (RequestO 2)], nxt := 4\<rparr>"

text \<open>
  A request that has run synchronously, or has completed, still names its file but holds no
  reference to it: when the file's variable has gone, \<open>handle()\<close> makes a handle of an instance
  that has been deleted.
\<close>

theorem fs_handle_dangles:
  "rbind (fs_sync_run quiet_env 2 0 True sync_world) (\<lambda>(r, w).
   rbind (handle_var_dtor quiet_env 1 w) (\<lambda>w.
   fs_handle 5 2 w)) = Inl Use_after_free"
  unfolding faults_iff [symmetric] by code_simp

text \<open>
  Closing a file with a request does not make its handle forget the descriptor: the
  destructor of the handle closes the same descriptor a second time, although it may have been
  given to another file in the meantime.
\<close>

theorem file_closed_twice:
  "ok (\<lambda>w. filter (\<lambda>e. case e of Call f args \<Rightarrow> f = ''uv_fs_close'' | _ \<Rightarrow> False) (trace w) =
     [Call ''uv_fs_close'' [Ptr (Some 2), Ptr None, Num 3, Callback False],
      Call ''uv_fs_close'' [Ptr None, Num 3, Callback False]])
   (rbind (fs_close_run quiet_env 2 0 sync_world) (\<lambda>(r, w). handle_var_dtor quiet_env 1 w))"
  by code_simp

end
