(* ===== verification/Uvcc_Net_Request.thy ===== *)
theory Uvcc_Net_Request
  imports Uvcc_Pending
begin

text \<open>
  \<^verbatim>\<open>request-stream.hpp\<close>, \<^verbatim>\<open>request-udp.hpp\<close>, \<^verbatim>\<open>request-misc.hpp\<close> and \<^verbatim>\<open>request-dns.hpp\<close>: connecting,
  writing and shutting down streams, sending datagrams, work on the thread pool, and name
  resolution. Each run is proved to hold exactly the references its completion handler gives
  back.
\<close>

section \<open>Streams\<close>

definition connect_ctor :: "world \<Rightarrow> (addr \<times> world) res" where
  "connect_ctor = request_ctor UV_CONNECT"

text \<open>\<open>handle()\<close>: the variable \<open>v\<close> for the handle libuv has entered into the request.\<close>

definition request_handle :: "var \<Rightarrow> addr \<Rightarrow> world \<Rightarrow> world res" where
  "request_handle v a w = rbind (request_at a w) (\<lambda>i. handle_from v (q_handle (r_uv i)) w)"

definition connect_run :: "env \<Rightarrow> addr \<Rightarrow> addr \<Rightarrow> arg \<Rightarrow> world \<Rightarrow> (int \<times> world) res" where
  "connect_run env a h sockaddr w =
     rbind (handle_ref h w) (\<lambda>w.
     rbind (request_ref a w) (\<lambda>w.
     request_try env a
       (uv_on_request env ''uv_tcp_connect'' a [Ptr (Some h), sockaddr, Callback True])
       (handle_unref env h) w))"

text \<open>\<open>uv_pipe_connect()\<close> returns nothing; a failure is reported to the handler.\<close>

definition connect_run_pipe :: "env \<Rightarrow> addr \<Rightarrow> addr \<Rightarrow> string \<Rightarrow> world \<Rightarrow> world res" where
  "connect_run_pipe env a h name w =
     rbind (handle_ref h w) (\<lambda>w.
     rbind (request_ref a w) (\<lambda>w.
     rbind (uv_on_request env ''uv_pipe_connect'' a [Ptr (Some h), Str name, Callback True] w)
       (\<lambda>(r, w). Inr w)))"

definition connect_cb :: "env \<Rightarrow> addr \<Rightarrow> int \<Rightarrow> world \<Rightarrow> world res" where
  "connect_cb env a status w =
     rbind (request_set_status a status w) (\<lambda>w.
     rbind (request_at a w) (\<lambda>i.
     rbind (deref (q_handle (r_uv i))) (\<lambda>h.
     guarded env a (request_fire env a) (handle_unref env h) w)))"

definition write_ctor :: "world \<Rightarrow> (addr \<times> world) res" where
  "write_ctor = request_ctor UV_WRITE"

definition write_send_handle :: "var \<Rightarrow> addr \<Rightarrow> world \<Rightarrow> world res" where
  "write_send_handle v a w = rbind (request_at a w) (\<lambda>i. handle_from v (q_send_handle (r_uv i)) w)"

definition write_run :: "env \<Rightarrow> addr \<Rightarrow> addr \<Rightarrow> addr \<Rightarrow> world \<Rightarrow> (int \<times> world) res" where
  "write_run env a h b w =
     rbind (handle_ref h w) (\<lambda>w.
     rbind (buffer_ref b w) (\<lambda>w.
     rbind (request_ref a w) (\<lambda>w.
     rbind (props_mod a (\<lambda>p. p\<lparr>p_buf := Some b\<rparr>) w) (\<lambda>w.
     request_try env a
       (\<lambda>w. rbind (buffer_count b w) (\<lambda>n.
          uv_on_request env ''uv_write'' a
            [Ptr (Some h), Ptr (Some b), Num (int n), Callback True] w))
       (\<lambda>w. rbind (handle_unref env h w) (buffer_unref env b)) w))))"

definition write_run_send :: "env \<Rightarrow> addr \<Rightarrow> addr \<Rightarrow> addr \<Rightarrow> addr \<Rightarrow> world \<Rightarrow> (int \<times> world) res" where
  "write_run_send env a h b s w =
     rbind (handle_ref h w) (\<lambda>w.
     rbind (buffer_ref b w) (\<lambda>w.
     rbind (handle_ref s w) (\<lambda>w.
     rbind (request_ref a w) (\<lambda>w.
     rbind (props_mod a (\<lambda>p. p\<lparr>p_buf := Some b\<rparr>) w) (\<lambda>w.
     request_try env a
       (\<lambda>w. rbind (buffer_count b w) (\<lambda>n.
          uv_on_request env ''uv_write2'' a
            [Ptr (Some h), Ptr (Some b), Num (int n), Ptr (Some s), Callback True] w))
       (\<lambda>w. rbind (handle_unref env h w) (\<lambda>w. rbind (buffer_unref env b w) (handle_unref env s))) w)))))"

definition write_try :: "env \<Rightarrow> addr \<Rightarrow> addr \<Rightarrow> addr \<Rightarrow> world \<Rightarrow> (int \<times> world) res" where
  "write_try env a h b w =
     rbind (buffer_count b w) (\<lambda>n.
     rbind (uv_on_handle env ''uv_try_write'' h [Ptr (Some b), Num (int n)] w)
       (request_return_status a))"

definition write_cb :: "env \<Rightarrow> addr \<Rightarrow> int \<Rightarrow> world \<Rightarrow> world res" where
  "write_cb env a status w =
     rbind (request_set_status a status w) (\<lambda>w.
     rbind (request_at a w) (\<lambda>i.
     rbind (deref (q_handle (r_uv i))) (\<lambda>h.
     guarded env a (request_fire_buffer env a) (handle_unref env h) w)))"

definition write2_cb :: "env \<Rightarrow> addr \<Rightarrow> int \<Rightarrow> world \<Rightarrow> world res" where
  "write2_cb env a status w =
     rbind (request_at a w) (\<lambda>i.
     rbind (deref (q_send_handle (r_uv i))) (\<lambda>s.
     rbind (write_cb env a status w) (handle_unref env s)))"

definition shutdown_ctor :: "world \<Rightarrow> (addr \<times> world) res" where
  "shutdown_ctor = request_ctor UV_SHUTDOWN"

definition shutdown_run :: "env \<Rightarrow> addr \<Rightarrow> addr \<Rightarrow> world \<Rightarrow> (int \<times> world) res" where
  "shutdown_run env a h w =
     rbind (handle_ref h w) (\<lambda>w.
     rbind (request_ref a w) (\<lambda>w.
     request_try env a (uv_on_request env ''uv_shutdown'' a [Ptr (Some h), Callback True])
       (handle_unref env h) w))"

definition shutdown_cb :: "env \<Rightarrow> addr \<Rightarrow> int \<Rightarrow> world \<Rightarrow> world res" where
  "shutdown_cb env a status w =
     rbind (request_set_status a status w) (\<lambda>w.
     rbind (request_at a w) (\<lambda>i.
     rbind (deref (q_handle (r_uv i))) (\<lambda>h.
     guarded env a (request_fire env a) (handle_unref env h) w)))"

section \<open>Datagrams\<close>

definition udp_send_ctor :: "world \<Rightarrow> (addr \<times> world) res" where
  "udp_send_ctor = request_ctor UV_UDP_SEND"

definition sockaddr_arg :: "memory \<Rightarrow> arg" where
  "sockaddr_arg m = Str (map (\<lambda>x. char_of (unat x)) m)"

definition udp_send_run :: "env \<Rightarrow> addr \<Rightarrow> addr \<Rightarrow> addr \<Rightarrow> memory \<Rightarrow> world \<Rightarrow> (int \<times> world) res" where
  "udp_send_run env a h b sockaddr w =
     rbind (handle_ref h w) (\<lambda>w.
     rbind (buffer_ref b w) (\<lambda>w.
     rbind (request_ref a w) (\<lambda>w.
     rbind (init_storage_from sockaddr) (\<lambda>(r, peer).
     rbind (props_mod a (\<lambda>p. p\<lparr>p_buf := Some b, p_peer := peer\<rparr>) w) (\<lambda>w.
     request_try env a
       (\<lambda>w. rbind (buffer_count b w) (\<lambda>n.
          uv_on_request env ''uv_udp_send'' a
            [Ptr (Some h), Ptr (Some b), Num (int n), sockaddr_arg sockaddr, Callback True] w))
       (\<lambda>w. rbind (handle_unref env h w) (buffer_unref env b)) w)))))"

definition udp_send_try :: "env \<Rightarrow> addr \<Rightarrow> addr \<Rightarrow> addr \<Rightarrow> memory \<Rightarrow> world \<Rightarrow> (int \<times> world) res" where
  "udp_send_try env a h b sockaddr w =
     rbind (buffer_count b w) (\<lambda>n.
     rbind (uv_on_handle env ''uv_udp_try_send'' h [Ptr (Some b), Num (int n), sockaddr_arg sockaddr] w)
       (request_return_status a))"

definition udp_send_cb :: "env \<Rightarrow> addr \<Rightarrow> int \<Rightarrow> world \<Rightarrow> world res" where
  "udp_send_cb env a status w =
     rbind (request_set_status a status w) (\<lambda>w.
     rbind (request_at a w) (\<lambda>i.
     rbind (deref (q_handle (r_uv i))) (\<lambda>h.
     guarded env a (request_fire_buffer env a) (handle_unref env h) w)))"

section \<open>Work\<close>

definition work_ctor :: "world \<Rightarrow> (addr \<times> world) res" where
  "work_ctor = request_ctor UV_WORK"

definition work_run :: "env \<Rightarrow> addr \<Rightarrow> addr \<Rightarrow> cb \<Rightarrow> world \<Rightarrow> (int \<times> world) res" where
  "work_run env a l c w =
     rbind (request_ref a w) (\<lambda>w.
     rbind (props_mod a (\<lambda>p. p\<lparr>p_task := Some c, p_future := Some False\<rparr>) w) (\<lambda>w.
     request_try env a
       (uv_on_request env ''uv_queue_work'' a [Ptr (Some l), Callback True, Callback True]) Inr w))"

text \<open>
  The task runs on a thread of the pool. A packaged task that has already delivered its result
  throws \<^verbatim>\<open>std::future_error\<close>, a logic error.
\<close>

definition work_cb :: "env \<Rightarrow> addr \<Rightarrow> world \<Rightarrow> world res" where
  "work_cb env a w =
     rbind (request_at a w) (\<lambda>i.
     case p_task (r_props i) of
         None \<Rightarrow> Inr w
       | Some c \<Rightarrow>
           if p_future (r_props i) = Some True then Inl Logic_error
           else rbind (usr env c [] [] w) (\<lambda>w. props_mod a (\<lambda>p. p\<lparr>p_future := Some True\<rparr>) w))"

definition after_work_cb :: "env \<Rightarrow> addr \<Rightarrow> int \<Rightarrow> world \<Rightarrow> world res" where
  "after_work_cb env a status w =
     rbind (request_set_status a status w) (\<lambda>w.
     guarded env a (request_fire env a) Inr w)"

definition work_result :: "addr \<Rightarrow> world \<Rightarrow> bool option res" where
  "work_result a w = rbind (request_at a w) (\<lambda>i. Inr (p_future (r_props i)))"

section \<open>Name resolution\<close>

definition getaddrinfo_ctor :: "world \<Rightarrow> (addr \<times> world) res" where
  "getaddrinfo_ctor w =
     rbind (request_ctor UV_GETADDRINFO w) (\<lambda>(a, w).
     rbind (request_mod a (\<lambda>i. i\<lparr>r_uv := (r_uv i)\<lparr>q_addrinfo := None\<rparr>\<rparr>) w) (\<lambda>w.
     rbind (props_mod a (\<lambda>p. p\<lparr>p_cleanup := Addrinfo_cleanup\<rparr>) w) (\<lambda>w. Inr (a, w))))"

definition getaddrinfo_run ::
  "env \<Rightarrow> addr \<Rightarrow> addr \<Rightarrow> string \<Rightarrow> string \<Rightarrow> arg \<Rightarrow> world \<Rightarrow> (int \<times> world) res" where
  "getaddrinfo_run env a l hostname service hints w =
     rbind (request_at a w) (\<lambda>i.
     let (r, w) = uv env ''uv_freeaddrinfo'' [Ptr (q_addrinfo (r_uv i))] w in
     if r_request_cb i = None then
       request_status_call env ''uv_getaddrinfo'' a
         [Ptr (Some l), Callback False, Str hostname, Str service, hints] w
     else
       rbind (request_ref a w) (\<lambda>w.
       request_try env a
         (uv_on_request env ''uv_getaddrinfo'' a
            [Ptr (Some l), Callback True, Str hostname, Str service, hints]) Inr w))"

definition getaddrinfo_cb :: "env \<Rightarrow> addr \<Rightarrow> int \<Rightarrow> world \<Rightarrow> world res" where
  "getaddrinfo_cb env a status w =
     rbind (request_set_status a status w) (\<lambda>w.
     guarded env a (request_fire env a) Inr w)"

definition getaddrinfo_addrinfo :: "addr \<Rightarrow> world \<Rightarrow> addr option res" where
  "getaddrinfo_addrinfo a w = rbind (request_at a w) (\<lambda>i. Inr (q_addrinfo (r_uv i)))"

text \<open>\<open>loop()\<close>: the variable \<open>v\<close> for the loop libuv has entered into the request.\<close>

definition request_loop :: "var \<Rightarrow> addr \<Rightarrow> world \<Rightarrow> world res" where
  "request_loop v a w = rbind (request_at a w) (\<lambda>i. loop_from v (q_loop (r_uv i)) w)"

definition getnameinfo_ctor :: "world \<Rightarrow> (addr \<times> world) res" where
  "getnameinfo_ctor = request_ctor UV_GETNAMEINFO"

definition getnameinfo_run ::
  "env \<Rightarrow> addr \<Rightarrow> addr \<Rightarrow> arg \<Rightarrow> int \<Rightarrow> world \<Rightarrow> (int \<times> world) res" where
  "getnameinfo_run env a l sockaddr flags w =
     rbind (request_at a w) (\<lambda>i.
     if r_request_cb i = None then
       request_status_call env ''uv_getnameinfo'' a
         [Ptr (Some l), Callback False, sockaddr, Num flags] w
     else
       rbind (request_ref a w) (\<lambda>w.
       request_try env a
         (uv_on_request env ''uv_getnameinfo'' a [Ptr (Some l), Callback True, sockaddr, Num flags])
         Inr w))"

definition getnameinfo_cb :: "env \<Rightarrow> addr \<Rightarrow> int \<Rightarrow> world \<Rightarrow> world res" where
  "getnameinfo_cb env a status w =
     rbind (request_set_status a status w) (\<lambda>w.
     guarded env a (request_fire env a) Inr w)"

section \<open>Correctness of the requests on streams and datagram sockets\<close>

lemma connect_run_ok:
  assumes "closes_loops env" "records_handle env ''uv_tcp_connect''" "winv E w"
    "refers w (RequestO a)" "refers w (HandleO h)"
  shows "ok (started E (inc (HandleO h) E) a (\<lambda>i. q_handle (r_uv i) = Some h)) (connect_run env a h sa w)"
  unfolding connect_run_def
  by (rule run_handle_ok [OF assms(1,3-5)], rule uv_call_pending, assumption, assumption)
    (use assms(2) in \<open>simp add: records_handle_def\<close>)

lemma shutdown_run_ok:
  assumes "closes_loops env" "records_handle env ''uv_shutdown''" "winv E w"
    "refers w (RequestO a)" "refers w (HandleO h)"
  shows "ok (started E (inc (HandleO h) E) a (\<lambda>i. q_handle (r_uv i) = Some h)) (shutdown_run env a h w)"
  unfolding shutdown_run_def
  by (rule run_handle_ok [OF assms(1,3-5)], rule uv_call_pending, assumption, assumption)
    (use assms(2) in \<open>simp add: records_handle_def\<close>)

abbreviation writing :: "addr \<Rightarrow> addr \<Rightarrow> req_instance \<Rightarrow> bool" where
  "writing h b i \<equiv> q_handle (r_uv i) = Some h \<and> p_buf (r_props i) = Some b"

lemma write_run_ok:
  assumes "client_ok K env" "records_handle env ''uv_write''" "winv E w"
    "refers w (RequestO a)" "refers w (HandleO h)" "refers w (BufferO b)"
  shows "ok (started E (inc (BufferO b) (inc (HandleO h) E)) a (writing h b)) (write_run env a h b w)"
  unfolding write_run_def
  by (rule run_handle_buffer_ok [OF assms(1,3-6)], rule count_step, assumption,
      simp add: inc_apply, rule uv_call_pending, assumption, assumption)
    (use assms(2) in \<open>simp add: records_handle_def\<close>)

lemma udp_send_run_ok:
  assumes "client_ok K env" "records_handle env ''uv_udp_send''" "winv E w"
    "refers w (RequestO a)" "refers w (HandleO h)" "refers w (BufferO b)"
    "init_storage_from sa = Inr (r, peer)"
  shows "ok (started E (inc (BufferO b) (inc (HandleO h) E)) a
    (\<lambda>i. writing h b i \<and> p_peer (r_props i) = peer)) (udp_send_run env a h b sa w)"
  unfolding udp_send_run_def assms(7) rbind_Inr prod.case
  by (rule run_handle_buffer_ok [OF assms(1,3-6)], rule count_step, assumption,
      simp add: inc_apply, rule uv_call_pending, assumption, assumption)
    (use assms(2) in \<open>simp add: records_handle_def\<close>)

text \<open>
  What libuv documents of \<open>uv_write2()\<close>: when it has succeeded, the stream and the handle sent are
  entered into the request.
\<close>

definition records_send_handle :: "env \<Rightarrow> bool" where
  "records_send_handle env \<longleftrightarrow> (\<forall>tr a h b n s r req e.
     e = Call ''uv_write2'' [Ptr a, Ptr (Some h), Ptr b, n, Ptr (Some s), r] \<and> 0 \<le> uv_ret env tr e \<longrightarrow>
     q_handle (uv_req_eff env tr e req) = Some h \<and> q_send_handle (uv_req_eff env tr e req) = Some s)"

lemma write_run_send_ok:
  assumes c: "client_ok K env" "records_send_handle env" "winv E w"
    and r: "refers w (RequestO a)" "refers w (HandleO h)" "refers w (BufferO b)" "refers w (HandleO s)"
  shows "ok (started E (inc (HandleO s) (inc (BufferO b) (inc (HandleO h) E))) a
    (\<lambda>i. writing h b i \<and> q_send_handle (r_uv i) = Some s)) (write_run_send env a h b s w)"
  unfolding write_run_send_def
proof (rule hold_handle [OF c(3) r(2)], rule hold_buffer)
  let ?F = "inc (HandleO s) (inc (BufferO b) (inc (HandleO h) E))"
  let ?call = "\<lambda>w. rbind (buffer_count b w) (\<lambda>n. uv_on_request env ''uv_write2'' a
            [Ptr (Some h), Ptr (Some b), Num (int n), Ptr (Some s), Callback True] w)"
  let ?release = "\<lambda>w. rbind (handle_unref env h w) (\<lambda>w. rbind (buffer_unref env b w) (handle_unref env s))"
  have order: "inc (RequestO a) ?F = inc (HandleO h) (inc (BufferO b) (inc (HandleO s) (inc (RequestO a) E)))"
    by (rule ext) (simp add: inc_apply)
  fix w1 assume w1: "winv (inc (HandleO h) E) w1" "vars w1 = vars w"
  then show "winv (inc (HandleO h) E) w1" by simp
  show "refers w1 (BufferO b)" using w1(2) r by (simp add: refers_def)
  fix w2 assume w2: "winv (inc (BufferO b) (inc (HandleO h) E)) w2" "vars w2 = vars w1"
  have "refers w2 (HandleO s)" using w2(2) w1(2) r by (simp add: refers_def)
  with w2(1) show "ok (started E ?F a (\<lambda>i. writing h b i \<and> q_send_handle (r_uv i) = Some s))
    (rbind (handle_ref s w2) (\<lambda>w. rbind (request_ref a w) (\<lambda>w.
     rbind (props_mod a (\<lambda>p. p\<lparr>p_buf := Some b\<rparr>) w) (request_try env a ?call ?release))))"
  proof (rule hold_handle)
    fix w3 assume w3: "winv ?F w3" "vars w3 = vars w2"
    have "refers w3 (RequestO a)" using w3(2) w2(2) w1(2) r by (simp add: refers_def)
    with w3(1) show "ok (started E ?F a (\<lambda>i. writing h b i \<and> q_send_handle (r_uv i) = Some s))
      (rbind (request_ref a w3) (\<lambda>w. rbind (props_mod a (\<lambda>p. p\<lparr>p_buf := Some b\<rparr>) w)
         (request_try env a ?call ?release)))"
    proof (rule hold_request)
      fix w4 assume w4: "winv (inc (RequestO a) ?F) w4" "vars w4 = vars w3"
      have "refers w4 (RequestO a)" using w4(2) w3(2) w2(2) w1(2) r by (simp add: refers_def)
      from refers_request [OF w4(1) this] obtain i where i: "requests w4 a = Some i" .
      from w4(1) i show "ok (started E ?F a (\<lambda>i. writing h b i \<and> q_send_handle (r_uv i) = Some s))
        (rbind (props_mod a (\<lambda>p. p\<lparr>p_buf := Some b\<rparr>) w4) (request_try env a ?call ?release))"
      proof (rule set_props)
        fix w5 assume w5: "winv (inc (RequestO a) ?F) w5"
          "requests w5 a = Some (i\<lparr>r_props := r_props i\<lparr>p_buf := Some b\<rparr>\<rparr>)"
        show "ok (started E ?F a (\<lambda>i. writing h b i \<and> q_send_handle (r_uv i) = Some s))
          (request_try env a ?call ?release w5)"
        proof (rule request_try_ok [OF w5])
          fix w6 assume "winv (inc (RequestO a) ?F) w6"
          then show "ok (winv (inc (RequestO a) E)) (?release w6)"
            unfolding order
            by (intro ok_bind [OF release_handle] ok_bind [OF buffer_unref_ok] release_handle
                client_ok_dest(1,2) [OF c(1)])
        qed (rule count_step, assumption, simp add: inc_apply, rule uv_call_pending, assumption,
            assumption, use c(2) in \<open>simp add: records_send_handle_def\<close>)
      qed
    qed
  qed
qed

text \<open>Completion: the references of the operation are given back, whatever the client's callback does.\<close>

lemma connect_cb_ok:
  assumes "client_ok K env" "pending (inc (HandleO h) E) a (\<lambda>i. q_handle (r_uv i) = Some h) w"
  shows "ok (grown K E) (connect_cb env a status w)"
proof -
  from assms(2) obtain i where i: "winv (inc (RequestO a) (inc (HandleO h) E)) w"
    "requests w a = Some i" "q_handle (r_uv i) = Some h" by (auto simp: pending_def)
  show ?thesis
    unfolding connect_cb_def
    by (rule set_status [OF i(1,2)])
      (use i(3) in \<open>auto intro!: guarded_handle [OF assms(1)] request_fire_ok [OF assms(1)]\<close>)
qed

lemma shutdown_cb_ok:
  assumes "client_ok K env" "pending (inc (HandleO h) E) a (\<lambda>i. q_handle (r_uv i) = Some h) w"
  shows "ok (grown K E) (shutdown_cb env a status w)"
  using connect_cb_ok [OF assms] by (simp add: connect_cb_def shutdown_cb_def)

lemma write_cb_ok:
  assumes "client_ok K env" "pending (inc (BufferO b) (inc (HandleO h) E)) a (writing h b) w"
  shows "ok (grown K E) (write_cb env a status w)"
proof -
  have order: "inc (RequestO a) (inc (BufferO b) (inc (HandleO h) E)) =
      inc (BufferO b) (inc (RequestO a) (inc (HandleO h) E))" by (rule inc_commute)
  from assms(2) obtain i where i: "winv (inc (BufferO b) (inc (RequestO a) (inc (HandleO h) E))) w"
    "requests w a = Some i" "writing h b i" by (auto simp: pending_def order)
  show ?thesis
    unfolding write_cb_def
    by (rule set_status [OF i(1,2)])
      (use i(3) in \<open>auto intro!: guarded_handle [OF assms(1)] request_fire_buffer_ok [OF assms(1)]\<close>)
qed

lemma udp_send_cb_ok:
  assumes "client_ok K env" "pending (inc (BufferO b) (inc (HandleO h) E)) a (writing h b) w"
  shows "ok (grown K E) (udp_send_cb env a status w)"
  using write_cb_ok [OF assms] by (simp add: write_cb_def udp_send_cb_def)

lemma write2_cb_ok:
  assumes "client_ok K env" "pending (inc (HandleO s) (inc (BufferO b) (inc (HandleO h) E))) a
    (\<lambda>i. writing h b i \<and> q_send_handle (r_uv i) = Some s) w"
  shows "ok (grown K E) (write2_cb env a status w)"
proof -
  have order: "inc (HandleO s) (inc (BufferO b) (inc (HandleO h) E)) =
      inc (BufferO b) (inc (HandleO h) (inc (HandleO s) E))"
    by (rule ext) (simp add: inc_apply)
  from assms(2) obtain i where i: "requests w a = Some i" "q_send_handle (r_uv i) = Some s"
    and p: "pending (inc (BufferO b) (inc (HandleO h) (inc (HandleO s) E))) a (writing h b) w"
    by (auto simp: pending_def order)
  show ?thesis
    using i ok_bind [OF write_cb_ok [OF assms(1) p] handle_unref_grown [OF assms(1)]]
    by (simp add: write2_cb_def)
qed

section \<open>Correctness of work and name resolution\<close>

lemma work_run_ok:
  assumes "winv E w" "refers w (RequestO a)"
  shows "ok (started E E a (\<lambda>i. p_task (r_props i) = Some c \<and> p_future (r_props i) = Some False))
    (work_run env a l c w)"
  unfolding work_run_def
proof (rule hold_request [OF assms])
  fix w1 assume w1: "winv (inc (RequestO a) E) w1" "vars w1 = vars w"
  with assms(2) have "refers w1 (RequestO a)" by (simp add: refers_def)
  from refers_request [OF w1(1) this] obtain i where i: "requests w1 a = Some i" .
  show "ok (started E E a (\<lambda>i. p_task (r_props i) = Some c \<and> p_future (r_props i) = Some False))
    (rbind (props_mod a (\<lambda>p. p\<lparr>p_task := Some c, p_future := Some False\<rparr>) w1)
       (request_try env a
         (uv_on_request env ''uv_queue_work'' a [Ptr (Some l), Callback True, Callback True]) Inr))"
    by (rule set_props [OF w1(1) i], rule request_try_ok, assumption, assumption,
        rule uv_call_pending, assumption, assumption) simp_all
qed

lemma grown_live: "grown K (inc p E) w \<Longrightarrow> live_refs w p \<noteq> None"
  by (erule grown_inc) (simp add: winv_owned_live)

lemma work_cb_ok:
  assumes "client_ok K env"
    and "pending E a (\<lambda>i. p_task (r_props i) = Some c \<and> p_future (r_props i) = Some False) w"
  shows "ok (\<lambda>w'. \<exists>F. above K E F \<and> pending F a (\<lambda>i. p_future (r_props i) = Some True) w')
    (work_cb env a w)"
proof -
  from assms(2) obtain i where i: "winv (inc (RequestO a) E) w" "requests w a = Some i"
    "p_task (r_props i) = Some c" "p_future (r_props i) = Some False" by (auto simp: pending_def)
  from usr_grown [OF client_ok_dest(3) [OF assms(1)] i(1), of "[]" c "[]"] obtain w1
    where u: "usr env c [] [] w = Inr w1" and w1: "grown K (inc (RequestO a) E) w1" by (auto simp: ok_iff)
  from grown_inc [OF w1] obtain F where F: "winv (inc (RequestO a) F) w1" "above K E F" .
  from winv_owned_live [OF F(1)] obtain j where j: "requests w1 a = Some j" by (auto simp: live_request)
  from winv_request_put [OF F(1) j, of "j\<lparr>r_props := (r_props j)\<lparr>p_future := Some True\<rparr>\<rparr>"] F(2)
  show ?thesis
    using i u j by (auto simp: work_cb_def props_mod_def pending_def store_simps)
qed

text \<open>What the two handlers call: the task, and the callback with a copy of the request.\<close>

lemma work_cb_course:
  assumes "requests w a = Some i" "p_task (r_props i) = Some c" "work_cb env a w = Inr w'"
  shows "\<exists>u j. usr env c [] [] w = Inr u \<and> requests u a = Some j \<and>
    w' = request_put a (j\<lparr>r_props := (r_props j)\<lparr>p_future := Some True\<rparr>\<rparr>) u"
  using assms
  by (auto simp: work_cb_def props_mod_def request_mod_def request_at_def rbind_eq_Inr split: if_splits option.splits)

lemma after_work_cb_course:
  assumes "winv E w" "requests w a = Some i" "after_work_cb env a status w = Inr w'"
  shows "gives_request env (r_request_cb i) a (i\<lparr>r_uv_error := status\<rparr>) (request_unref env a) w w'"
proof -
  have "0 < r_refs (i\<lparr>r_uv_error := status\<rparr>)" using winv_refs_pos(4) [OF assms(1,2)] by simp
  note gives = gives_requestI [OF assms(1) this, where after = "request_unref env a" and cb = "r_request_cb i" and a = a
      and env = env and w' = w']
  from assms(2,3) show ?thesis
    by (auto simp: after_work_cb_def guarded_def request_fire_def request_set_status_def store_simps rbind_eq_Inr intro: gives)
qed

lemma after_work_cb_ok:
  assumes "client_ok K env" "pending E a P w"
  shows "ok (grown K E) (after_work_cb env a status w)"
proof -
  from assms(2) obtain i where i: "winv (inc (RequestO a) E) w" "requests w a = Some i"
    by (auto simp: pending_def)
  show ?thesis
    unfolding after_work_cb_def
    by (rule set_status [OF i]) (auto intro!: guarded_request request_fire_ok [OF assms(1)])
qed

lemma getaddrinfo_ctor_ok:
  assumes "winv E w"
  shows "ok (\<lambda>(a, w'). winv (inc (RequestO a) E) w' \<and> vars w' = vars w \<and>
      (\<exists>i. requests w' a = Some i \<and> r_refs i = 1 \<and> p_cleanup (r_props i) = Addrinfo_cleanup \<and>
         q_addrinfo (r_uv i) = None)) (getaddrinfo_ctor w)"
proof -
  from request_ctor_ok [OF assms, of UV_GETADDRINFO] obtain a w1 i where
    c: "request_ctor UV_GETADDRINFO w = Inr (a, w1)" and w1: "winv (inc (RequestO a) E) w1"
      "vars w1 = vars w" "requests w1 a = Some i" "r_refs i = 1"
    by (auto simp: ok_iff request_init_def)
  have "ok (\<lambda>(a, w'). winv (inc (RequestO a) E) w' \<and> vars w' = vars w \<and>
      (\<exists>i. requests w' a = Some i \<and> r_refs i = 1 \<and> p_cleanup (r_props i) = Addrinfo_cleanup \<and>
         q_addrinfo (r_uv i) = None))
    (rbind (request_mod a (\<lambda>i. i\<lparr>r_uv := (r_uv i)\<lparr>q_addrinfo := None\<rparr>\<rparr>) w1) (\<lambda>w.
     rbind (props_mod a (\<lambda>p. p\<lparr>p_cleanup := Addrinfo_cleanup\<rparr>) w) (\<lambda>w. Inr (a, w))))"
    by (rule request_mod_step [OF w1(1,3)], simp, rule set_props, assumption, assumption) (simp add: w1)
  with c show ?thesis by (simp add: getaddrinfo_ctor_def)
qed

lemma winv_uv: "uv env f args w = (r, w') \<Longrightarrow> winv E w' = winv E w \<and> vars w' = vars w \<and> requests w' = requests w"
  by (auto simp: uv_def store_simps)

lemma getaddrinfo_run_ok:
  assumes "winv E w" "refers w (RequestO a)" "requests w a = Some i"
  shows "ok (if r_request_cb i = None then \<lambda>(r, w'). winv E w' else started E E a (\<lambda>_. True))
    (getaddrinfo_run env a l hostname service hints w)"
proof -
  obtain r w1 where u: "uv env ''uv_freeaddrinfo'' [Ptr (q_addrinfo (r_uv i))] w = (r, w1)" by force
  from winv_uv [OF u] assms have w1: "winv E w1" "refers w1 (RequestO a)" "requests w1 a = Some i"
    by (auto simp: refers_def)
  show ?thesis
  proof (cases "r_request_cb i")
    case None
    with request_status_call_ok [OF w1(1,3), of env "''uv_getaddrinfo''"
        "[Ptr (Some l), Callback False, Str hostname, Str service, hints]"] u assms(3)
    show ?thesis by (auto simp: getaddrinfo_run_def elim: ok_weaken)
  next
    case Some
    have "ok (started E E a (\<lambda>_. True)) (rbind (request_ref a w1) (request_try env a
        (uv_on_request env ''uv_getaddrinfo'' a
          [Ptr (Some l), Callback True, Str hostname, Str service, hints]) Inr))"
      by (rule run_request_ok [OF w1(1,2)], rule uv_call_pending, assumption, assumption) simp
    with Some u assms(3) show ?thesis by (simp add: getaddrinfo_run_def)
  qed
qed

lemma getaddrinfo_cb_ok:
  assumes "client_ok K env" "pending E a P w"
  shows "ok (grown K E) (getaddrinfo_cb env a status w)"
  using after_work_cb_ok [OF assms] by (simp add: after_work_cb_def getaddrinfo_cb_def)

lemma getnameinfo_run_ok:
  assumes "winv E w" "refers w (RequestO a)" "requests w a = Some i"
  shows "ok (if r_request_cb i = None then \<lambda>(r, w'). winv E w' else started E E a (\<lambda>_. True))
    (getnameinfo_run env a l sockaddr flags w)"
proof (cases "r_request_cb i")
  case None
  with request_status_call_ok [OF assms(1,3), of env "''uv_getnameinfo''"
      "[Ptr (Some l), Callback False, sockaddr, Num flags]"] assms(3)
  show ?thesis by (auto simp: getnameinfo_run_def elim: ok_weaken)
next
  case Some
  have "ok (started E E a (\<lambda>_. True)) (rbind (request_ref a w) (request_try env a
      (uv_on_request env ''uv_getnameinfo'' a [Ptr (Some l), Callback True, sockaddr, Num flags]) Inr))"
    by (rule run_request_ok [OF assms(1,2)], rule uv_call_pending, assumption, assumption) simp
  with Some assms(3) show ?thesis by (simp add: getnameinfo_run_def)
qed

lemma getnameinfo_cb_ok:
  assumes "client_ok K env" "pending E a P w"
  shows "ok (grown K E) (getnameinfo_cb env a status w)"
  using after_work_cb_ok [OF assms] by (simp add: after_work_cb_def getnameinfo_cb_def)

section \<open>Properties\<close>

text \<open>What a run returns is what libuv has answered.\<close>

lemma net_answered:
  "connect_run env a h x w = Inr (r, w') \<Longrightarrow> answered env ''uv_tcp_connect'' [Ptr (Some a), Ptr (Some h)] r"
  "shutdown_run env a h w = Inr (r, w') \<Longrightarrow> answered env ''uv_shutdown'' [Ptr (Some a), Ptr (Some h)] r"
  "write_run env a h b w = Inr (r, w') \<Longrightarrow> answered env ''uv_write'' [Ptr (Some a), Ptr (Some h)] r"
  "write_run_send env a h b s w = Inr (r, w') \<Longrightarrow> answered env ''uv_write2'' [Ptr (Some a), Ptr (Some h)] r"
  "udp_send_run env a h b sa w = Inr (r, w') \<Longrightarrow> answered env ''uv_udp_send'' [Ptr (Some a), Ptr (Some h)] r"
  using answered_request [of env _ a "[Ptr (Some h)]"]
  by (auto simp: connect_run_def shutdown_run_def write_run_def write_run_send_def udp_send_run_def rbind_eq_Inr
      elim!: answered_try)

text \<open>
  C7: A run of a connect, write, shutdown or datagram request either fails and then has given
  back every reference it took, or leaves an operation pending that owns exactly the references
  the completion handler gives back: one to the request, one to each handle and one to the
  buffer, with the handle and the buffer entered into the request. What it returns is what libuv has
  answered to the call on the request and the handle, so that it fails only when libuv refuses.
\<close>

theorem net_requests_start:
  assumes "client_ok K env" "records_handles env" "records_send_handle env" "winv E w"
    "refers w (RequestO a)" "refers w (HandleO h)" "refers w (HandleO s)" "refers w (BufferO b)"
    "init_storage_from sa = Inr (r, peer)"
  shows "let begun = (\<lambda>f F P (r, w'). started E F a P (r, w') \<and> answered env f [Ptr (Some a), Ptr (Some h)] r);
      on_handle = inc (HandleO h) E; on_buffer = inc (BufferO b) (inc (HandleO h) E);
      sent = inc (HandleO s) (inc (BufferO b) (inc (HandleO h) E))
    in ok (begun ''uv_tcp_connect'' on_handle (\<lambda>i. q_handle (r_uv i) = Some h)) (connect_run env a h x w) \<and>
      ok (begun ''uv_shutdown'' on_handle (\<lambda>i. q_handle (r_uv i) = Some h)) (shutdown_run env a h w) \<and>
      ok (begun ''uv_write'' on_buffer (writing h b)) (write_run env a h b w) \<and>
      ok (begun ''uv_write2'' sent (\<lambda>i. writing h b i \<and> q_send_handle (r_uv i) = Some s)) (write_run_send env a h b s w) \<and>
      ok (begun ''uv_udp_send'' on_buffer (\<lambda>i. writing h b i \<and> p_peer (r_props i) = peer)) (udp_send_run env a h b sa w)"
proof -
  have both: "ok (\<lambda>(r, w'). started E F a P (r, w') \<and> answered env f [Ptr (Some a), Ptr (Some h)] r) m"
    if "ok (started E F a P) m" "\<And>r w'. m = Inr (r, w') \<Longrightarrow> answered env f [Ptr (Some a), Ptr (Some h)] r" for F P f m
    using that by (auto simp: ok_iff)
  show ?thesis
    unfolding Let_def
    by (intro conjI both net_answered connect_run_ok [OF client_ok_dest(1) [OF assms(1)] records_handlesD(1) [OF assms(2)] assms(4-6)]
        shutdown_run_ok [OF client_ok_dest(1) [OF assms(1)] records_handlesD(2) [OF assms(2)] assms(4-6)]
        write_run_ok [OF assms(1) records_handlesD(3) [OF assms(2)] assms(4-6,8)]
        write_run_send_ok [OF assms(1,3-6,8,7)] udp_send_run_ok [OF assms(1) records_handlesD(4) [OF assms(2)] assms(4-6,8,9)])
qed

theorem net_requests_start_witness:
  "ok (\<lambda>(r, w'). started (\<lambda>_. 0) (inc (HandleO 0) (\<lambda>_. 0)) 4 (\<lambda>i. q_handle (r_uv i) = Some 0) (r, w'))
      (shutdown_run quiet_env 4 0 request_world) \<and>
    ok (\<lambda>(r, w'). started (\<lambda>_. 0) (inc (HandleO 1) (inc (BufferO 3) (inc (HandleO 0) (\<lambda>_. 0)))) 4
      (\<lambda>i. writing 0 3 i \<and> q_send_handle (r_uv i) = Some 1) (r, w') \<and> r = 0) (write_run_send quiet_env 4 0 3 1 request_world)"
proof -
  define sa where "sa = with_family AF_INET (zeroed 16)"
  have "sa_family sa = AF_INET" "length sa = 16"
    unfolding sa_def by (simp add: with_family_def, simp add: with_family_def family_bytes_def)
  then have sa: "init_storage_from sa =
      Inr (fst (projr (init_storage_from sa)), snd (projr (init_storage_from sa)))"
    by (simp add: init_storage_from_def assign_as_def sizeof_defs)
  have "records_send_handle quiet_env"
    by (simp add: records_send_handle_def quiet_env_def)
  note all = net_requests_start [OF request_world_facts(1) records_handles_quiet this request_world_winv
      request_world_refers(5,1,2,4) sa, unfolded Let_def]
  have "r = 0" if "answered quiet_env f as r" for f as r using that by (simp add: answered_def quiet_env_def)
  then show ?thesis
    by (intro conjI ok_weaken [OF all [THEN conjunct2, THEN conjunct1]]
        ok_weaken [OF all [THEN conjunct2, THEN conjunct2, THEN conjunct2, THEN conjunct1]]) auto
qed

text \<open>
  C8: The completion handlers of the requests on streams and sockets give back every reference
  the pending operation owned, whatever the client's callback does, and touch no instance that
  has been deleted; without a callback a write releases its buffer.
\<close>

theorem net_requests_complete:
  assumes "client_ok K env"
  shows "(pending (inc (HandleO h) E) a (\<lambda>i. q_handle (r_uv i) = Some h) w \<longrightarrow>
      ok (grown K E) (connect_cb env a status w) \<and> ok (grown K E) (shutdown_cb env a status w)) \<and>
    (pending (inc (BufferO b) (inc (HandleO h) E)) a (writing h b) w \<longrightarrow>
      ok (grown K E) (write_cb env a status w) \<and> ok (grown K E) (udp_send_cb env a status w)) \<and>
    (pending (inc (HandleO s) (inc (BufferO b) (inc (HandleO h) E))) a
        (\<lambda>i. writing h b i \<and> q_send_handle (r_uv i) = Some s) w \<longrightarrow>
      ok (grown K E) (write2_cb env a status w))"
  by (intro conjI impI connect_cb_ok shutdown_cb_ok write_cb_ok udp_send_cb_ok write2_cb_ok assms)

text \<open>The state a write leaves the example in.\<close>

definition written_world :: world where
  "written_world = snd (projr (write_run quiet_env 4 0 3 request_world))"

lemma written_pending:
  "pending (inc (BufferO 3) (inc (HandleO 0) (\<lambda>_. 0))) 4 (writing 0 3) written_world"
proof -
  have "ok (started (\<lambda>_. 0) (inc (BufferO 3) (inc (HandleO 0) (\<lambda>_. 0))) 4 (writing 0 3))
    (write_run quiet_env 4 0 3 request_world)"
    by (rule write_run_ok) (rule request_world_facts records_handle_quiet)+
  moreover have "ok (\<lambda>x. fst x = 0) (write_run quiet_env 4 0 3 request_world)"
    by (simp add: write_run_def request_try_def handle_ref_def buffer_ref_def request_ref_def
        buffer_count_def props_mod_def request_set_status_def uv_on_request_def request_world_def
        handle_create_def buffer_create_def request_create_def world_init_def ref_count_inc_def
        handle_init_def buffer_init_def request_init_def quiet_env_def handle_at_def buffer_at_def
        request_at_def request_mod_def Let_def store_simps)
  ultimately show ?thesis
    by (auto simp: ok_iff started_def written_world_def)
qed

theorem net_requests_complete_witness:
  "ok (grown {} (\<lambda>_. 0)) (write_cb quiet_env 4 0 written_world) \<and>
   ok (grown {} (\<lambda>_. 0)) (udp_send_cb quiet_env 4 0 written_world)"
  using net_requests_complete [OF client_ok_quiet] written_pending by blast

text \<open>
  C23: A work request runs its task once: after a successful run the task is stored and its result
  is not ready; the handler on the thread of the pool calls the task, once, and in the state this leaves makes the
  result ready; and the handler on the loop's thread records the status, calls the client with a copy of the
  request, if there is a callback, and then releases the reference of the operation. No handler ends in an exception.
\<close>

theorem work_life:
  assumes "client_ok K env" "winv E w" "refers w (RequestO a)"
  shows "ok (started E E a (\<lambda>i. p_task (r_props i) = Some c \<and> p_future (r_props i) = Some False))
      (work_run env a l c w) \<and>
    (pending G a (\<lambda>i. p_task (r_props i) = Some c \<and> p_future (r_props i) = Some False) u \<longrightarrow>
      ok (\<lambda>u'. (\<exists>F. above K G F \<and> pending F a (\<lambda>i. p_future (r_props i) = Some True) u') \<and>
          (\<exists>x j. usr env c [] [] u = Inr x \<and> requests x a = Some j \<and>
            u' = request_put a (j\<lparr>r_props := (r_props j)\<lparr>p_future := Some True\<rparr>\<rparr>) x))
        (work_cb env a u)) \<and>
    (pending G a (\<lambda>i. p_future (r_props i) = Some True) u \<and> requests u a = Some k \<longrightarrow>
      ok (\<lambda>u'. grown K G u' \<and> gives_request env (r_request_cb k) a (k\<lparr>r_uv_error := status\<rparr>) (request_unref env a) u u')
        (after_work_cb env a status u))"
proof (intro conjI impI work_run_ok [OF assms(2,3)])
  assume p: "pending G a (\<lambda>i. p_task (r_props i) = Some c \<and> p_future (r_props i) = Some False) u"
  then obtain i where "requests u a = Some i" "p_task (r_props i) = Some c" by (auto simp: pending_def)
  from work_cb_course [OF this, of env] work_cb_ok [OF assms(1) p]
  show "ok (\<lambda>u'. (\<exists>F. above K G F \<and> pending F a (\<lambda>i. p_future (r_props i) = Some True) u') \<and>
      (\<exists>x j. usr env c [] [] u = Inr x \<and> requests x a = Some j \<and>
        u' = request_put a (j\<lparr>r_props := (r_props j)\<lparr>p_future := Some True\<rparr>\<rparr>) x)) (work_cb env a u)"
    by (auto simp: ok_iff)
next
  assume p: "pending G a (\<lambda>i. p_future (r_props i) = Some True) u \<and> requests u a = Some k"
  then have "winv (inc (RequestO a) G) u" "requests u a = Some k" by (simp_all add: pending_def)
  from after_work_cb_course [OF this, of env status] after_work_cb_ok [OF assms(1) conjunct1 [OF p], of status]
  show "ok (\<lambda>u'. grown K G u' \<and>
      gives_request env (r_request_cb k) a (k\<lparr>r_uv_error := status\<rparr>) (request_unref env a) u u') (after_work_cb env a status u)"
    by (auto simp: ok_iff)
qed

text \<open>The task of the example, as the run has left it.\<close>

definition queued_world :: world where
  "queued_world = snd (projr (work_run quiet_env 4 0 9 request_world))"

theorem work_life_witness:
  "ok (\<lambda>u'. \<exists>x j. usr quiet_env 9 [] [] queued_world = Inr x \<and> requests x 4 = Some j \<and>
      u' = request_put 4 (j\<lparr>r_props := (r_props j)\<lparr>p_future := Some True\<rparr>\<rparr>) x) (work_cb quiet_env 4 queued_world)"
proof -
  note life = work_life [where K = "{}" and c = 9 and l = 0, OF request_world_facts(1,2,7)]
  have "ok (\<lambda>x. fst x = 0) (work_run quiet_env 4 0 9 request_world)"
    by (simp add: work_run_def request_try_def request_ref_def props_mod_def request_set_status_def uv_on_request_def
        request_world_def handle_create_def buffer_create_def request_create_def world_init_def ref_count_inc_def
        request_init_def quiet_env_def request_at_def request_mod_def Let_def store_simps)
  with conjunct1 [OF life] have "pending (\<lambda>_. 0) 4 (\<lambda>i. p_task (r_props i) = Some 9 \<and> p_future (r_props i) = Some False) queued_world"
    by (auto simp: ok_iff started_def queued_world_def)
  with conjunct1 [OF conjunct2 [OF life, of "\<lambda>_. 0" queued_world]] show ?thesis
    by (auto simp: ok_iff)
qed

text \<open>
  C24: A name-resolution request starts and completes without leaking or losing a reference, with a
  callback and without one, and a new \<open>getaddrinfo\<close> request has no address list yet and will free
  the one it gets.
\<close>

theorem name_requests_ok:
  assumes "client_ok K env" "winv E w" "refers w (RequestO a)" "requests w a = Some i"
  shows "ok (if r_request_cb i = None then \<lambda>(r, w'). winv E w' else started E E a (\<lambda>_. True))
      (getaddrinfo_run env a l hostname service hints w) \<and>
    ok (if r_request_cb i = None then \<lambda>(r, w'). winv E w' else started E E a (\<lambda>_. True))
      (getnameinfo_run env a l sockaddr flags w) \<and>
    ok (\<lambda>(n, w'). winv (inc (RequestO n) E) w' \<and> vars w' = vars w \<and>
      (\<exists>j. requests w' n = Some j \<and> r_refs j = 1 \<and> p_cleanup (r_props j) = Addrinfo_cleanup \<and>
         q_addrinfo (r_uv j) = None)) (getaddrinfo_ctor w) \<and>
    (pending E a P u \<longrightarrow> ok (grown K E) (getaddrinfo_cb env a status u) \<and>
      ok (grown K E) (getnameinfo_cb env a status u))"
  using getaddrinfo_run_ok [OF assms(2-4)] getnameinfo_run_ok [OF assms(2-4)]
    getaddrinfo_ctor_ok [OF assms(2)] getaddrinfo_cb_ok [OF assms(1)] getnameinfo_cb_ok [OF assms(1)]
  by (intro conjI) blast+

theorem name_requests_ok_witness:
  "ok (started (\<lambda>_. 0) (\<lambda>_. 0) 4 (\<lambda>_. True))
     (getaddrinfo_run quiet_env 4 0 ''localhost'' ''80'' (Num 0) request_world)"
  using name_requests_ok [OF request_world_facts(1,2,7) request_world_eq(2)] by simp

text \<open>
  C40: A \<open>getaddrinfo\<close> request that is run again frees the address list of its first run and keeps
  pointing to it: when libuv refuses the second run without storing a new list, the destructor of
  the request frees the same list again.
\<close>

theorem getaddrinfo_frees_twice:
  assumes "requests w a = Some i" "r_refs i = 1" "r_request_cb i = None" "r_destroy_cb i = None"
    "p_cleanup (r_props i) = Addrinfo_cleanup" "q_addrinfo (r_uv i) = Some list"
    and "\<And>tr e s. uv_req_eff env tr e s = s"
  shows "ok (\<lambda>w'. requests w' a = None \<and>
      2 \<le> count_list (trace w') (Call ''uv_freeaddrinfo'' [Ptr (Some list)]))
    (rbind (getaddrinfo_run env a l hostname service hints w) (\<lambda>(r, w). request_unref env a w))"
  using assms
  by (simp add: getaddrinfo_run_def request_status_call_def request_return_status_def
      request_set_status_def uv_on_request_def uv_def request_unref_def request_destroy_def
      properties_dtor_def call_req_destroy_cb_def request_remove_def ref_count_dec_def Let_def
      store_simps)

definition resolved_world :: world where
  "resolved_world = world_init\<lparr>requests := [0 \<mapsto> request_init\<lparr>
     r_uv := uv_req_init\<lparr>q_type := UV_GETADDRINFO, q_addrinfo := Some 100\<rparr>,
     r_props := req_properties_init\<lparr>p_cleanup := Addrinfo_cleanup\<rparr>\<rparr>]\<rparr>"

theorem getaddrinfo_frees_twice_witness:
  "ok (\<lambda>w'. requests w' 0 = None \<and>
      2 \<le> count_list (trace w') (Call ''uv_freeaddrinfo'' [Ptr (Some 100)]))
    (rbind (getaddrinfo_run (quiet_env\<lparr>uv_ret := \<lambda>_ _. UV_EINVAL, uv_req_eff := \<lambda>_ _ s. s\<rparr>) 0 0
       ''localhost'' ''80'' (Num 0) resolved_world)
     (\<lambda>(r, w). request_unref (quiet_env\<lparr>uv_ret := \<lambda>_ _. UV_EINVAL, uv_req_eff := \<lambda>_ _ s. s\<rparr>) 0 w))"
  by (rule getaddrinfo_frees_twice)
    (simp add: resolved_world_def, simp_all add: request_init_def)

end
