(* ===== verification/Uvcc_Output.thy ===== *)
theory Uvcc_Output
  imports Uvcc_Fs_Proofs Uvcc_Net_Request
begin

text \<open>
  \<^verbatim>\<open>request-io.hpp\<close>: the output request, which turns into the write, datagram or file request its
  I/O endpoint calls for when it is run. The three classes share the layout of the instance, so
  that the member functions of the other classes are called on the same instance.
\<close>

section \<open>The request\<close>

text \<open>
  The properties are a zeroed union: \<open>uv_req\<close> of \<open>fs::properties\<close>, at its beginning, is not set up as the
  constructors of the file-system requests do. A run as a write or as a datagram puts the pointer to the
  buffer there.
\<close>

definition output_ctor :: "world \<Rightarrow> (addr \<times> world) res" where
  "output_ctor w =
     rbind (request_ctor UV_REQ w) (\<lambda>(a, w).
     rbind (props_mod a (\<lambda>p. p\<lparr>p_cleanup := Output_cleanup None\<rparr>) w) (\<lambda>w. Inr (a, w)))"

definition output_handle :: "var \<Rightarrow> addr \<Rightarrow> world \<Rightarrow> world res" where
  "output_handle v a w =
     rbind (request_at a w) (\<lambda>i.
     case q_type (r_uv i) of
         UV_WRITE \<Rightarrow> request_handle v a w
       | UV_UDP_SEND \<Rightarrow> request_handle v a w
       | UV_FS \<Rightarrow> fs_handle v a w
       | _ \<Rightarrow> rbind (deref None) (\<lambda>ret. handle_set_status ret UV_EBADF w))"

definition output_offset :: "addr \<Rightarrow> world \<Rightarrow> int res" where
  "output_offset a w = rbind (request_at a w) (\<lambda>i. Inr (p_io_offset (r_props i)))"

definition output_as :: "uv_req_type \<Rightarrow> addr \<Rightarrow> world \<Rightarrow> world res" where
  "output_as t a w =
     request_mod a (\<lambda>i. i\<lparr>r_uv := (r_uv i)\<lparr>q_type := t,
       q_fs_type := if t = UV_FS then UV_FS_WRITE else q_fs_type (r_uv i)\<rparr>\<rparr>) w"

definition output_run ::
  "env \<Rightarrow> addr \<Rightarrow> addr \<Rightarrow> addr \<Rightarrow> int \<Rightarrow> memory option \<Rightarrow> world \<Rightarrow> (int \<times> world) res" where
  "output_run env a h b offset info w =
     rbind (handle_type h w) (\<lambda>t.
     if t = UV_NAMED_PIPE \<or> t = UV_TCP \<or> t = UV_TTY then
       rbind (output_as UV_WRITE a w) (\<lambda>w.
       rbind (props_mod a (\<lambda>p. p\<lparr>p_io_offset := offset, p_cleanup := Output_cleanup (Some b)\<rparr>) w) (\<lambda>w.
       write_run env a h b w))
     else if t = UV_UDP then
       rbind (output_as UV_UDP_SEND a w) (\<lambda>w.
       rbind (props_mod a (\<lambda>p. p\<lparr>p_io_offset := offset\<rparr>) w) (\<lambda>w.
       case info of
           Some peer \<Rightarrow>
             rbind (props_mod a (\<lambda>p. p\<lparr>p_cleanup := Output_cleanup (Some b)\<rparr>) w) (\<lambda>w.
             udp_send_run env a h b peer w)
         | None \<Rightarrow> request_return_status a (UV_EINVAL, w)))
     else if t = UV_FILE then
       rbind (output_as UV_FS a w) (\<lambda>w.
       rbind (props_mod a (\<lambda>p. p\<lparr>p_io_offset := offset\<rparr>) w) (\<lambda>w.
       fs_write_run env a h b offset w))
     else request_return_status a (UV_EBADF, w))"

definition output_try ::
  "env \<Rightarrow> addr \<Rightarrow> addr \<Rightarrow> addr \<Rightarrow> int \<Rightarrow> memory option \<Rightarrow> world \<Rightarrow> (int \<times> world) res" where
  "output_try env a h b offset info w =
     rbind (handle_type h w) (\<lambda>t.
     if t = UV_NAMED_PIPE \<or> t = UV_TCP \<or> t = UV_TTY then
       rbind (output_as UV_WRITE a w) (\<lambda>w. write_try env a h b w)
     else if t = UV_UDP then
       rbind (output_as UV_UDP_SEND a w) (\<lambda>w.
       case info of
           Some peer \<Rightarrow> udp_send_try env a h b peer w
         | None \<Rightarrow> request_return_status a (UV_EINVAL, w))
     else if t = UV_FILE then
       rbind (output_as UV_FS a w) (\<lambda>w. fs_write_try env a h b offset w)
     else request_return_status a (UV_EBADF, w))"

section \<open>Correctness\<close>

text \<open>Turning the request into one of another class changes no count.\<close>

lemma output_prepare:
  assumes "winv E w" "requests w a = Some i"
    "\<And>w' j. winv E w' \<Longrightarrow> vars w' = vars w \<Longrightarrow> handles w' = handles w \<Longrightarrow> buffers w' = buffers w \<Longrightarrow>
       requests w' a = Some j \<Longrightarrow> r_request_cb j = r_request_cb i \<Longrightarrow> q_type (r_uv j) = t \<Longrightarrow>
       r_props j = f (r_props i) \<Longrightarrow> ok Q (k w')"
  shows "ok Q (rbind (output_as t a w) (\<lambda>w. rbind (props_mod a f w) k))"
  unfolding output_as_def
  by (rule request_mod_step [OF assms(1,2)], simp, rule set_props, assumption, assumption,
      rule assms(3), assumption, simp, simp, simp, assumption, simp_all)

lemma set_status_only:
  assumes "winv E w" "requests w a = Some i"
  shows "ok (\<lambda>(r', w'). r' = r \<and> returned E a (r', w') \<and> trace w' = trace w) (request_return_status a (r, w))"
  using assms winv_request_put [OF assms, of "i\<lparr>r_uv_error := r\<rparr>"]
  by (simp add: request_return_status_def request_set_status_def returned_def store_simps)

abbreviation is_stream_type :: "uv_handle_type \<Rightarrow> bool" where
  "is_stream_type t \<equiv> t = UV_NAMED_PIPE \<or> t = UV_TCP \<or> t = UV_TTY"

text \<open>
  What a run has to establish, by the type of the endpoint: the operation is started as a request of
  its class does, and the result is what libuv has answered; or it is refused with an error.
\<close>

definition output_post ::
  "env \<Rightarrow> (obj \<Rightarrow> nat) \<Rightarrow> addr \<Rightarrow> addr \<Rightarrow> addr \<Rightarrow> uv_handle_type \<Rightarrow> memory option \<Rightarrow> int \<times> world \<Rightarrow> bool" where
  "output_post env E a h b t info = (\<lambda>(r, w). let F = inc (BufferO b) (inc (HandleO h) E) in
     if is_stream_type t then
       started E F a (writing h b) (r, w) \<and> answered env ''uv_write'' [Ptr (Some a), Ptr (Some h)] r
     else if t = UV_UDP \<and> info \<noteq> None then
       started E F a (writing h b) (r, w) \<and> answered env ''uv_udp_send'' [Ptr (Some a), Ptr (Some h)] r
     else if t = UV_FILE then
       started E F a (transferring h b) (r, w) \<and> answered env ''uv_fs_write'' [Ptr (Some a)] r
     else r = (if t = UV_UDP then UV_EINVAL else UV_EBADF) \<and> returned E a (r, w))"

lemma started_weaken:
  assumes "ok (started E F a P) r" "\<And>i. P i \<Longrightarrow> Q i"
  shows "ok (started E F a Q) r"
  by (rule ok_weaken [OF assms(1)]) (auto simp: started_def pending_def intro: assms(2) split: if_splits)

text \<open>
  C13: An output request with a callback does on each kind of endpoint what the request of that
  kind does: on a pipe, a TCP stream or a terminal it starts a write, on a datagram socket with a
  peer a datagram, on a file a file write; it calls the libuv function of that request and returns what
  this has answered; and it either fails and leaves every reference, or
  owns those its completion handler gives back. Without a peer, and on any other
  handle, it is refused with the proper error as its status.
\<close>

theorem output_run_ok:
  assumes "client_ok K env" "records_handles env" "winv E w" "refers w (RequestO a)"
    "refers w (HandleO h)" "refers w (BufferO b)" "requests w a = Some i" "r_request_cb i = Some c"
    "handles w h = Some hi"
    and peer: "\<And>sa. info = Some sa \<Longrightarrow> \<exists>r ss. init_storage_from sa = Inr (r, ss)"
  shows "ok (output_post env E a h b (iface_type hi) info) (output_run env a h b offset info w)"
proof -
  let ?F = "inc (BufferO b) (inc (HandleO h) E)"
  let ?head = "\<lambda>p. p\<lparr>p_cleanup := Output_cleanup (Some b)\<rparr>"
  have other: "ok (\<lambda>(r', w'). r' = r \<and> returned E a (r', w')) (request_return_status a (r, w'))"
    if "winv E w'" "requests w' a = Some j" for r w' j
    using set_status_only [OF that, of r] by (rule ok_weaken) auto
  have both: "ok (\<lambda>(r, w'). P (r, w') \<and> A r) m" if "ok P m" "\<And>r w'. m = Inr (r, w') \<Longrightarrow> A r"
    for P A and m :: "(int \<times> world) res"
    using that by (auto simp: ok_iff)
  have refs: "refers w' (RequestO a)" "refers w' (HandleO h)" "refers w' (BufferO b)" if "vars w' = vars w" for w'
    using assms(4-6) that by (simp_all add: refers_def)
  consider "is_stream_type (iface_type hi)" | "iface_type hi = UV_UDP" | "iface_type hi = UV_FILE"
    | "\<not> is_stream_type (iface_type hi)" "iface_type hi \<noteq> UV_UDP" "iface_type hi \<noteq> UV_FILE" by blast
  then show ?thesis
  proof cases
    case 1
    have "ok (\<lambda>(r, w'). started E ?F a (writing h b) (r, w') \<and> answered env ''uv_write'' [Ptr (Some a), Ptr (Some h)] r)
      (rbind (output_as UV_WRITE a w) (\<lambda>w.
        rbind (props_mod a (\<lambda>p. p\<lparr>p_io_offset := offset, p_cleanup := Output_cleanup (Some b)\<rparr>) w) (write_run env a h b)))"
      by (rule output_prepare [OF assms(3,7)])
        (intro both net_answered write_run_ok [OF assms(1) records_handlesD(3) [OF assms(2)]] refs)
    with 1 assms(9) show ?thesis by (auto simp: output_run_def handle_type_def output_post_def Let_def)
  next
    case 2
    have "ok (output_post env E a h b UV_UDP info) (rbind (output_as UV_UDP_SEND a w) (\<lambda>w.
        rbind (props_mod a (\<lambda>p. p\<lparr>p_io_offset := offset\<rparr>) w) (\<lambda>w.
        case info of Some peer \<Rightarrow> rbind (props_mod a ?head w) (\<lambda>w. udp_send_run env a h b peer w)
          | None \<Rightarrow> request_return_status a (UV_EINVAL, w))))"
    proof (rule output_prepare [OF assms(3,7)])
      fix w1 j assume w1: "winv E w1" "vars w1 = vars w" "requests w1 a = Some j"
      show "ok (output_post env E a h b UV_UDP info)
        (case info of Some peer \<Rightarrow> rbind (props_mod a ?head w1) (\<lambda>w. udp_send_run env a h b peer w)
          | None \<Rightarrow> request_return_status a (UV_EINVAL, w1))"
      proof (cases info)
        case None
        with ok_weaken [OF other [OF w1(1,3), of UV_EINVAL], of "output_post env E a h b UV_UDP None"] show ?thesis
          by (simp add: output_post_def Let_def)
      next
        case (Some sa)
        from peer [OF Some] obtain r ss where sa: "init_storage_from sa = Inr (r, ss)" by blast
        have "ok (\<lambda>(r, w'). started E ?F a (writing h b) (r, w') \<and>
            answered env ''uv_udp_send'' [Ptr (Some a), Ptr (Some h)] r) (udp_send_run env a h b sa w2)"
          if w2: "winv E w2" "vars w2 = vars w1" for w2
          by (intro both net_answered started_weaken [OF udp_send_run_ok [OF assms(1) records_handlesD(4) [OF assms(2)] w2(1) refs sa]])
            (simp_all add: w1 w2)
        then have "ok (\<lambda>(r, w'). started E ?F a (writing h b) (r, w') \<and>
            answered env ''uv_udp_send'' [Ptr (Some a), Ptr (Some h)] r)
          (rbind (props_mod a ?head w1) (\<lambda>w. udp_send_run env a h b sa w))"
          by (intro set_props [OF w1(1,3)])
        with Some show ?thesis by (simp add: output_post_def Let_def)
      qed
    qed
    with 2 assms(9) show ?thesis by (simp add: output_run_def handle_type_def)
  next
    case 3
    have "ok (\<lambda>(r, w'). started E ?F a (transferring h b) (r, w') \<and> answered env ''uv_fs_write'' [Ptr (Some a)] r)
      (rbind (output_as UV_FS a w) (\<lambda>w.
        rbind (props_mod a (\<lambda>p. p\<lparr>p_io_offset := offset\<rparr>) w) (fs_write_run env a h b offset)))"
    proof (rule output_prepare [OF assms(3,7)])
      fix w1 j assume w1: "winv E w1" "vars w1 = vars w" "requests w1 a = Some j" "r_request_cb j = r_request_cb i"
      from fs_write_run_ok [OF assms(1) w1(1) refs [OF w1(2)] w1(3), of offset] w1(4) assms(8)
      have "ok (started E ?F a (transferring h b)) (fs_write_run env a h b offset w1)" by simp
      then show "ok (\<lambda>(r, w'). started E ?F a (transferring h b) (r, w') \<and> answered env ''uv_fs_write'' [Ptr (Some a)] r)
        (fs_write_run env a h b offset w1)"
        by (intro both transfers_answered)
    qed
    with 3 assms(9) show ?thesis by (simp add: output_run_def handle_type_def output_post_def Let_def)
  next
    case 4
    with other [OF assms(3,7), of UV_EBADF] assms(9) show ?thesis
      by (simp add: output_run_def handle_type_def output_post_def Let_def)
  qed
qed

theorem output_run_ok_witness:
  "ok (output_post quiet_env (\<lambda>_. 0) 4 2 3 UV_FILE None) (output_run quiet_env 4 2 3 0 None request_world) \<and>
   ok (output_post quiet_env (\<lambda>_. 0) 4 0 3 UV_UNKNOWN_HANDLE None) (output_run quiet_env 4 0 3 0 None request_world)"
proof -
  have types: "iface_type (handle_init If_file) = UV_FILE" "iface_type (handle_init If_stream) = UV_UNKNOWN_HANDLE"
    by (simp_all add: iface_type_def handle_init_def uv_struct_init_def)
  note run = output_run_ok [where info = None and c = 7 and offset = 0, OF client_ok_quiet records_handles_quiet
      request_world_winv request_world_refers(5) _ request_world_refers(4) request_world_eq(2)]
  from run [OF request_world_refers(3) _ request_world_file] run [OF request_world_refers(1) _ request_world_stream]
  show ?thesis by (simp add: types)
qed

section \<open>Destroying an output request\<close>

text \<open>A file with the descriptor 3, a stream, an output request without a callback, and a buffer.\<close>

definition output_world :: world where
  "output_world = sync_world\<lparr>handles := (handles sync_world)(6 \<mapsto> (handle_init If_stream)\<lparr>h_uv :=
       uv_struct_init\<lparr>u_type := UV_TCP\<rparr>\<rparr>),
     buffers := [4 \<mapsto> buffer_init [8]],
     requests := [2 \<mapsto> request_init\<lparr>r_props := req_properties_init\<lparr>p_cleanup := Output_cleanup None\<rparr>\<rparr>],
     vars := (vars sync_world)(5 \<mapsto> Some (BufferO 4), 7 \<mapsto> Some (HandleO 6)), nxt := 8\<rparr>"

text \<open>
  The file write an output request performs is never cleaned up: after its last call of libuv
  is \<open>uv_fs_write()\<close> the request can be destroyed without \<open>uv_fs_req_cleanup()\<close>, which the
  destructor of an \<open>fs::write\<close> request would call.
\<close>

theorem output_file_not_cleaned:
  "ok (\<lambda>w. requests w 2 = None \<and> last (trace w) =
       Call ''uv_fs_write'' [Ptr (Some 2), Ptr None, Num 3, Ptr (Some 4), Num 1, Num 0, Callback False])
   (rbind (output_run quiet_env 2 0 4 0 None output_world) (\<lambda>(r, w). request_var_dtor quiet_env 3 w))"
  by code_simp

text \<open>
  An output request that has written to a stream and then to a file calls \<open>uv_fs_req_cleanup()\<close> on the
  buffer of the first run, which it takes for the request of the second, when it is destroyed.
\<close>

theorem output_cleans_buffer:
  "ok (\<lambda>w. requests w 2 = None \<and> last (trace w) = Call ''uv_fs_req_cleanup'' [Ptr (Some 4)])
   (rbind (output_run quiet_env 2 6 4 0 None output_world) (\<lambda>(r, w).
    rbind (write_cb quiet_env 2 0 w) (\<lambda>w.
    rbind (output_run quiet_env 2 0 4 0 None w) (\<lambda>(r, w). request_var_dtor quiet_env 3 w))))"
  by code_simp

end
