(* ===== verification/Uvcc_Storage.thy ===== *)
theory Uvcc_Storage
  imports Uvcc_Utility "HOL-Library.Multiset"
begin

text \<open>
  \<^verbatim>\<open>utility.hpp\<close>: the type lists, the functions on argument packs, and the storages that hold a
  value of any type together with the function that destroys it.
\<close>

section \<open>Type lists\<close>

text \<open>
  A type is a number and a parameter pack a list of them; the templates are the functions below,
  a missing specialisation being \<open>None\<close>. \<open>conv\<close> is \<open>std::is_convertible\<close>.
\<close>

type_synonym ty = nat

fun is_one_of :: "ty \<Rightarrow> ty list \<Rightarrow> nat" where
  "is_one_of t [] = 0"
| "is_one_of t (u # us) = (if t = u then 1 else (let v = is_one_of t us in if v \<noteq> 0 then v + 1 else 0))"

fun is_convertible_to_one_of :: "(ty \<Rightarrow> ty \<Rightarrow> bool) \<Rightarrow> ty \<Rightarrow> ty list \<Rightarrow> nat" where
  "is_convertible_to_one_of conv t [] = 0"
| "is_convertible_to_one_of conv t (u # us) =
     (let v = is_convertible_to_one_of conv t us in
      if conv t u then 1 else if v \<noteq> 0 then v + 1 else 0)"

fun type_at :: "nat \<Rightarrow> ty list \<Rightarrow> ty option" where
  "type_at 0 ts = None"
| "type_at (Suc n) [] = None"
| "type_at (Suc 0) (t # ts) = Some t"
| "type_at (Suc (Suc n)) (t # ts) = type_at (Suc n) ts"

lemma type_at_nth: "type_at k ts = (if 0 < k \<and> k \<le> length ts then Some (ts ! (k - 1)) else None)"
  by (induction k ts rule: type_at.induct) auto

lemma is_one_of_convertible: "is_one_of t ts = is_convertible_to_one_of (=) t ts"
  by (induction ts) (simp_all add: Let_def)

text \<open>The index found is the first one of a type that fits; 0 means that there is none.\<close>

lemma convertible_index:
  "let k = is_convertible_to_one_of conv t ts in
   (k = 0 \<longleftrightarrow> (\<forall>u \<in> set ts. \<not> conv t u)) \<and>
   (k \<noteq> 0 \<longrightarrow> k \<le> length ts \<and> conv t (ts ! (k - 1)) \<and> (\<forall>j < k - 1. \<not> conv t (ts ! j)))"
proof (induction ts)
  case (Cons u us)
  let ?v = "is_convertible_to_one_of conv t us"
  show ?case
  proof (cases "conv t u \<or> ?v = 0")
    case True
    with Cons show ?thesis by (auto simp: Let_def)
  next
    case False
    with Cons have "?v \<le> length us" "conv t (us ! (?v - 1))" "\<forall>j < ?v - 1. \<not> conv t (us ! j)" "?v \<noteq> 0"
      by (auto simp: Let_def)
    with False show ?thesis
      by (auto simp: Let_def nth_Cons split: nat.split)
  qed
qed simp

section \<open>Functions on argument packs\<close>

text \<open>The packs are not empty: the first argument is given apart. The recursive call is written twice.\<close>

fun greatest :: "int \<Rightarrow> int list \<Rightarrow> int" where
  "greatest v [] = v"
| "greatest v (x # xs) = (if v < greatest x xs then greatest x xs else v)"

fun lowest :: "int \<Rightarrow> int list \<Rightarrow> int" where
  "lowest v [] = v"
| "lowest v (x # xs) = (if lowest x xs < v then lowest x xs else v)"

fun pack_sum :: "int \<Rightarrow> int list \<Rightarrow> int" where
  "pack_sum v [] = v"
| "pack_sum v (x # xs) = v + pack_sum x xs"

lemma greatest_Max: "greatest v xs = Max (set (v # xs))"
proof (induction v xs rule: greatest.induct)
  case (2 v x xs)
  have "Max (insert v (set (x # xs))) = max v (Max (set (x # xs)))" by (rule Max_insert) auto
  with 2 show ?case by (simp add: max_def del: Max_less_iff Max_insert)
qed simp

lemma lowest_Min: "lowest v xs = Min (set (v # xs))"
proof (induction v xs rule: lowest.induct)
  case (2 v x xs)
  have "Min (insert v (set (x # xs))) = min v (Min (set (x # xs)))" by (rule Min_insert) auto
  with 2 show ?case by (metis list.simps(15) lowest.simps(2) linorder_not_less min_def)
qed simp

lemma pack_sum_list: "pack_sum v xs = sum_list (v # xs)"
  by (induction v xs rule: pack_sum.induct) auto

text \<open>
  The templates on type lists and argument packs compute what they stand for:
  \<open>is_convertible_to_one_of\<close> is 0 when the type can be converted to none of the list and
  otherwise the index, counted from 1, of the first one it can be converted to;
  \<open>is_one_of\<close> is the same for the identity, so that \<open>type_at\<close> finds a type of the list
  at the index \<open>is_one_of\<close> gives; and the functions on packs compute the maximum, minimum and sum.
\<close>

theorem type_lists_ok:
  "(let k = is_convertible_to_one_of conv t ts in
      (k = 0) = (\<forall>u \<in> set ts. \<not> conv t u) \<and>
      (k \<noteq> 0 \<longrightarrow> (\<exists>u. type_at k ts = Some u \<and> conv t u \<and> (\<forall>j < k. \<forall>u'. type_at j ts = Some u' \<longrightarrow> \<not> conv t u')))) \<and>
   (t \<in> set ts \<longrightarrow> type_at (is_one_of t ts) ts = Some t) \<and> (t \<notin> set ts \<longrightarrow> is_one_of t ts = 0) \<and>
   greatest v xs = Max (set (v # xs)) \<and> lowest v xs = Min (set (v # xs)) \<and> pack_sum v xs = sum_list (v # xs)"
proof -
  have first: "\<not> conv t u'" if "\<forall>i < k - 1. \<not> conv t (ts ! i)" "j < k" "type_at j ts = Some u'" for k j u'
    using that by (auto simp: type_at_nth split: if_splits)
  show ?thesis
    using convertible_index [of conv t ts] convertible_index [of "(=)" t ts]
    by (auto simp: Let_def is_one_of_convertible greatest_Max lowest_Min pack_sum_list intro: first)
      (auto simp: type_at_nth dest: first)
qed

text \<open>\<open>int\<close> (0) and \<open>char\<close> (1) convert to \<open>double\<close> (2), nothing converts to the class 3.\<close>

theorem type_lists_ok_witness:
  "type_at (is_convertible_to_one_of (\<lambda>t u. t \<le> u \<and> u < 3) 1 [0, 3, 2]) [0, 3, 2] = Some 2 \<and>
   type_at (is_one_of 3 [0, 3, 2]) [0, 3, 2] = Some 3 \<and> greatest 4 [9, 2] = 9"
  using type_lists_ok [of "\<lambda>t u. t \<le> u \<and> u < 3" 1 "[0, 3, 2]" 4 "[9, 2]"]
    type_lists_ok [of "\<lambda>t u. t \<le> u \<and> u < 3" 3 "[0, 3, 2]" 4 "[9, 2]"]
  by simp

section \<open>Storages\<close>

text \<open>
  A storage keeps the tag of the type of its value and a pointer to the destructor of that type;
  both are null while it holds nothing. The bytes are the object living in them, if there is one.
  \<open>lives\<close> records the lives that begin and end in the storage; the code does not have it.
  Constructing an object over a living one is possible and would show in that record.
\<close>

datatype 'v life = Built ty 'v | Destructed ty 'v

record 'v storage =
  type_tag :: "ty option"
  Destroy :: "ty option"
  bytes :: "(ty \<times> 'v) option"
  lives :: "'v life list"

definition storage_init :: "'v storage" where
  "storage_init = \<lparr>type_tag = None, Destroy = None, bytes = None, lives = []\<rparr>"

text \<open>
  An argument is a value outside the storage or a reference of some type into the storage itself.
  A constructor that throws leaves an exception, not a fault: the storage goes on to exist.
\<close>

datatype 'v source = Outside 'v | Inside ty

datatype completion = Normal | Exception

fun source_value :: "'v storage \<Rightarrow> 'v source \<Rightarrow> 'v res" where
  "source_value s (Outside v) = Inr v"
| "source_value s (Inside t) = (case bytes s of
      None \<Rightarrow> Inl Use_after_free
    | Some (u, v) \<Rightarrow> if u = t then Inr v else Inl Bad_cast)"

primrec source_values :: "'v storage \<Rightarrow> 'v source list \<Rightarrow> 'v list res" where
  "source_values s [] = Inr []"
| "source_values s (x # xs) =
     rbind (source_value s x) (\<lambda>v. rbind (source_values s xs) (\<lambda>vs. Inr (v # vs)))"

text \<open>\<open>new (&storage) type{ args... }\<close> followed by the two assignments; \<open>mk\<close> is the constructor.\<close>

type_synonym 'v maker = "ty \<Rightarrow> 'v list \<Rightarrow> 'v option"

definition storage_construct ::
  "'v maker \<Rightarrow> ty \<Rightarrow> 'v source list \<Rightarrow> 'v storage \<Rightarrow> (completion \<times> 'v storage) res" where
  "storage_construct mk t args s =
     rbind (source_values s args) (\<lambda>vs.
     case mk t vs of
         None \<Rightarrow> Inr (Exception, s)
       | Some v \<Rightarrow> Inr (Normal, s\<lparr>bytes := Some (t, v), lives := lives s @ [Built t v],
           Destroy := Some t, type_tag := Some t\<rparr>))"

definition storage_destroy :: "'v storage \<Rightarrow> 'v storage res" where
  "storage_destroy s =
     rbind (case Destroy s of
         None \<Rightarrow> Inr s
       | Some t \<Rightarrow> (case bytes s of
             None \<Rightarrow> Inl Use_after_free
           | Some (u, v) \<Rightarrow> if u = t then Inr (s\<lparr>bytes := None, lives := lives s @ [Destructed t v]\<rparr>)
               else Inl Bad_cast)) (\<lambda>s.
     Inr (s\<lparr>Destroy := None, type_tag := None\<rparr>))"

definition storage_ctor :: "'v maker \<Rightarrow> ty \<Rightarrow> 'v \<Rightarrow> (completion \<times> 'v storage) res" where
  "storage_ctor mk t v = storage_construct mk t [Outside v] storage_init"

definition storage_reset :: "'v maker \<Rightarrow> ty \<Rightarrow> 'v source list \<Rightarrow> 'v storage \<Rightarrow> (completion \<times> 'v storage) res" where
  "storage_reset mk t args s = rbind (storage_destroy s) (storage_construct mk t args)"

definition storage_assign :: "'v maker \<Rightarrow> ty \<Rightarrow> 'v source \<Rightarrow> 'v storage \<Rightarrow> (completion \<times> 'v storage) res" where
  "storage_assign mk t src s =
     (if (case src of Inside u \<Rightarrow> u = t | Outside v \<Rightarrow> False) then Inr (Normal, s)
      else rbind (storage_destroy s) (storage_construct mk t [src]))"

definition storage_get :: "ty \<Rightarrow> 'v storage \<Rightarrow> 'v res" where
  "storage_get t s = source_value s (Inside t)"

definition storage_bool :: "'v storage \<Rightarrow> bool" where
  "storage_bool s \<longleftrightarrow> type_tag s \<noteq> None"

text \<open>
  A union stores a value as the first type of its list the value's type can be converted to; for
  a type that can be converted to none the member functions do not exist.
\<close>

definition union_type :: "(ty \<Rightarrow> ty \<Rightarrow> bool) \<Rightarrow> ty list \<Rightarrow> ty \<Rightarrow> ty option" where
  "union_type conv ts t = type_at (is_convertible_to_one_of conv t ts) ts"

definition on_union_type :: "(ty \<Rightarrow> ty \<Rightarrow> bool) \<Rightarrow> ty list \<Rightarrow> ty \<Rightarrow> (ty \<Rightarrow> 'a res) \<Rightarrow> 'a res" where
  "on_union_type conv ts t f = (case union_type conv ts t of None \<Rightarrow> Inl Invalid_argument | Some u \<Rightarrow> f u)"

definition union_ctor ::
  "(ty \<Rightarrow> ty \<Rightarrow> bool) \<Rightarrow> ty list \<Rightarrow> 'v maker \<Rightarrow> ty \<Rightarrow> 'v \<Rightarrow> (completion \<times> 'v storage) res" where
  "union_ctor conv ts mk t v =
     on_union_type conv ts t (\<lambda>u. storage_construct mk u [Outside v] storage_init)"

definition union_reset ::
  "(ty \<Rightarrow> ty \<Rightarrow> bool) \<Rightarrow> ty list \<Rightarrow> 'v maker \<Rightarrow> ty \<Rightarrow> 'v source list \<Rightarrow> 'v storage \<Rightarrow>
   (completion \<times> 'v storage) res" where
  "union_reset conv ts mk t args s =
     on_union_type conv ts t (\<lambda>u. rbind (storage_destroy s) (storage_construct mk u args))"

text \<open>A conversion makes a temporary, whose address is not that of the storage.\<close>

definition union_assign ::
  "(ty \<Rightarrow> ty \<Rightarrow> bool) \<Rightarrow> ty list \<Rightarrow> 'v maker \<Rightarrow> ty \<Rightarrow> 'v source \<Rightarrow> 'v storage \<Rightarrow>
   (completion \<times> 'v storage) res" where
  "union_assign conv ts mk t src s =
     on_union_type conv ts t (\<lambda>u.
     if (case src of Inside t' \<Rightarrow> t' = u | Outside v \<Rightarrow> False) then Inr (Normal, s)
     else rbind (storage_destroy s) (storage_construct mk u [src]))"

definition union_get :: "ty list \<Rightarrow> ty \<Rightarrow> 'v storage \<Rightarrow> 'v res" where
  "union_get ts t s = (if is_one_of t ts = 0 then Inl Invalid_argument else source_value s (Inside t))"

text \<open>\<open>type_storage\<close> holds a value of its one type from its construction to its destruction.\<close>

definition type_storage_ctor :: "'v maker \<Rightarrow> ty \<Rightarrow> 'v source list \<Rightarrow> (completion \<times> 'v storage) res" where
  "type_storage_ctor mk t args =
     rbind (source_values storage_init args) (\<lambda>vs.
     case mk t vs of
         None \<Rightarrow> Inr (Exception, storage_init)
       | Some v \<Rightarrow> Inr (Normal, storage_init\<lparr>bytes := Some (t, v), lives := [Built t v]\<rparr>))"

definition type_storage_dtor :: "ty \<Rightarrow> 'v storage \<Rightarrow> 'v storage res" where
  "type_storage_dtor t s = rbind (source_value s (Inside t)) (\<lambda>v.
     Inr (s\<lparr>bytes := None, lives := lives s @ [Destructed t v]\<rparr>))"

section \<open>Lives of objects\<close>

text \<open>
  \<open>lifetime es ob\<close> replays a record from the object \<open>ob\<close>: at most one object lives at a time,
  and what ends a life is the destructor of the object's own type. It gives the object still alive.
\<close>

fun lifetime :: "'v life list \<Rightarrow> (ty \<times> 'v) option \<Rightarrow> (ty \<times> 'v) option option" where
  "lifetime [] ob = Some ob"
| "lifetime (Built t v # es) ob = (if ob = None then lifetime es (Some (t, v)) else None)"
| "lifetime (Destructed t v # es) ob = (if ob = Some (t, v) then lifetime es None else None)"

lemma lifetime_append:
  "lifetime (es @ fs) ob = (case lifetime es ob of None \<Rightarrow> None | Some o' \<Rightarrow> lifetime fs o')"
  by (induction es ob rule: lifetime.induct) auto

definition storage_wf :: "'v storage \<Rightarrow> bool" where
  "storage_wf s \<longleftrightarrow> type_tag s = map_option fst (bytes s) \<and> Destroy s = type_tag s \<and>
     lifetime (lives s) None = Some (bytes s)"

definition storage_empty :: "'v storage \<Rightarrow> bool" where
  "storage_empty s \<longleftrightarrow> storage_wf s \<and> bytes s = None"

lemma storage_init_empty: "storage_empty storage_init"
  by (simp add: storage_empty_def storage_wf_def storage_init_def)

lemma storage_destroy_ok: "storage_wf s \<Longrightarrow> ok storage_empty (storage_destroy s)"
  by (auto simp: storage_wf_def storage_empty_def storage_destroy_def lifetime_append split: option.splits)

lemma source_values_Outside: "source_values s (map Outside vs) = Inr vs"
  by (induction vs) simp_all

lemma storage_construct_ok:
  "storage_empty s \<Longrightarrow> ok (\<lambda>(c, s'). if mk t vs = None then c = Exception \<and> storage_empty s'
       else c = Normal \<and> storage_wf s' \<and> bytes s' = map_option (Pair t) (mk t vs))
     (storage_construct mk t (map Outside vs) s)"
  by (auto simp: storage_construct_def source_values_Outside storage_wf_def storage_empty_def
      lifetime_append split: option.splits)

definition stored :: "'v maker \<Rightarrow> ty \<Rightarrow> 'v list \<Rightarrow> completion \<times> 'v storage \<Rightarrow> bool" where
  "stored mk t vs r = (case r of (c, s) \<Rightarrow>
     if mk t vs = None then c = Exception \<and> storage_empty s
     else c = Normal \<and> storage_wf s \<and> bytes s = map_option (Pair t) (mk t vs))"

lemma storage_reset_ok:
  "storage_wf s \<Longrightarrow> ok (stored mk t vs) (rbind (storage_destroy s) (storage_construct mk t (map Outside vs)))"
  unfolding stored_def by (blast intro: ok_bind storage_destroy_ok storage_construct_ok)

lemma stored_wf: "stored mk t vs (c, s) \<Longrightarrow> storage_wf s"
  by (auto simp: stored_def storage_empty_def split: if_splits)

text \<open>A program of member functions on one storage; the client catches what is thrown and goes on.\<close>

datatype 'v storage_op = Reset ty "'v source list" | Assign ty "'v source"

fun storage_exec ::
  "(ty \<Rightarrow> 'v source list \<Rightarrow> 'v storage \<Rightarrow> (completion \<times> 'v storage) res) \<Rightarrow>
   (ty \<Rightarrow> 'v source \<Rightarrow> 'v storage \<Rightarrow> (completion \<times> 'v storage) res) \<Rightarrow>
   'v storage_op list \<Rightarrow> 'v storage \<Rightarrow> 'v storage res" where
  "storage_exec reset assign [] s = Inr s"
| "storage_exec reset assign (Reset t args # ops) s =
     rbind (reset t args s) (\<lambda>(c, s). storage_exec reset assign ops s)"
| "storage_exec reset assign (Assign t src # ops) s =
     rbind (assign t src s) (\<lambda>(c, s). storage_exec reset assign ops s)"

text \<open>Arguments of a reset come from outside; a self-assignment is of the type that is held.\<close>

definition outside :: "'v source list \<Rightarrow> bool" where
  "outside args \<longleftrightarrow> (\<forall>x \<in> set args. \<exists>v. x = Outside v)"

fun storage_fits :: "(ty \<Rightarrow> ty option) \<Rightarrow> 'v storage_op \<Rightarrow> bool" where
  "storage_fits chosen (Reset t args) = (chosen t \<noteq> None \<and> outside args)"
| "storage_fits chosen (Assign t (Outside v)) = (chosen t \<noteq> None)"
| "storage_fits chosen (Assign t (Inside u)) = (u = t \<and> chosen t = Some t)"

lemma outside_map: "outside args \<Longrightarrow> \<exists>vs. args = map Outside vs"
  unfolding outside_def by (induction args) (auto, metis list.simps(9))

locale storage_class =
  fixes chosen :: "ty \<Rightarrow> ty option"
    and mk :: "'v maker"
    and reset :: "ty \<Rightarrow> 'v source list \<Rightarrow> 'v storage \<Rightarrow> (completion \<times> 'v storage) res"
    and assign :: "ty \<Rightarrow> 'v source \<Rightarrow> 'v storage \<Rightarrow> (completion \<times> 'v storage) res"
  assumes reset_stores: "chosen t = Some u \<Longrightarrow> storage_wf s \<Longrightarrow> ok (stored mk u vs) (reset t (map Outside vs) s)"
    and assign_stores: "chosen t = Some u \<Longrightarrow> storage_wf s \<Longrightarrow> ok (stored mk u [v]) (assign t (Outside v) s)"
    and assign_self: "chosen t = Some t \<Longrightarrow> assign t (Inside t) s = Inr (Normal, s)"
begin

lemma exec_wf:
  "storage_wf s \<Longrightarrow> \<forall>x \<in> set ops. storage_fits chosen x \<Longrightarrow> ok storage_wf (storage_exec reset assign ops s)"
proof (induction ops arbitrary: s)
  case (Cons x ops)
  have rest: "ok storage_wf (rbind r (\<lambda>(c, s). storage_exec reset assign ops s))"
    if "ok (stored mk u vs) r" for r u vs
    using that Cons.prems(2) by (auto simp: ok_iff intro!: Cons.IH [unfolded ok_iff] dest: stored_wf)
  show ?case
  proof (cases x)
    case (Reset t args)
    with Cons.prems(2) obtain u vs where "chosen t = Some u" "args = map Outside vs"
      using outside_map [of args] by auto
    with Reset Cons.prems(1) rest [OF reset_stores] show ?thesis by simp
  next
    case (Assign t src)
    with Cons.prems Cons.IH [OF Cons.prems(1)] rest [OF assign_stores] show ?thesis
      by (cases src) (auto simp: assign_self)
  qed
qed simp

text \<open>At the end, when the destructor of the storage has run, every object has been destroyed.\<close>

lemma exec_destroys:
  assumes "\<forall>x \<in> set ops. storage_fits chosen x" "storage_wf s"
  shows "ok storage_empty (rbind (storage_exec reset assign ops s) storage_destroy)"
  by (rule ok_bind [OF exec_wf [OF assms(2,1)] storage_destroy_ok])

end

interpretation aligned: storage_class Some mk "storage_reset mk" "storage_assign mk" for mk
  by unfold_locales (use storage_reset_ok [of _ mk _ "[_]"] in
      \<open>auto simp: storage_reset_def storage_assign_def intro: storage_reset_ok\<close>)

interpretation union: storage_class "union_type conv ts" mk "union_reset conv ts mk" "union_assign conv ts mk"
  for conv ts mk
  by unfold_locales (use storage_reset_ok [of _ mk _ "[_]"] in
      \<open>auto simp: union_reset_def union_assign_def on_union_type_def intro: storage_reset_ok\<close>)

section \<open>Correctness of the storages\<close>

text \<open>The scope of a storage: its construction, a use, its destructor. What throws in a
  constructor never comes to exist.\<close>

definition storage_scope ::
  "(completion \<times> 'v storage) res \<Rightarrow> ('v storage \<Rightarrow> 'v storage res) \<Rightarrow> 'v storage res" where
  "storage_scope made use = rbind made (\<lambda>(c, s).
     if c = Exception then Inr s else rbind (use s) storage_destroy)"

lemma storage_scope_ok:
  assumes "ok (stored mk t vs) made" "\<And>s. storage_wf s \<Longrightarrow> ok storage_empty (rbind (use s) storage_destroy)"
  shows "ok storage_empty (storage_scope made use)"
  using assms by (auto simp: storage_scope_def ok_iff stored_def split: if_splits)

lemma storage_made_ok: "ok (stored mk t [v]) (storage_construct mk t [Outside v] storage_init)"
  using storage_construct_ok [OF storage_init_empty, of mk t "[v]"] unfolding stored_def by simp

lemma storage_init_wf: "storage_wf storage_init"
  by (rule storage_init_empty [unfolded storage_empty_def, THEN conjunct1])

text \<open>
  C29: Every object built in an \<open>aligned_storage\<close> or a \<open>union_storage\<close> is destroyed exactly once, by the
  destructor of its own type, and no two live at a time: whatever sequence of resets and
  assignments is performed between the construction of the storage and its destructor,
  whichever constructors throw, and also when a storage is assigned the value it holds.
\<close>

theorem storage_life:
  assumes "\<forall>x \<in> set ops. storage_fits Some x" "\<forall>x \<in> set ops'. storage_fits (union_type conv ts) x"
    "union_type conv ts t = Some u"
  shows "ok storage_empty (storage_scope (Inr (Normal, storage_init))
       (storage_exec (storage_reset mk) (storage_assign mk) ops)) \<and>
     ok storage_empty (storage_scope (storage_ctor mk t v)
       (storage_exec (storage_reset mk) (storage_assign mk) ops)) \<and>
     ok storage_empty (storage_scope (Inr (Normal, storage_init))
       (storage_exec (union_reset conv ts mk) (union_assign conv ts mk) ops')) \<and>
     ok storage_empty (storage_scope (union_ctor conv ts mk t v)
       (storage_exec (union_reset conv ts mk) (union_assign conv ts mk) ops'))"
proof (intro conjI)
  note aligned = aligned.exec_destroys [OF assms(1)] and union = union.exec_destroys [OF assms(2)]
  show "ok storage_empty (storage_scope (storage_ctor mk t v)
       (storage_exec (storage_reset mk) (storage_assign mk) ops))"
    unfolding storage_ctor_def by (rule storage_scope_ok [OF storage_made_ok aligned])
  show "ok storage_empty (storage_scope (union_ctor conv ts mk t v)
       (storage_exec (union_reset conv ts mk) (union_assign conv ts mk) ops'))"
    using storage_scope_ok [OF storage_made_ok union] assms(3) by (simp add: union_ctor_def on_union_type_def)
qed (use aligned.exec_destroys [OF assms(1) storage_init_wf] union.exec_destroys [OF assms(2) storage_init_wf]
     in \<open>simp_all add: storage_scope_def\<close>)

text \<open>The constructors copy their argument; those of type 1 throw for an argument above 9.\<close>

definition maker_example :: "nat maker" where
  "maker_example t args = (case args of
      [] \<Rightarrow> Some 0
    | [v] \<Rightarrow> if t = 1 \<and> 9 < v then None else Some v
    | _ \<Rightarrow> None)"

theorem storage_life_witness:
  "ok storage_empty (storage_scope (storage_ctor maker_example 0 5)
     (storage_exec (storage_reset maker_example) (storage_assign maker_example)
        [Assign 0 (Inside 0), Assign 1 (Outside 12), Reset 1 [], Reset 2 [Outside 7]])) \<and>
   ok storage_empty (storage_scope (union_ctor (=) [0, 1] maker_example 0 5)
     (storage_exec (union_reset (=) [0, 1] maker_example) (union_assign (=) [0, 1] maker_example)
        [Reset 1 [Outside 12], Assign 1 (Outside 3), Assign 1 (Inside 1)]))"
  using storage_life [of "[Assign 0 (Inside 0), Assign 1 (Outside 12), Reset 1 [], Reset 2 [Outside 7]]"
      "[Reset 1 [Outside 12], Assign 1 (Outside 3), Assign 1 (Inside 1)]" "(=)" "[0, 1]" 0 0 maker_example 5]
  by (simp add: outside_def union_type_def type_at_nth)

text \<open>
  C33: After a value has been assigned to a storage, \<open>get\<close> gives it, and \<open>tag\<close> and the
  conversion to \<open>bool\<close> tell its type: the value's own type for an \<open>aligned_storage\<close>, the first type
  of the list it can be converted to for a \<open>union_storage\<close>. A constructor that throws
  leaves the storage empty, the value held before being gone.
\<close>

theorem storage_assign_get:
  assumes "storage_wf s" "union_type conv ts t = Some u"
  shows "ok (\<lambda>(c, s'). case mk t [v] of
         None \<Rightarrow> c = Exception \<and> \<not> storage_bool s'
       | Some x \<Rightarrow> c = Normal \<and> storage_bool s' \<and> type_tag s' = Some t \<and> storage_get t s' = Inr x)
     (storage_assign mk t (Outside v) s) \<and>
   ok (\<lambda>(c, s'). case mk u [v] of
         None \<Rightarrow> c = Exception \<and> \<not> storage_bool s'
       | Some x \<Rightarrow> c = Normal \<and> storage_bool s' \<and> type_tag s' = Some u \<and> union_get ts u s' = Inr x)
     (union_assign conv ts mk t (Outside v) s)"
proof -
  have "u \<in> set ts"
    using assms(2) by (auto simp: union_type_def type_at_nth split: if_splits)
  then have "0 < is_one_of u ts"
    using convertible_index [of "(=)" u ts] by (auto simp: is_one_of_convertible Let_def)
  then show ?thesis
    using aligned.assign_stores [OF refl assms(1), of mk t v] union.assign_stores [OF assms(2,1), of mk v]
    by (auto simp: stored_def storage_empty_def storage_wf_def storage_bool_def storage_get_def union_get_def
        elim!: ok_weaken split: option.splits if_splits)
qed

theorem storage_assign_get_witness:
  "ok (\<lambda>(c, s'). c = Normal \<and> union_get [0, 1] 1 s' = Inr (3::nat))
     (union_assign (=) [0, 1] maker_example 1 (Outside 3) storage_init) \<and>
   ok (\<lambda>(c, s'). c = Exception \<and> \<not> storage_bool s')
     (union_assign (=) [0, 1] maker_example 1 (Outside 12) storage_init)"
  using storage_assign_get [OF storage_init_wf, of "(=)" "[0, 1]" 1 1 maker_example 3]
    storage_assign_get [OF storage_init_wf, of "(=)" "[0, 1]" 1 1 maker_example 12]
  by (auto simp: union_type_def type_at_nth maker_example_def elim!: ok_weaken)

text \<open>
  The first type of the list wins over the very type of the value: a union of \<open>int\<close> (0) and
  \<open>double\<close> (1), which convert to each other, keeps a \<open>double\<close> as an \<open>int\<close>,
  and \<open>get< double >()\<close> reads the bytes of the \<open>int\<close> as a \<open>double\<close>.
\<close>

lemma union_prefers_first:
  "rbind (union_assign (\<lambda>t u. True) [0, 1] maker_example 1 (Outside 3) storage_init)
     (\<lambda>(c, s). union_get [0, 1] 1 s) = Inl Bad_cast"
  unfolding faults_iff [symmetric] by code_simp

text \<open>A \<open>type_storage\<close> destroys what its constructor has built.\<close>

lemma type_storage_life:
  "mk t vs = Some v \<Longrightarrow> ok (\<lambda>s. lives s = [Built t v, Destructed t v])
     (rbind (type_storage_ctor mk t (map Outside vs)) (\<lambda>(c, s). type_storage_dtor t s))"
  by (simp add: type_storage_ctor_def type_storage_dtor_def source_values_Outside storage_init_def)

end
