(* ===== verification/Uvcc_Any_Ptr.thy ===== *)
theory Uvcc_Any_Ptr
  imports Uvcc_Storage
begin

text \<open>
  \<^verbatim>\<open>utility.hpp\<close>: \<open>any_ptr\<close>, a smart pointer to an object of any type, and \<open>default_delete\<close>. An
  object on the heap is owned by one smart pointer or by one plain pointer variable of the client.
\<close>

section \<open>The pointers\<close>

record any_ptr =
  ap_tag :: "ty option"
  ap_Delete :: "ty option"
  ap_ptr :: "addr option"

record any_state =
  objects :: "addr \<rightharpoonup> ty"
  anys :: "var \<rightharpoonup> any_ptr"
  plains :: "var \<rightharpoonup> ty \<times> addr option"

definition any_null :: any_ptr where
  "any_null = \<lparr>ap_tag = None, ap_Delete = None, ap_ptr = None\<rparr>"

definition any_at :: "var \<Rightarrow> any_state \<Rightarrow> any_ptr res" where
  "any_at v s = (case anys s v of None \<Rightarrow> Inl Dead_variable | Some x \<Rightarrow> Inr x)"

definition any_put :: "var \<Rightarrow> any_ptr \<Rightarrow> any_state \<Rightarrow> any_state" where
  "any_put v x s = s\<lparr>anys := (anys s)(v \<mapsto> x)\<rparr>"

definition plain_at :: "var \<Rightarrow> any_state \<Rightarrow> (ty \<times> addr option) res" where
  "plain_at r s = (case plains s r of None \<Rightarrow> Inl Dead_variable | Some x \<Rightarrow> Inr x)"

definition default_delete :: "ty \<Rightarrow> addr option \<Rightarrow> any_state \<Rightarrow> any_state res" where
  "default_delete t p s = (case p of
      None \<Rightarrow> Inr s
    | Some a \<Rightarrow> (case objects s a of
          None \<Rightarrow> Inl Use_after_free
        | Some u \<Rightarrow> if u = t then Inr (s\<lparr>objects := (objects s)(a := None)\<rparr>) else Inl Bad_cast))"

definition any_destroy :: "var \<Rightarrow> any_state \<Rightarrow> any_state res" where
  "any_destroy v s =
     rbind (any_at v s) (\<lambda>x.
     rbind (case ap_Delete x of None \<Rightarrow> Inr s | Some t \<Rightarrow> default_delete t (ap_ptr x) s) (\<lambda>s.
     Inr (any_put v (x\<lparr>ap_Delete := None, ap_tag := None\<rparr>) s)))"

definition any_release :: "var \<Rightarrow> any_state \<Rightarrow> (addr option \<times> any_state) res" where
  "any_release v s =
     rbind (any_at v s) (\<lambda>x.
     Inr (ap_ptr x, any_put v (x\<lparr>ap_ptr := None, ap_Delete := None, ap_tag := None\<rparr>) s))"

text \<open>The constructors, for a variable \<open>v\<close> whatever it was before.\<close>

definition any_from :: "var \<Rightarrow> var \<Rightarrow> any_state \<Rightarrow> any_state res" where
  "any_from v r s =
     rbind (plain_at r s) (\<lambda>(t, p).
     Inr (any_put v \<lparr>ap_tag = Some t, ap_Delete = Some t, ap_ptr = p\<rparr>
       (s\<lparr>plains := (plains s)(r \<mapsto> (t, None))\<rparr>)))"

definition any_move :: "var \<Rightarrow> var \<Rightarrow> any_state \<Rightarrow> any_state res" where
  "any_move v u s =
     rbind (any_at u s) (\<lambda>x.
     rbind (any_release u (any_put v x s)) (\<lambda>(_, s). Inr s))"

definition any_move_assign :: "var \<Rightarrow> var \<Rightarrow> any_state \<Rightarrow> any_state res" where
  "any_move_assign v u s =
     rbind (any_at v s) (\<lambda>x.
     rbind (any_at u s) (\<lambda>y.
     if ap_ptr x \<noteq> ap_ptr y then rbind (any_destroy v s) (any_move v u) else Inr s))"

definition any_reset :: "var \<Rightarrow> var \<Rightarrow> any_state \<Rightarrow> any_state res" where
  "any_reset v r s =
     rbind (any_at v s) (\<lambda>x.
     rbind (plain_at r s) (\<lambda>(t, p).
     if ap_ptr x = p then Inr s
     else rbind (any_destroy v s) (any_from v r)))"

definition any_dtor :: "var \<Rightarrow> any_state \<Rightarrow> any_state res" where
  "any_dtor v s = rbind (any_destroy v s) (\<lambda>s. Inr (s\<lparr>anys := (anys s)(v := None)\<rparr>))"

definition any_bool :: "any_ptr \<Rightarrow> bool" where
  "any_bool x \<longleftrightarrow> ap_ptr x \<noteq> None"

section \<open>Programs\<close>

text \<open>
  What a client does with its pointers. A step is refused, with \<open>Invalid_argument\<close>, where the
  client would lose an object by itself: an object is made at a free address and in a plain
  variable that owns none, and what a smart pointer releases goes to such a variable.
\<close>

datatype any_op =
    Make var ty addr
  | Null var
  | From var var
  | Move var var
  | Move_assign var var
  | Reset_to var var
  | Reset_null var
  | Release var var
  | Dtor var

definition spare :: "var \<Rightarrow> any_state \<Rightarrow> bool" where
  "spare r s \<longleftrightarrow> (case plains s r of Some (t, Some a) \<Rightarrow> False | _ \<Rightarrow> True)"

definition guard :: "bool \<Rightarrow> 'a res \<Rightarrow> 'a res" where
  "guard b m = (if b then m else Inl Invalid_argument)"

fun any_step :: "any_op \<Rightarrow> any_state \<Rightarrow> any_state res" where
  "any_step (Make r t a) s = guard (objects s a = None \<and> spare r s)
     (Inr (s\<lparr>objects := (objects s)(a \<mapsto> t), plains := (plains s)(r \<mapsto> (t, Some a))\<rparr>))"
| "any_step (Null v) s = guard (anys s v = None) (Inr (any_put v any_null s))"
| "any_step (From v r) s = guard (anys s v = None) (any_from v r s)"
| "any_step (Move v u) s = guard (anys s v = None) (any_move v u s)"
| "any_step (Move_assign v u) s = any_move_assign v u s"
| "any_step (Reset_to v r) s = any_reset v r s"
| "any_step (Reset_null v) s = any_destroy v s"
| "any_step (Release v r) s = guard (spare r s) (rbind (any_at v s) (\<lambda>x.
     rbind (any_release v s) (\<lambda>(p, s).
     case ap_tag x of
         None \<Rightarrow> Inr s
       | Some t \<Rightarrow> Inr (s\<lparr>plains := (plains s)(r \<mapsto> (t, p))\<rparr>))))"
| "any_step (Dtor v) s = any_dtor v s"

primrec any_run :: "any_op list \<Rightarrow> any_state \<Rightarrow> any_state res" where
  "any_run [] s = Inr s"
| "any_run (x # xs) s = rbind (any_step x s) (any_run xs)"

definition any_start :: any_state where
  "any_start = \<lparr>objects = (\<lambda>a. None), anys = (\<lambda>v. None), plains = (\<lambda>r. None)\<rparr>"

section \<open>Ownership\<close>

definition any_owns :: "any_ptr option \<Rightarrow> (ty \<times> addr) option" where
  "any_owns c = (case c of None \<Rightarrow> None
    | Some x \<Rightarrow> (case ap_Delete x of None \<Rightarrow> None | Some t \<Rightarrow> map_option (Pair t) (ap_ptr x)))"

definition plain_owns :: "(ty \<times> addr option) option \<Rightarrow> (ty \<times> addr) option" where
  "plain_owns c = (case c of None \<Rightarrow> None | Some (t, p) \<Rightarrow> map_option (Pair t) p)"

definition owns :: "any_state \<Rightarrow> var + var \<Rightarrow> (ty \<times> addr) option" where
  "owns s z = (case z of Inl v \<Rightarrow> any_owns (anys s v) | Inr r \<Rightarrow> plain_owns (plains s r))"

text \<open>Some function tells for every object its one owner.\<close>

definition one_owner :: "(addr \<rightharpoonup> ty) \<Rightarrow> (var + var \<Rightarrow> (ty \<times> addr) option) \<Rightarrow> bool" where
  "one_owner m f \<longleftrightarrow> (\<exists>w. \<forall>z t a. f z = Some (t, a) \<longleftrightarrow> m a = Some t \<and> w a = z)"

definition any_wf :: "any_state \<Rightarrow> bool" where
  "any_wf s \<longleftrightarrow> one_owner (objects s) (owns s) \<and>
     (\<forall>v x. anys s v = Some x \<longrightarrow> ap_tag x = ap_Delete x)"

lemma owns_any_put: "owns (any_put v x s) = (owns s)(Inl v := any_owns (Some x))"
  by (rule ext) (simp add: owns_def any_put_def split: sum.split)

lemma owns_anys: "owns (s\<lparr>anys := (anys s)(v := c)\<rparr>) = (owns s)(Inl v := any_owns c)"
  by (rule ext) (simp add: owns_def split: sum.split)

lemma owns_plains: "m = plains s \<Longrightarrow> owns (s\<lparr>plains := m(r := c)\<rparr>) = (owns s)(Inr r := plain_owns c)"
  by (rule ext) (simp add: owns_def split: sum.split)

lemma owns_objects: "owns (objects_update f s) = owns s"
  by (rule ext) (simp add: owns_def split: sum.split)

lemmas owns_upd = owns_any_put owns_anys owns_plains owns_objects

lemma owner_owned: "one_owner m f \<Longrightarrow> f z = Some (t, a) \<Longrightarrow> m a = Some t"
  by (auto simp: one_owner_def)

lemma owner_delete:
  assumes "one_owner m f" "f z = Some (t, a)"
  shows "one_owner (m(a := None)) (f(z := None))"
proof -
  from assms(1) obtain w where w: "\<And>z t a. f z = Some (t, a) \<longleftrightarrow> m a = Some t \<and> w a = z"
    by (auto simp: one_owner_def)
  have "w a' \<noteq> z" if "m a' = Some t'" "a' \<noteq> a" for a' t' using assms(2) w [of z t' a'] that by auto
  then show ?thesis
    unfolding one_owner_def using assms(2) w [of z t a] by (intro exI [of _ w]) (auto simp: w)
qed

lemma owner_none: "one_owner m f \<Longrightarrow> f z = None \<Longrightarrow> one_owner m (f(z := None))"
  by (simp add: fun_upd_idem)

lemma owner_move:
  assumes "one_owner m f" "z \<noteq> z'" "f z' = None"
  shows "one_owner m (f(z' := f z, z := None))"
proof -
  from assms(1) obtain w where w: "\<And>z t a. f z = Some (t, a) \<longleftrightarrow> m a = Some t \<and> w a = z"
    by (auto simp: one_owner_def)
  have "w a \<noteq> z'" if "m a = Some t" for a t using assms(3) w [of z' t a] that by auto
  then show ?thesis
    unfolding one_owner_def using assms(2)
    by (intro exI [of _ "\<lambda>a. if w a = z then z' else w a"]) (auto simp: w)
qed

lemma owner_make:
  assumes "one_owner m f" "m a = None" "f z = None"
  shows "one_owner (m(a \<mapsto> t)) (f(z := Some (t, a)))"
proof -
  from assms(1) obtain w where w: "\<And>z t a. f z = Some (t, a) \<longleftrightarrow> m a = Some t \<and> w a = z"
    by (auto simp: one_owner_def)
  have "w a' \<noteq> z" if "m a' = Some t" for a' t using assms(3) w [of z t a'] that by auto
  then show ?thesis
    unfolding one_owner_def using assms(2)
    by (intro exI [of _ "w(a := z)"]) (auto simp: w)
qed

lemma any_put_simps [simp]:
  "anys (any_put v x s) = (anys s)(v \<mapsto> x)" "objects (any_put v x s) = objects s"
  "plains (any_put v x s) = plains s"
  by (simp_all add: any_put_def)

section \<open>Every object is deleted once\<close>

text \<open>A step ends well, or it is refused, or it uses a variable that is not in scope.\<close>

definition fine :: "(any_state \<Rightarrow> bool) \<Rightarrow> any_state res \<Rightarrow> bool" where
  "fine P m = (case m of Inl e \<Rightarrow> e = Dead_variable \<or> e = Invalid_argument | Inr s \<Rightarrow> P s)"

lemma fine_simps [simp]:
  "fine P (Inr s) = P s" "fine P (Inl e) = (e = Dead_variable \<or> e = Invalid_argument)"
  by (simp_all add: fine_def)

lemma fine_bind: "fine P m \<Longrightarrow> (\<And>s. P s \<Longrightarrow> fine Q (f s)) \<Longrightarrow> fine Q (rbind m f)"
  by (cases m) auto

lemma fine_at: "(\<And>x. anys s v = Some x \<Longrightarrow> fine P (f x)) \<Longrightarrow> fine P (rbind (any_at v s) f)"
  by (simp add: any_at_def split: option.split)

lemma fine_plain: "(\<And>t p. plains s r = Some (t, p) \<Longrightarrow> fine P (f (t, p))) \<Longrightarrow> fine P (rbind (plain_at r s) f)"
  by (auto simp: plain_at_def split: option.split)

lemma fine_guard: "(b \<Longrightarrow> fine P m) \<Longrightarrow> fine P (guard b m)"
  by (simp add: guard_def)

text \<open>After \<open>destroy()\<close> the variable owns nothing; the others and the plain pointers are as before.\<close>

lemma any_destroy_fine:
  assumes "any_wf s"
  shows "fine (\<lambda>s'. any_wf s' \<and> owns s' (Inl v) = None \<and> anys s' v \<noteq> None \<and>
       plains s' = plains s \<and> (\<forall>u. u \<noteq> v \<longrightarrow> anys s' u = anys s u)) (any_destroy v s)"
  unfolding any_destroy_def
proof (rule fine_at)
  fix x assume x: "anys s v = Some x"
  let ?x = "x\<lparr>ap_Delete := None, ap_tag := None\<rparr>"
  have gone: "any_owns (Some ?x) = None" by (simp add: any_owns_def)
  show "fine (\<lambda>s'. any_wf s' \<and> owns s' (Inl v) = None \<and> anys s' v \<noteq> None \<and>
       plains s' = plains s \<and> (\<forall>u. u \<noteq> v \<longrightarrow> anys s' u = anys s u))
     (rbind (case ap_Delete x of None \<Rightarrow> Inr s | Some t \<Rightarrow> default_delete t (ap_ptr x) s) (\<lambda>s. Inr (any_put v ?x s)))"
  proof (cases "owns s (Inl v)")
    case None
    then have "(case ap_Delete x of None \<Rightarrow> Inr s | Some t \<Rightarrow> default_delete t (ap_ptr x) s) = Inr s"
      using x by (auto simp: owns_def any_owns_def default_delete_def split: option.splits)
    with None assms show ?thesis
      using owner_none [of "objects s" "owns s" "Inl v"]
      by (auto simp: any_wf_def owns_upd gone split: if_splits)
  next
    case (Some q)
    obtain t a where q: "q = (t, a)" by (cases q)
    then have xs: "ap_Delete x = Some t" "ap_ptr x = Some a"
      using Some x by (auto simp: owns_def any_owns_def split: option.splits)
    have "objects s a = Some t"
      using assms Some q by (auto simp: any_wf_def intro: owner_owned)
    with xs q Some assms owner_delete [of "objects s" "owns s" "Inl v" t a] show ?thesis
      by (auto simp: default_delete_def any_wf_def owns_upd gone split: if_splits)
  qed
qed

text \<open>The constructors take over what their argument owns.\<close>

lemma any_from_fine:
  assumes "any_wf s" "owns s (Inl v) = None"
  shows "fine any_wf (any_from v r s)"
  unfolding any_from_def
proof (rule fine_plain)
  fix t p assume p: "plains s r = Some (t, p)"
  then have "owns s (Inr r) = any_owns (Some \<lparr>ap_tag = Some t, ap_Delete = Some t, ap_ptr = p\<rparr>)"
    by (simp add: owns_def plain_owns_def any_owns_def)
  with owner_move [of "objects s" "owns s" "Inr r" "Inl v"] assms
  show "fine any_wf ((\<lambda>(t, p). Inr (any_put v \<lparr>ap_tag = Some t, ap_Delete = Some t, ap_ptr = p\<rparr>
      (s\<lparr>plains := (plains s)(r \<mapsto> (t, None))\<rparr>))) (t, p))"
    by (auto simp: any_wf_def owns_upd plain_owns_def fun_upd_twist split: if_splits)
qed

lemma any_move_fine:
  assumes "any_wf s" "owns s (Inl v) = None" "v \<noteq> u"
  shows "fine any_wf (any_move v u s)"
  unfolding any_move_def any_release_def
proof (rule fine_at)
  fix x assume x: "anys s u = Some x"
  then have o: "owns s (Inl u) = any_owns (Some x)" by (simp add: owns_def)
  have n: "any_owns (Some (x\<lparr>ap_ptr := None, ap_Delete := None, ap_tag := None\<rparr>)) = None"
    by (simp add: any_owns_def)
  show "fine any_wf (rbind (rbind (any_at u (any_put v x s)) (\<lambda>y.
      Inr (ap_ptr y, any_put u (y\<lparr>ap_ptr := None, ap_Delete := None, ap_tag := None\<rparr>) (any_put v x s))))
      (\<lambda>(_, s). Inr s))"
    using x assms owner_move [of "objects s" "owns s" "Inl u" "Inl v"]
    by (auto simp: any_at_def any_wf_def owns_upd n o [symmetric] split: if_splits)
qed

lemma any_step_fine: "any_wf s \<Longrightarrow> fine any_wf (any_step x s)"
proof (cases x)
  case (Make r t a)
  assume wf: "any_wf s"
  show ?thesis
    unfolding Make any_step.simps
  proof (rule fine_guard)
    assume g: "objects s a = None \<and> spare r s"
    then have "owns s (Inr r) = None" by (auto simp: spare_def owns_def plain_owns_def split: option.splits)
    with g wf owner_make [of "objects s" "owns s" a "Inr r" t]
    show "fine any_wf (Inr (s\<lparr>objects := (objects s)(a \<mapsto> t), plains := (plains s)(r \<mapsto> (t, Some a))\<rparr>))"
      by (simp add: any_wf_def owns_upd plain_owns_def)
  qed
next
  case (Null v)
  assume "any_wf s"
  then show ?thesis
    using owner_none [of "objects s" "owns s" "Inl v"]
    by (auto simp: Null guard_def any_wf_def owns_upd any_owns_def any_null_def)
      (auto simp: owns_def any_owns_def split: if_splits)
next
  case (From v r)
  assume "any_wf s"
  then show ?thesis
    using any_from_fine [of s v r] by (auto simp: From guard_def owns_def any_owns_def)
next
  case (Move v u)
  assume "any_wf s"
  then show ?thesis
    using any_move_fine [of s v u]
    by (cases "v = u") (auto simp: Move guard_def owns_def any_owns_def any_move_def any_at_def)
next
  case (Move_assign v u)
  assume wf: "any_wf s"
  have "fine any_wf (rbind (any_destroy v s) (any_move v u))" if "v \<noteq> u"
    by (rule fine_bind [OF any_destroy_fine [OF wf]], rule any_move_fine) (use that in auto)
  with wf show ?thesis
    by (cases "v = u") (auto simp: Move_assign any_move_assign_def intro!: fine_at)
next
  case (Reset_to v r)
  assume wf: "any_wf s"
  have "fine any_wf (rbind (any_destroy v s) (any_from v r))"
    by (rule fine_bind [OF any_destroy_fine [OF wf]], rule any_from_fine) auto
  with wf show ?thesis by (auto simp: Reset_to any_reset_def intro!: fine_at fine_plain)
next
  case (Reset_null v)
  assume "any_wf s"
  then show ?thesis
    using any_destroy_fine [of s v] by (cases "any_destroy v s") (auto simp: Reset_null)
next
  case (Release v r)
  assume wf: "any_wf s"
  show ?thesis
    unfolding Release any_step.simps any_release_def
  proof (intro fine_guard fine_at)
    fix x assume sp: "spare r s" and x: "anys s v = Some x"
    then have o: "owns s (Inl v) = any_owns (Some x)" "owns s (Inr r) = None" "ap_tag x = ap_Delete x"
      using wf by (auto simp: spare_def owns_def plain_owns_def any_wf_def split: option.splits)
    show "fine any_wf (rbind (rbind (any_at v s) (\<lambda>x. Inr (ap_ptr x,
        any_put v (x\<lparr>ap_ptr := None, ap_Delete := None, ap_tag := None\<rparr>) s)))
        (\<lambda>(p, s). case ap_tag x of None \<Rightarrow> Inr s | Some t \<Rightarrow> Inr (s\<lparr>plains := (plains s)(r \<mapsto> (t, p))\<rparr>)))"
      using x o wf owner_move [of "objects s" "owns s" "Inl v" "Inr r"] owner_none [of "objects s" "owns s" "Inl v"]
      by (cases "ap_Delete x")
        (auto simp: any_at_def any_wf_def owns_upd any_owns_def plain_owns_def fun_upd_twist split: if_splits)
  qed
next
  case (Dtor v)
  assume wf: "any_wf s"
  show ?thesis
    unfolding Dtor any_step.simps any_dtor_def
    by (rule fine_bind [OF any_destroy_fine [OF wf]])
      (use owner_none in \<open>auto simp: any_wf_def owns_upd any_owns_def split: if_splits\<close>)
qed

lemma any_run_fine: "any_wf s \<Longrightarrow> fine any_wf (any_run xs s)"
  by (induction xs arbitrary: s) (auto intro: fine_bind any_step_fine)

lemma any_start_wf: "any_wf any_start"
  by (auto simp: any_wf_def one_owner_def any_start_def owns_def any_owns_def plain_owns_def split: sum.split)

text \<open>
  C34: No program of smart pointers deletes an object twice, deletes it as an object of another
  type or loses it: a run ends in a state in which every object on the heap has exactly one
  owner of its type, a smart pointer or a plain pointer of the client, and no pointer owns
  anything else; or the program uses a variable out of scope or takes a step it must not take.
\<close>

theorem any_ptr_ownership:
  "case any_run ops any_start of
       Inl e \<Rightarrow> e = Dead_variable \<or> e = Invalid_argument
     | Inr s \<Rightarrow> \<exists>owner. \<forall>z t a. owns s z = Some (t, a) \<longleftrightarrow> objects s a = Some t \<and> owner a = z"
  using any_run_fine [OF any_start_wf, of ops]
  by (cases "any_run ops any_start") (simp_all add: any_wf_def one_owner_def)

text \<open>
  \<open>destroy()\<close> leaves \<open>ptr\<close> as it was: an emptied pointer still converts to true, and it ignores a
  new object that the allocator has put at the old address, which stays with its plain pointer.
\<close>

lemma any_ptr_stale:
  "ok (\<lambda>s. anys s 0 = Some \<lparr>ap_tag = None, ap_Delete = None, ap_ptr = Some 5\<rparr> \<and>
       any_bool \<lparr>ap_tag = None, ap_Delete = None, ap_ptr = Some 5\<rparr> \<and> plains s 1 = Some (2, Some 5))
   (any_run [Make 1 2 5, From 0 1, Reset_null 0, Make 1 2 5, Reset_to 0 1] any_start)"
  by code_simp

end
