(* ===== verification/Uvcc_Threads.thy ===== *)
theory Uvcc_Threads
  imports Uvcc_Utility
begin

text \<open>
  \<^verbatim>\<open>utility.hpp\<close> among threads: the spin lock and the reference counter as interleavings of their
  atomic operations by \<open>n\<close> threads. The memory orders are not modelled: the operations are on one
  atomic object, whose values all threads see in one order.
\<close>

section \<open>The spin lock\<close>

datatype spin_pc = Outside_lock | Spinning | Holding

record spin_state =
  spin_flag :: bool
  spin_pc :: "nat \<Rightarrow> spin_pc"

definition spin_init :: spin_state where
  "spin_init = \<lparr>spin_flag = False, spin_pc = (\<lambda>i. Outside_lock)\<rparr>"

text \<open>One round of \<open>while (flag.test_and_set())\<close>: the flag is set, its old value decides.\<close>

definition spin_test_and_set :: "nat \<Rightarrow> spin_state \<Rightarrow> spin_state" where
  "spin_test_and_set i s =
     s\<lparr>spin_flag := True, spin_pc := (spin_pc s)(i := if spin_flag s then Spinning else Holding)\<rparr>"

definition spin_unlock :: "nat \<Rightarrow> spin_state \<Rightarrow> spin_state" where
  "spin_unlock i s = s\<lparr>spin_flag := False, spin_pc := (spin_pc s)(i := Outside_lock)\<rparr>"

inductive spin_step :: "spin_state \<Rightarrow> spin_state \<Rightarrow> bool" where
  Spin_enter: "spin_pc s i = Outside_lock \<Longrightarrow> spin_step s (s\<lparr>spin_pc := (spin_pc s)(i := Spinning)\<rparr>)"
| Spin_test: "spin_pc s i = Spinning \<Longrightarrow> spin_step s (spin_test_and_set i s)"
| Spin_leave: "spin_pc s i = Holding \<Longrightarrow> spin_step s (spin_unlock i s)"

inductive spin_reach :: "spin_state \<Rightarrow> bool" where
  Spin_start: "spin_reach spin_init"
| Spin_next: "spin_reach s \<Longrightarrow> spin_step s s' \<Longrightarrow> spin_reach s'"

inductive_cases spin_stepE: "spin_step s s'"

text \<open>The flag tells whether the lock is held, and by whom there is no doubt.\<close>

definition holders :: "spin_state \<Rightarrow> nat set" where
  "holders s = {i. spin_pc s i = Holding}"

definition spin_inv :: "spin_state \<Rightarrow> bool" where
  "spin_inv s \<longleftrightarrow> (if spin_flag s then \<exists>i. holders s = {i} else holders s = {})"

lemma holders_upd:
  "holders (s\<lparr>spin_pc := (spin_pc s)(i := p)\<rparr>) =
     (if p = Holding then insert i (holders s) else holders s - {i})"
  "holders (spin_flag_update f s) = holders s"
  by (auto simp: holders_def)

lemma spin_inv_step: "spin_step s s' \<Longrightarrow> spin_inv s \<Longrightarrow> spin_inv s'"
proof (erule spin_stepE)
  fix i assume "spin_inv s" "s' = s\<lparr>spin_pc := (spin_pc s)(i := Spinning)\<rparr>" "spin_pc s i = Outside_lock"
  moreover from this have "holders s' = holders s" by (auto simp: holders_def)
  ultimately show ?thesis by (simp add: spin_inv_def)
next
  fix i assume "spin_inv s" "s' = spin_test_and_set i s" "spin_pc s i = Spinning"
  moreover from this have "holders s' = (if spin_flag s then holders s else insert i (holders s))" "spin_flag s'"
    by (auto simp: spin_test_and_set_def holders_def)
  ultimately show ?thesis by (simp add: spin_inv_def)
next
  fix i assume "spin_inv s" "s' = spin_unlock i s" "spin_pc s i = Holding"
  moreover from this have "i \<in> holders s" "holders s' = holders s - {i}"
    by (auto simp: spin_unlock_def holders_def)
  ultimately show ?thesis by (auto simp: spin_inv_def spin_unlock_def split: if_splits)
qed

lemma spin_reach_inv: "spin_reach s \<Longrightarrow> spin_inv s"
proof (induction rule: spin_reach.induct)
  case Spin_start
  show ?case by (simp add: spin_inv_def spin_init_def holders_def)
qed (rule spin_inv_step)

text \<open>
  C27: The spin lock excludes: in no interleaving do two threads hold it at once. And it is
  live as far as it can be: while some thread waits for the lock, either one holds it, and can
  release it, or the next attempt of the waiting thread takes it.
\<close>

theorem spinlock_exclusion:
  assumes "spin_reach s"
  shows "(\<forall>i j. spin_pc s i = Holding \<longrightarrow> spin_pc s j = Holding \<longrightarrow> i = j) \<and>
    (\<forall>i. spin_pc s i = Spinning \<longrightarrow>
       (\<exists>j. spin_pc s j = Holding \<and> spin_step s (spin_unlock j s) \<and>
            spin_pc (spin_test_and_set i (spin_unlock j s)) i = Holding) \<or>
       spin_pc (spin_test_and_set i s) i = Holding)"
proof (intro conjI allI impI)
  note inv = spin_reach_inv [OF assms]
  fix i j assume "spin_pc s i = Holding" "spin_pc s j = Holding"
  then have "i \<in> holders s" "j \<in> holders s" by (simp_all add: holders_def)
  with inv show "i = j" by (auto simp: spin_inv_def split: if_splits)
next
  note inv = spin_reach_inv [OF assms]
  fix i
  show "(\<exists>j. spin_pc s j = Holding \<and> spin_step s (spin_unlock j s) \<and>
            spin_pc (spin_test_and_set i (spin_unlock j s)) i = Holding) \<or>
       spin_pc (spin_test_and_set i s) i = Holding"
  proof (cases "spin_flag s")
    case True
    with inv obtain j where "spin_pc s j = Holding" by (auto simp: spin_inv_def holders_def)
    with Spin_leave [OF this] show ?thesis by (auto simp: spin_test_and_set_def spin_unlock_def)
  qed (simp add: spin_test_and_set_def)
qed

text \<open>Thread 0 holds the lock while thread 1 waits.\<close>

definition spin_example :: spin_state where
  "spin_example = spin_test_and_set 0 (spin_init\<lparr>spin_pc := (\<lambda>i. Outside_lock)(0 := Spinning, 1 := Spinning)\<rparr>)"

lemma spin_example_reach: "spin_reach spin_example"
proof -
  have "spin_reach (spin_init\<lparr>spin_pc := (\<lambda>i. Outside_lock)(0 := Spinning)\<rparr>)"
    using Spin_next [OF Spin_start Spin_enter [of spin_init 0]] by (simp add: spin_init_def)
  from Spin_next [OF this Spin_enter [of _ 1]]
  have "spin_reach (spin_init\<lparr>spin_pc := (\<lambda>i. Outside_lock)(0 := Spinning, 1 := Spinning)\<rparr>)"
    by simp
  from Spin_next [OF this Spin_test [of _ 0]] show ?thesis by (simp add: spin_example_def)
qed

theorem spinlock_exclusion_witness:
  "spin_pc spin_example 0 = Holding \<and> spin_pc spin_example 1 = Spinning \<and>
   spin_pc (spin_test_and_set 1 (spin_unlock 0 spin_example)) 1 = Holding"
proof -
  have pc: "spin_pc spin_example 0 = Holding" "spin_pc spin_example 1 = Spinning"
    "spin_pc (spin_test_and_set 1 spin_example) 1 = Spinning"
    by (simp_all add: spin_example_def spin_test_and_set_def spin_init_def)
  with spinlock_exclusion [OF spin_example_reach] obtain j where
    "spin_pc spin_example j = Holding" "spin_pc (spin_test_and_set 1 (spin_unlock j spin_example)) 1 = Holding"
    by fastforce
  with pc spinlock_exclusion [OF spin_example_reach] show ?thesis by metis
qed

section \<open>The reference counter\<close>

text \<open>
  Where a thread is in \<open>inc()\<close>, with its local variable \<open>c\<close>; \<open>dec()\<close> is one atomic operation.
  The state adds what the code does not have: how many references each thread owns, how many
  times \<open>inc()\<close> has thrown and how many times \<open>dec()\<close> has returned 0, upon which the caller deletes
  the object.
\<close>

datatype rc_pc = Rc_out | Rc_load | Rc_test int | Rc_swap int

record rc_state =
  rc_count :: int
  rc_pc :: "nat \<Rightarrow> rc_pc"
  rc_refs :: "nat \<Rightarrow> nat"
  rc_thrown :: nat
  rc_deleted :: nat

definition rc_goto :: "nat \<Rightarrow> rc_pc \<Rightarrow> rc_state \<Rightarrow> rc_state" where
  "rc_goto i p s = s\<lparr>rc_pc := (rc_pc s)(i := p)\<rparr>"

definition rc_init :: rc_state where
  "rc_init = \<lparr>rc_count = 1, rc_pc = (\<lambda>i. Rc_out), rc_refs = (\<lambda>i. 0)(0 := 1), rc_thrown = 0, rc_deleted = 0\<rparr>"

text \<open>
  \<open>compare_exchange_weak\<close> may fail although the values agree. References are handed from thread to
  thread when variables are moved. With \<open>owner\<close> a thread calls \<open>inc()\<close> only while it owns a
  reference, as the copy constructors of the wrapper classes do; without, a thread may try to
  copy a variable that is just being destroyed by another.
\<close>

inductive rc_step :: "bool \<Rightarrow> nat \<Rightarrow> rc_state \<Rightarrow> rc_state \<Rightarrow> bool" for owner n where
  Rc_call: "i < n \<Longrightarrow> rc_pc s i = Rc_out \<Longrightarrow> owner \<longrightarrow> 0 < rc_refs s i \<Longrightarrow>
     rc_step owner n s (rc_goto i Rc_load s)"
| Rc_load: "i < n \<Longrightarrow> rc_pc s i = Rc_load \<Longrightarrow>
     rc_step owner n s (rc_goto i (Rc_test (rc_count s)) s)"
| Rc_throw: "i < n \<Longrightarrow> rc_pc s i = Rc_test c \<Longrightarrow> c = 0 \<Longrightarrow>
     rc_step owner n s (rc_goto i Rc_out (s\<lparr>rc_thrown := rc_thrown s + 1\<rparr>))"
| Rc_pass: "i < n \<Longrightarrow> rc_pc s i = Rc_test c \<Longrightarrow> c \<noteq> 0 \<Longrightarrow>
     rc_step owner n s (rc_goto i (Rc_swap c) s)"
| Rc_fail: "i < n \<Longrightarrow> rc_pc s i = Rc_swap c \<Longrightarrow>
     rc_step owner n s (rc_goto i (Rc_test (rc_count s)) s)"
| Rc_done: "i < n \<Longrightarrow> rc_pc s i = Rc_swap c \<Longrightarrow> rc_count s = c \<Longrightarrow>
     rc_step owner n s (rc_goto i Rc_out
       (s\<lparr>rc_count := c + 1, rc_refs := (rc_refs s)(i := rc_refs s i + 1)\<rparr>))"
| Rc_dec: "i < n \<Longrightarrow> rc_pc s i = Rc_out \<Longrightarrow> 0 < rc_refs s i \<Longrightarrow>
     rc_step owner n s
       (s\<lparr>rc_count := ref_count_dec (rc_count s), rc_refs := (rc_refs s)(i := rc_refs s i - 1),
          rc_deleted := rc_deleted s + (if ref_count_dec (rc_count s) = 0 then 1 else 0)\<rparr>)"
| Rc_hand: "i < n \<Longrightarrow> j < n \<Longrightarrow> i \<noteq> j \<Longrightarrow> rc_pc s i = Rc_out \<Longrightarrow> 0 < rc_refs s i \<Longrightarrow>
     rc_step owner n s
       (s\<lparr>rc_refs := (rc_refs s)(i := rc_refs s i - 1, j := rc_refs s j + 1)\<rparr>)"

inductive rc_reach :: "bool \<Rightarrow> nat \<Rightarrow> rc_state \<Rightarrow> bool" for owner n where
  Rc_start: "rc_reach owner n rc_init"
| Rc_next: "rc_reach owner n s \<Longrightarrow> rc_step owner n s s' \<Longrightarrow> rc_reach owner n s'"

inductive_cases rc_stepE: "rc_step owner n s s'"

definition rc_total :: "nat \<Rightarrow> rc_state \<Rightarrow> nat" where
  "rc_total n s = (\<Sum>i<n. rc_refs s i)"

lemma total_upd:
  "(i :: nat) < n \<Longrightarrow> (\<Sum>k<n. (f(i := x)) k) + f i = (\<Sum>k<n. f k) + (x :: nat)"
proof -
  assume "i < n"
  moreover have "(\<Sum>k\<in>{..<n} - {i}. (f(i := x)) k) = (\<Sum>k\<in>{..<n} - {i}. f k)"
    by (rule sum.cong) auto
  ultimately show ?thesis
    using sum.remove [OF finite_lessThan, of i n f] sum.remove [OF finite_lessThan, of i n "f(i := x)"] by simp
qed

lemma total_inc: "(i :: nat) < n \<Longrightarrow> (\<Sum>k<n. (f(i := Suc (f i))) k) = Suc (\<Sum>k<n. f k)"
  using total_upd [of i n f "Suc (f i)"] by simp

lemma total_dec: "(i :: nat) < n \<Longrightarrow> 0 < f i \<Longrightarrow> Suc (\<Sum>k<n. (f(i := f i - Suc 0)) k) = (\<Sum>k<n. f k)"
  using total_upd [of i n f "f i - 1"] by simp

lemma total_pos: "(i :: nat) < n \<Longrightarrow> 0 < f i \<Longrightarrow> 0 < (\<Sum>k<n. f k :: nat)"
  using total_dec [of i n f] by simp

text \<open>
  The invariant: the count is the number of references owned; the object has been deleted once
  if the count is 0 and not at all otherwise; a thread about to exchange has not seen 0.
  Under \<open>owner\<close>, who is in \<open>inc()\<close> owns a reference, so that the count is not 0 and has not been.
\<close>

definition rc_inside :: "rc_state \<Rightarrow> nat \<Rightarrow> bool" where
  "rc_inside s i \<longleftrightarrow> rc_pc s i \<noteq> Rc_out"

definition rc_inv :: "bool \<Rightarrow> nat \<Rightarrow> rc_state \<Rightarrow> bool" where
  "rc_inv owner n s \<longleftrightarrow> rc_count s = int (rc_total n s) \<and>
     rc_deleted s = (if rc_count s = 0 then 1 else 0) \<and> (\<forall>i. rc_pc s i \<noteq> Rc_swap 0) \<and>
     (owner \<longrightarrow> rc_thrown s = 0 \<and> (\<forall>i. rc_inside s i \<longrightarrow> i < n \<and> 0 < rc_refs s i \<and> rc_pc s i \<noteq> Rc_test 0))"

lemma rc_inv_owned: "rc_inv owner n s \<Longrightarrow> i < n \<Longrightarrow> 0 < rc_refs s i \<Longrightarrow> 0 < rc_count s"
  using total_pos [of i n "rc_refs s"] by (simp add: rc_inv_def rc_total_def del: of_nat_sum)

lemma rc_inv_start: "0 < n \<Longrightarrow> rc_inv owner n rc_init"
  using total_upd [of 0 n "\<lambda>i. 0" 1] by (simp add: rc_inv_def rc_init_def rc_total_def rc_inside_def)

lemma rc_goto_simps [simp]:
  "rc_count (rc_goto i p s) = rc_count s" "rc_refs (rc_goto i p s) = rc_refs s"
  "rc_thrown (rc_goto i p s) = rc_thrown s" "rc_deleted (rc_goto i p s) = rc_deleted s"
  "rc_pc (rc_goto i p s) = (rc_pc s)(i := p)"
  by (simp_all add: rc_goto_def)

lemma rc_inv_goto:
  assumes "rc_inv owner n s" "p \<noteq> Rc_swap 0"
    "owner \<Longrightarrow> p \<noteq> Rc_out \<Longrightarrow> i < n \<and> 0 < rc_refs s i \<and> p \<noteq> Rc_test 0"
  shows "rc_inv owner n (rc_goto i p s)"
  using assms by (auto simp: rc_inv_def rc_total_def rc_inside_def)

lemma rc_inv_step:
  assumes inv: "rc_inv owner n s" and step: "rc_step owner n s s'"
  shows "rc_inv owner n s'"
  using step
proof cases
  case (Rc_call i)
  with inv show ?thesis by (auto intro: rc_inv_goto)
next
  case (Rc_load i)
  show ?thesis unfolding Rc_load(1)
    by (rule rc_inv_goto [OF inv])
      (use inv rc_inv_owned [OF inv, of i] Rc_load in \<open>auto simp: rc_inv_def rc_inside_def\<close>)
next
  case (Rc_throw i c)
  have "\<not> owner"
  proof
    assume "owner"
    with inv have "rc_inside s i \<longrightarrow> rc_pc s i \<noteq> Rc_test 0" unfolding rc_inv_def by blast
    with Rc_throw show False by (simp add: rc_inside_def)
  qed
  with inv Rc_throw show ?thesis by (auto simp: rc_inv_def rc_total_def rc_inside_def)
next
  case (Rc_pass i c)
  show ?thesis unfolding Rc_pass(1)
    by (rule rc_inv_goto [OF inv]) (use inv Rc_pass in \<open>auto simp: rc_inv_def rc_inside_def\<close>)
next
  case (Rc_fail i c)
  show ?thesis unfolding Rc_fail(1)
    by (rule rc_inv_goto [OF inv])
      (use inv rc_inv_owned [OF inv, of i] Rc_fail in \<open>auto simp: rc_inv_def rc_inside_def\<close>)
next
  case (Rc_done i c)
  moreover have "0 \<le> rc_count s" using inv by (simp add: rc_inv_def)
  ultimately show ?thesis using inv total_inc [of i n "rc_refs s"]
    by (auto simp: rc_inv_def rc_total_def rc_inside_def)
next
  case (Rc_dec i)
  then have "Suc (rc_total n s') = rc_total n s"
    using total_dec [of i n "rc_refs s"] by (simp add: rc_total_def)
  with Rc_dec inv rc_inv_owned [OF inv Rc_dec(2,4)] show ?thesis
    by (auto simp: rc_inv_def rc_inside_def ref_count_dec_def)
next
  case (Rc_hand i j)
  let ?f = "(rc_refs s)(i := rc_refs s i - Suc 0)"
  have "(\<Sum>k<n. (?f(j := Suc (?f j))) k) = (\<Sum>k<n. rc_refs s k)"
    using total_inc [of j n ?f] total_dec [of i n "rc_refs s"] Rc_hand by simp
  with inv Rc_hand show ?thesis
    by (auto simp: rc_inv_def rc_total_def rc_inside_def)
qed

lemma rc_reach_inv: "rc_reach owner n s \<Longrightarrow> 0 < n \<Longrightarrow> rc_inv owner n s"
  by (induction rule: rc_reach.induct) (auto intro: rc_inv_start rc_inv_step)

text \<open>
  C16: Whatever the interleaving of copies and destructions by any number of threads, the count is
  always the number of references there are; \<open>dec()\<close> returns 0 exactly once, to the thread
  that gives up the last one, and from then on the count stays 0, an \<open>inc()\<close> in progress never
  brings it back. Threads that copy only variables of their own never see the exception,
  and none is inside \<open>inc()\<close> when the object is deleted.
\<close>

theorem ref_count_threads:
  assumes "rc_reach owner n s" "0 < n"
  shows "rc_count s = (\<Sum>i<n. int (rc_refs s i)) \<and> rc_deleted s = (if rc_count s = 0 then 1 else 0) \<and>
    (rc_count s = 0 \<longrightarrow> (\<forall>s'. rc_step owner n s s' \<longrightarrow> rc_count s' = 0)) \<and>
    (owner \<longrightarrow> rc_thrown s = 0 \<and> (rc_deleted s = 1 \<longrightarrow> (\<forall>i. \<not> rc_inside s i)))"
proof -
  note inv = rc_reach_inv [OF assms]
  have dead: "rc_count s' = 0" if "rc_count s = 0" "rc_step owner n s s'" for s'
    using that(2)
  proof cases
    case (Rc_dec i)
    with rc_inv_owned [OF inv Rc_dec(2,4)] that(1) show ?thesis by simp
  next
    case (Rc_done i c)
    with inv that(1) show ?thesis by (auto simp: rc_inv_def)
  qed (use that(1) in simp_all)
  have out: "\<not> rc_inside s i" if "owner" "rc_deleted s = 1" for i
  proof
    assume "rc_inside s i"
    with inv that(1) have "i < n" "0 < rc_refs s i" unfolding rc_inv_def by blast+
    from rc_inv_owned [OF inv this] that(2) inv show False by (simp add: rc_inv_def)
  qed
  have "rc_count s = (\<Sum>i<n. int (rc_refs s i))" "rc_deleted s = (if rc_count s = 0 then 1 else 0)"
    "owner \<Longrightarrow> rc_thrown s = 0"
    using inv by (simp_all add: rc_inv_def rc_total_def)
  then show ?thesis
  proof (intro conjI impI allI)
    show "rc_count s' = 0" if "rc_count s = 0" "rc_step owner n s s'" for s' by (rule dead [OF that])
    show "\<not> rc_inside s i" if "owner" "rc_deleted s = 1" for i by (rule out [OF that])
  qed assumption+
qed

text \<open>One thread gives up the only reference while another is about to exchange 1 for 2.\<close>

definition rc_race :: rc_state where
  "rc_race = \<lparr>rc_count = 0, rc_pc = (\<lambda>i. Rc_out)(1 := Rc_swap 1), rc_refs = (\<lambda>i. 0)(0 := 0),
     rc_thrown = 0, rc_deleted = 1\<rparr>"

lemma rc_race_reach: "rc_reach False 2 rc_race"
proof -
  note next1 = Rc_next [OF _ Rc_call [of 1]] and next2 = Rc_next [OF _ Rc_load [of 1]]
  have "rc_reach False 2 (rc_goto 1 Rc_load rc_init)"
    by (rule next1 [OF Rc_start]) (simp_all add: rc_init_def)
  then have "rc_reach False 2 (rc_goto 1 (Rc_test 1) (rc_goto 1 Rc_load rc_init))"
    using next2 [of False 2 "rc_goto 1 Rc_load rc_init"] by (simp add: rc_init_def)
  from Rc_next [OF this Rc_pass [of 1 2 _ 1]]
  have "rc_reach False 2 (rc_goto 1 (Rc_swap 1) (rc_goto 1 (Rc_test 1) (rc_goto 1 Rc_load rc_init)))"
    by simp
  from Rc_next [OF this Rc_dec [of 0]] show ?thesis
    by (simp add: rc_goto_def rc_init_def rc_race_def ref_count_dec_def fun_upd_twist)
qed

theorem ref_count_threads_witness:
  "rc_pc rc_race 1 = Rc_swap 1 \<and> rc_deleted rc_race = 1 \<and>
   rc_count (rc_goto 1 (Rc_test 0) rc_race) = 0"
  using ref_count_threads [OF rc_race_reach] by (simp add: rc_race_def)

end
