(* ===== verification/Uvcc_Termination.thy ===== *)
theory Uvcc_Termination
  imports Uvcc_Stream
begin

text \<open>
  The loops of the library that wait for libuv: the destructor of an event loop and the names of
  pipes. They end when libuv behaves as it documents, and the fuel of the model is enough then.
\<close>

section \<open>The destructor of a loop\<close>

abbreviation nowait :: "addr \<Rightarrow> event" where
  "nowait a \<equiv> Call ''uv_run'' [Ptr (Some a), Num (uv_run_mode_num UV_RUN_NOWAIT)]"

abbreviation uv_close_loop :: "addr \<Rightarrow> event" where
  "uv_close_loop a \<equiv> Call ''uv_loop_close'' [Ptr (Some a)]"

text \<open>
  \<open>uv_run()\<close> without blocking returns 0 when nothing is left to be done: the closing handles and
  the requests of a loop are dealt with after \<open>n\<close> rounds at most.
\<close>

definition drained_after :: "nat \<Rightarrow> env \<Rightarrow> addr \<Rightarrow> bool" where
  "drained_after n env a \<longleftrightarrow>
     (\<forall>tr. n \<le> count_list tr (nowait a) \<longrightarrow> uv_ret env tr (nowait a) = 0)"

lemma loop_set_error_emit:
  "loops w a = Some i \<Longrightarrow>
   loop_set_error a r (emit e w) = Inr (loop_put a (i\<lparr>l_uv_error := r\<rparr>) (emit e w))"
  by (rule loop_set_error_live(1)) (simp add: emit_def)

lemma premortal_run_ends:
  assumes "drained_after n env a" "loops w a \<noteq> None" "n < count_list (trace w) (nowait a) + fuel" "0 < fuel"
  shows "ok (only_loop a w) (premortal_run env fuel a w)"
  using assms(2-)
proof (induction fuel arbitrary: w)
  case (Suc fuel)
  obtain i where i: "loops w a = Some i" using Suc.prems(1) by blast
  let ?r = "uv_ret env (trace w) (nowait a)" and ?w = "emit (nowait a) w"
  let ?w' = "loop_put a (i\<lparr>l_uv_error := ?r\<rparr>) ?w"
  have i': "loops ?w a = Some i" using i by (simp add: emit_def)
  have o: "only_loop a w ?w'"
    by (rule only_loop_trans [OF only_loop_emit [OF i] loop_set_error_live(2) [OF i']])
  show ?case
  proof (cases "?r = 0")
    case True
    with o show ?thesis by (simp add: uv_def loop_set_error_emit [OF i])
  next
    case False
    then have "count_list (trace w) (nowait a) < n"
      using assms(1) unfolding drained_after_def by (meson not_le)
    with Suc.prems have "ok (only_loop a ?w') (premortal_run env fuel a ?w')"
      by (intro Suc.IH) (auto simp: emit_def loop_put_def)
    then have "ok (only_loop a w) (premortal_run env fuel a ?w')"
      by (rule ok_weaken) (rule only_loop_trans [OF o])
    with False show ?thesis by (simp add: uv_def loop_set_error_emit [OF i])
  qed
qed simp

text \<open>The number of handles found open by the destructor, in the 32 bits it is counted in.\<close>

definition open_handles :: "env \<Rightarrow> addr \<Rightarrow> world \<Rightarrow> 32 word" where
  "open_handles env a w =
     (let tr = trace w @ [uv_close_loop a];
          w' = w\<lparr>trace := tr @ [Call ''uv_walk'' [Ptr (Some a)]]\<rparr>
      in fst (count_open_handles env (uv_walked env tr a) 0 w'))"

lemma count_open_handles_trace:
  "trace w = trace w' \<Longrightarrow> fst (count_open_handles env hs n w) = fst (count_open_handles env hs n w')"
  by (induction hs arbitrary: n w w') (simp_all add: uv_def emit_def split_def)

text \<open>
  C17: The destructor of a loop comes to an end, whatever libuv answers to the attempts to close
  the loop, provided that it drains a closing loop in finitely many non-blocking runs: it
  returns, having changed nothing but the loop instance; or it throws \<open>std::logic_error\<close>
  when a handle has been left open and no exception is under way; or it throws \<open>std::runtime_error\<close> when
  libuv refuses to close the drained loop.
\<close>

theorem loop_dtor_ends:
  assumes "loops w a \<noteq> None" "drained_after n env a" "n < run_fuel env"
  shows "case loop_dtor env a w of
      Inl e \<Rightarrow> e = Logic_error \<and> open_handles env a w \<noteq> 0 \<and> \<not> unwinding env \<or>
        e = Runtime_error \<and> open_handles env a w = 0
    | Inr w' \<Rightarrow> only_loop a w w'"
proof (cases "loop_dtor env a w")
  case (Inr w')
  with loop_dtor_only [OF assms(1) Inr] show ?thesis by simp
next
  case (Inl e)
  obtain i where i: "loops w a = Some i" using assms(1) by blast
  let ?r = "uv_ret env (trace w) (uv_close_loop a)"
  let ?w1 = "loop_put a (i\<lparr>l_uv_error := ?r\<rparr>) (emit (uv_close_loop a) w)"
  let ?w2 = "emit (Call ''uv_walk'' [Ptr (Some a)]) ?w1"
  obtain m w3 where c: "count_open_handles env (uv_walked env (trace ?w1) a) 0 ?w2 = (m, w3)" by force
  have "loops ?w2 a \<noteq> None" by (simp add: emit_def loop_put_def)
  from only_loop_live [OF count_open_handles_only [OF this c]] have l3: "loops w3 a \<noteq> None" .
  have m: "open_handles env a w = m"
    using c count_open_handles_trace [of ?w2 "w\<lparr>trace := trace w @ [uv_close_loop a, Call ''uv_walk'' [Ptr (Some a)]]\<rparr>"
        env "uv_walked env (trace ?w1) a" 0]
    by (simp add: open_handles_def emit_def loop_put_def Let_def)
  from premortal_run_ends [OF assms(2) l3, of "run_fuel env"] assms(3) obtain w4 where
    w4: "premortal_run env (run_fuel env) a w3 = Inr w4" "only_loop a w3 w4"
    by (auto simp: ok_iff)
  obtain j where "loops w4 a = Some j" using only_loop_live [OF w4(2)] by blast
  from Inl c w4(1) show ?thesis
    by (auto simp: loop_dtor_def uv_def m loop_set_error_emit [OF i] loop_set_error_emit [OF \<open>loops w4 a = Some j\<close>]
        split: if_splits)
qed

text \<open>A loop that refuses to be closed until it has been run \<open>n\<close> times.\<close>

definition busy_env :: "nat \<Rightarrow> env" where
  "busy_env n = quiet_env\<lparr>run_fuel := n + 1, uv_ret := (\<lambda>tr e.
     if n \<le> count_list tr (nowait 0) then 0 else if e = nowait 0 then 1
     else if e = uv_close_loop 0 then -16 else 0)\<rparr>"

theorem loop_dtor_ends_witness:
  "loop_dtor (busy_env 1) 0 loop_world \<noteq> Inl Out_of_fuel"
proof -
  have "drained_after 1 (busy_env 1) 0"
    by (auto simp: drained_after_def busy_env_def)
  from loop_dtor_ends [OF _ this, of loop_world] show ?thesis
    by (auto simp: loop_world_def busy_env_def split: sum.splits)
qed

section \<open>The name of a pipe\<close>

text \<open>
  What libuv documents of \<open>uv_pipe_getsockname()\<close> and \<open>uv_pipe_getpeername()\<close>: where the name needs \<open>n\<close>
  bytes, the call is refused with \<^verbatim>\<open>UV_ENOBUFS\<close> exactly when there is less room, and stores \<open>n\<close> then.
\<close>

definition name_needs :: "64 word \<Rightarrow> env \<Rightarrow> string \<Rightarrow> addr \<Rightarrow> bool" where
  "name_needs n env f a \<longleftrightarrow> (\<forall>tr len. let e = Call f [Ptr (Some a), U64 len] in
     (uv_ret env tr e = UV_ENOBUFS \<longleftrightarrow> len < n) \<and> (len < n \<longrightarrow> uv_out env tr e = uint n))"

lemma pipe_name_round:
  assumes "winv E w" "handles w a = Some i" "name_needs n env f a"
  shows "ok (\<lambda>(l, w'). l = max len n \<and> winv E w' \<and> vars w' = vars w) (pipe_name_loop (Suc (Suc fuel)) env f a len w)"
proof -
  have last: "ok (\<lambda>(l, w'). l = k \<and> winv E w' \<and> vars w' = vars u) (pipe_name_loop (Suc fuel') env f a k u)"
    if "winv E u" "handles u a = Some j" "n \<le> k" for u j k fuel'
    using status_call_ok [OF that(1,2), of env f "[U64 k]"] assms(3) that(3)
    by (auto simp: name_needs_def ok_iff Let_def)
  show ?thesis
  proof (cases "len < n")
    case False
    then have "max len n = len" by simp
    with last [OF assms(1,2), of len "Suc fuel"] False show ?thesis by simp
  next
    case True
    then have m: "max len n = n" by simp
    from status_call_ok [OF assms(1,2), of env f "[U64 len]"] obtain r w1 j where
      c: "status_call env f a [U64 len] w = Inr (r, w1)" "r = uv_ret env (trace w) (Call f [Ptr (Some a), U64 len])"
      "winv E w1" "vars w1 = vars w" "handles w1 a = Some j"
      by (auto simp: ok_iff)
    from assms(3) True have "r = UV_ENOBUFS" "word_of_int (uv_out env (trace w) (Call f [Ptr (Some a), U64 len])) = n"
      by (auto simp: name_needs_def Let_def c(2))
    then have step: "pipe_name_loop (Suc (Suc fuel)) env f a len w = pipe_name_loop (Suc fuel) env f a n w1"
      using c(1) by (simp add: UV_ENOBUFS_def)
    from last [OF c(3,5) order_refl] show ?thesis
      unfolding step m c(4) by simp
  qed
qed

text \<open>
  C28: The loops that ask libuv for the name of a pipe until there is room for it end after the second
  round at most, with room for the whole name: the string returned has the length the name
  needs, or the 108 bytes of the first attempt where they are enough. The counts stay right.
\<close>

theorem pipe_names_end:
  assumes "winv E w" "handles w a = Some i" "2 \<le> fuel"
    "name_needs n env ''uv_pipe_getsockname'' a" "name_needs m env ''uv_pipe_getpeername'' a"
  shows "ok (\<lambda>(len, w'). len = max 108 n \<and> winv E w' \<and> vars w' = vars w) (pipe_getsockname fuel env a w) \<and>
    ok (\<lambda>(len, w'). len = max 108 m \<and> winv E w' \<and> vars w' = vars w) (pipe_getpeername fuel env a w)"
proof -
  from assms(3) obtain k where k: "fuel = Suc (Suc k)" by (metis add_2_eq_Suc le_Suc_ex)
  show ?thesis
    unfolding pipe_getsockname_def pipe_getpeername_def k
    using pipe_name_round [OF assms(1,2,4)] pipe_name_round [OF assms(1,2,5)] by simp
qed

text \<open>A name of 200 bytes.\<close>

definition long_name_env :: env where
  "long_name_env = quiet_env\<lparr>uv_ret := (\<lambda>tr e. case e of
      Call f [p, U64 len] \<Rightarrow> if len < 200 then UV_ENOBUFS else 0 | _ \<Rightarrow> 0), uv_out := (\<lambda>tr e. 200)\<rparr>"

theorem pipe_names_end_witness:
  "ok (\<lambda>(len, w'). len = 200 \<and> winv (\<lambda>_. 0) w' \<and> vars w' = vars stream_world)
     (pipe_getsockname 2 long_name_env 0 stream_world) \<and>
   ok (\<lambda>(len, w'). len = 200 \<and> winv (\<lambda>_. 0) w' \<and> vars w' = vars stream_world)
     (pipe_getpeername 2 long_name_env 0 stream_world)"
proof -
  have needs: "name_needs 200 long_name_env f 0" for f
    by (simp add: name_needs_def long_name_env_def UV_ENOBUFS_def Let_def)
  have h: "handles stream_world 0 = Some (stream_example Rd_UNKNOWN 1)"
    by (simp add: stream_world_def)
  from pipe_names_end [OF stream_world_winv h order_refl needs needs] show ?thesis by simp
qed

end
