(* ===== verification/Uvcc_Frame.thy ===== *)
theory Uvcc_Frame
  imports Uvcc_Pending
begin

text \<open>
  What the operations leave alone: the request structures and properties a pending operation
  relies on, and the program's variables. Unlike the lemmas on reference counts these hold whether
  or not the counts are right, of every operation that ends normally.
\<close>

section \<open>Requests and variables left alone\<close>

definition req_view :: "world \<Rightarrow> addr \<Rightarrow> (uv_req_struct \<times> req_properties) option" where
  "req_view w a = map_option (\<lambda>i. (r_uv i, r_props i)) (requests w a)"

definition fresh :: "world \<Rightarrow> bool" where
  "fresh w \<longleftrightarrow> (\<forall>v\<ge>nxt w. vars w v = None)"

text \<open>
  From \<open>w\<close> to \<open>w'\<close> no request but those in \<open>A\<close> has changed, though some may be gone, and no
  variable but those in \<open>V\<close>.
\<close>

definition steady :: "addr set \<Rightarrow> var set \<Rightarrow> world \<Rightarrow> world \<Rightarrow> bool" where
  "steady A V w w' \<longleftrightarrow> nxt w \<le> nxt w' \<and>
     (fresh w \<longrightarrow> fresh w' \<and> (\<forall>v. v \<notin> V \<longrightarrow> vars w' v = vars w v)) \<and>
     (\<forall>a<nxt w. a \<notin> A \<longrightarrow> req_view w' a = None \<or> req_view w' a = req_view w a)"

definition stays :: "addr set \<Rightarrow> var set \<Rightarrow> ('a \<Rightarrow> world) \<Rightarrow> world \<Rightarrow> 'a res \<Rightarrow> bool" where
  "stays A V g w r \<longleftrightarrow> (\<forall>x. r = Inr x \<longrightarrow> steady A V w (g x))"

named_theorems stays_intro \<open>operations that leave requests and variables alone\<close>
named_theorems stays_step \<open>the same for an operation that others follow\<close>

lemma steady_refl [simp]: "steady A V w w"
  by (simp add: steady_def)

lemma steady_trans:
  assumes 1: "steady A V w w1" and 2: "steady A V w1 w2"
  shows "steady A V w w2"
proof -
  have "req_view w2 a = None \<or> req_view w2 a = req_view w a" if "a < nxt w" "a \<notin> A" for a
  proof -
    have "a < nxt w1" using 1 that(1) by (simp add: steady_def)
    with 1 2 that show ?thesis unfolding steady_def by metis
  qed
  with 1 2 show ?thesis by (simp add: steady_def)
qed

lemma steady_mono: "steady A V w w' \<Longrightarrow> A \<subseteq> B \<Longrightarrow> V \<subseteq> U \<Longrightarrow> steady B U w w'"
  unfolding steady_def by blast

text \<open>A variable that is out of scope before and after has been a temporary one.\<close>

lemma steady_scope:
  "steady A (insert v V) w w' \<Longrightarrow> vars w' v = vars w v \<Longrightarrow> steady A V w w'"
  unfolding steady_def by (metis insertE)

lemma steady_vars: "steady A V w w' \<Longrightarrow> fresh w \<Longrightarrow> v \<notin> V \<Longrightarrow> vars w' v = vars w v"
  by (simp add: steady_def)

lemma steady_fresh: "steady A V w w' \<Longrightarrow> fresh w \<Longrightarrow> fresh w'"
  by (simp add: steady_def)

lemma winv_fresh: "winv E w \<Longrightarrow> fresh w"
  by (drule winv_bounded) (auto simp: fresh_def bounded_def linorder_not_less [symmetric])

text \<open>A request that is still there has kept its contents.\<close>

lemma steady_request:
  assumes "steady A V w w'" "winv E w" "requests w a = Some i" "requests w' a = Some j" "a \<notin> A"
  shows "r_uv j = r_uv i" "r_props j = r_props i"
proof -
  have "a < nxt w" using winv_bounded [OF assms(2)] assms(3) by (auto simp: bounded_def)
  with assms have "req_view w' a = req_view w a"
    unfolding steady_def by (auto simp: req_view_def)
  then show "r_uv j = r_uv i" "r_props j = r_props i" using assms(3,4) by (auto simp: req_view_def)
qed

lemma staysI: "(\<And>x. r = Inr x \<Longrightarrow> steady A V w (g x)) \<Longrightarrow> stays A V g w r"
  by (simp add: stays_def)

lemma staysD: "stays A V g w r \<Longrightarrow> r = Inr x \<Longrightarrow> steady A V w (g x)"
  by (simp add: stays_def)

lemma stays_mono: "stays A V g w r \<Longrightarrow> A \<subseteq> B \<Longrightarrow> V \<subseteq> U \<Longrightarrow> stays B U g w r"
  unfolding stays_def by (blast intro: steady_mono)

lemma stays_Inl [simp, stays_intro]: "stays A V g w (Inl e)"
  by (simp add: stays_def)

lemma stays_Inr: "stays A V g w (Inr x) = steady A V w (g x)"
  by (simp add: stays_def)

lemma stays_bind:
  "stays A V g w m \<Longrightarrow> (\<And>x. m = Inr x \<Longrightarrow> stays A V h (g x) (f x)) \<Longrightarrow> stays A V h w (rbind m f)"
  unfolding stays_def by (auto simp: rbind_eq_Inr intro: steady_trans)

text \<open>Reading changes nothing.\<close>

lemma stays_read: "(\<And>x. m = Inr x \<Longrightarrow> stays A V h w (f x)) \<Longrightarrow> stays A V h w (rbind m f)"
  unfolding stays_def by (auto simp: rbind_eq_Inr)

lemmas stays_reads [stays_step] = stays_read [where m = "request_at a w" for a w]
  stays_read [where m = "handle_at a w" for a w] stays_read [where m = "buffer_at a w" for a w]
  stays_read [where m = "deref p" for p] stays_read [where m = "var_load v w" for v w]

text \<open>Going on from another world.\<close>

lemma stays_from: "steady A V w w1 \<Longrightarrow> stays A V g w1 r \<Longrightarrow> stays A V g w r"
  unfolding stays_def by (blast intro: steady_trans)

section \<open>Elementary steps\<close>

definition apart :: "world \<Rightarrow> world \<Rightarrow> bool" where
  "apart w w' \<longleftrightarrow> requests w' = requests w \<and> vars w' = vars w \<and> nxt w' = nxt w"

lemma apart_trans: "apart w w1 \<Longrightarrow> apart w1 w2 \<Longrightarrow> apart w w2"
  by (simp add: apart_def)

lemma apart_steady: "apart w w' \<Longrightarrow> steady A V w w'"
  by (simp add: apart_def steady_def fresh_def req_view_def)

lemma apart_simps [simp]:
  "apart w w" "apart w (emit e w')= apart w w'" "apart w (handle_put a i w') = apart w w'"
  "apart w (loop_put a l w') = apart w w'" "apart w (buffer_put a b w') = apart w w'"
  "apart w (w'\<lparr>handles := hs\<rparr>) = apart w w'" "apart w (w'\<lparr>trace := tr\<rparr>) = apart w w'"
  "apart w (w'\<lparr>loops := ls\<rparr>) = apart w w'" "apart w (buffer_remove a w') = apart w w'"
  "apart w (loop_remove a w') = apart w w'"
  "apart (emit e w) w' = apart w w'" "apart (handle_put a i w) w' = apart w w'"
  "apart (loop_put a l w) w' = apart w w'" "apart (buffer_put a b w) w' = apart w w'"
  by (simp_all add: apart_def emit_def handle_put_def loop_put_def buffer_put_def buffer_remove_def
      loop_remove_def)

lemma apart_uv [simp]:
  "apart w (snd (uv env f args w')) = apart w w'" "apart (snd (uv env f args w)) w' = apart w w'"
  by (simp_all add: uv_def)

lemma apart_destroy_cb [simp]:
  "apart w (call_destroy_cb c w') = apart w w'" "apart (call_destroy_cb c w) w' = apart w w'"
  by (simp_all add: call_destroy_cb_def split: option.split)

lemma stays_apart: "(\<And>x. r = Inr x \<Longrightarrow> apart w (g x)) \<Longrightarrow> stays A V g w r"
  by (auto simp: stays_def intro: apart_steady)

text \<open>A new instance is at a new address.\<close>

lemma new_address_steady:
  assumes "nxt w \<le> nxt w'" "vars w' = vars w" "\<And>a. a < nxt w \<Longrightarrow> requests w' a = requests w a"
  shows "steady A V w w'"
  using assms by (auto simp: steady_def fresh_def req_view_def)

section \<open>Loops and handles\<close>

text \<open>What is done to loops and handles leaves the buffers alone too.\<close>

definition around :: "world \<Rightarrow> world \<Rightarrow> bool" where
  "around w w' \<longleftrightarrow> apart w w' \<and> buffers w' = buffers w"

lemma around_trans: "around w w1 \<Longrightarrow> around w1 w2 \<Longrightarrow> around w w2"
  by (auto simp: around_def intro: apart_trans)

lemma around_simps [simp]:
  "around w w" "around w (emit e w') = around w w'" "around w (handle_put a i w') = around w w'"
  "around w (loop_put a l w') = around w w'" "around w (w'\<lparr>handles := hs\<rparr>) = around w w'"
  "around w (loop_remove a w') = around w w'" "around w (snd (uv env f args w')) = around w w'"
  "around w (call_destroy_cb c w') = around w w'"
  "around (handle_put a i w) w' = around w w'" "around (emit e w) w' = around w w'"
  "around (snd (uv env f args w)) w' = around w w'" "around (call_destroy_cb c w) w' = around w w'"
  by (simp_all add: around_def apart_def emit_def handle_put_def loop_put_def loop_remove_def uv_def
      call_destroy_cb_def split: option.split)

lemma stays_around: "(\<And>x. r = Inr x \<Longrightarrow> around w (g x)) \<Longrightarrow> stays A V g w r"
  by (rule stays_apart) (simp add: around_def)

lemma loop_ref_around: "loop_ref l w = Inr w' \<Longrightarrow> around w w'"
  by (auto simp: loop_ref_def rbind_eq_Inr)

lemma loop_unref_around: "loop_unref env l w = Inr w' \<Longrightarrow> around w w'"
proof -
  have only: "only_loop l u u' \<Longrightarrow> around u u'" for u u'
    by (auto simp: only_loop_def around_def apart_def)
  assume run: "loop_unref env l w = Inr w'"
  then obtain i where i: "loops w l = Some i"
    by (auto simp: loop_unref_def rbind_eq_Inr loop_at_def split: option.splits)
  show ?thesis
  proof (cases "l_refs i = 1")
    case False
    with run i show ?thesis
      by (auto simp: loop_unref_def loop_at_def ref_count_dec_def Let_def)
  next
    case True
    let ?w = "loop_put l (i\<lparr>l_refs := 0\<rparr>) w"
    from True run i obtain u where u: "loop_dtor env l (call_destroy_cb (l_destroy_cb i) ?w) = Inr u"
      "w' = loop_remove l u"
      by (auto simp: loop_unref_def loop_destroy_def loop_at_def ref_count_dec_def Let_def rbind_eq_Inr
          store_simps)
    have "loops (call_destroy_cb (l_destroy_cb i) ?w) l \<noteq> None"
      by (auto simp: call_destroy_cb_def emit_def store_simps split: option.split)
    from only [OF loop_dtor_only [OF this u(1)]] show ?thesis
      by (auto simp: u(2) intro: around_trans [rotated])
  qed
qed

lemma handle_mod_around: "handle_mod a f w = Inr w' \<Longrightarrow> around w w'"
  by (auto simp: handle_mod_def rbind_eq_Inr)

lemma handle_set_status_around: "handle_set_status a r w = Inr w' \<Longrightarrow> around w w'"
  by (simp add: handle_set_status_def handle_mod_around)

lemma uv_on_handle_around: "uv_on_handle env f a args w = Inr (r, w') \<Longrightarrow> around w w'"
  by (auto simp: uv_on_handle_def Let_def rbind_eq_Inr)

lemma unbook_loop_around: "unbook_loop env a w = Inr w' \<Longrightarrow> around w w'"
  by (auto simp: unbook_loop_def rbind_eq_Inr split: option.splits
      dest!: loop_unref_around handle_mod_around intro: around_trans)

lemma book_loop_around: "book_loop env a w = Inr w' \<Longrightarrow> around w w'"
  by (auto simp: book_loop_def rbind_eq_Inr dest!: unbook_loop_around loop_ref_around intro: around_trans)

lemma handle_delete_around: "handle_delete env a w = Inr w' \<Longrightarrow> around w w'"
  by (auto simp: handle_delete_def rbind_eq_Inr dest: unbook_loop_around)

lemma handle_close_around: "handle_close env a w = Inr w' \<Longrightarrow> around w w'"
  by (auto simp: handle_close_def uv_fs_close_def uv_handle_close_def close_cb_def Let_def rbind_eq_Inr
      split: if_splits
      dest!: handle_delete_around uv_on_handle_around intro: around_trans)

lemma handle_ref_around: "handle_ref a w = Inr w' \<Longrightarrow> around w w'"
  by (auto simp: handle_ref_def rbind_eq_Inr)

lemma handle_unref_around: "handle_unref env a w = Inr w' \<Longrightarrow> around w w'"
  by (auto simp: handle_unref_def Let_def rbind_eq_Inr split: if_splits
      dest!: handle_close_around intro: around_trans [rotated])

lemma loop_ref_stays [stays_intro]: "stays A V (\<lambda>w. w) w (loop_ref l w)"
  by (rule stays_around) (rule loop_ref_around)

lemma loop_unref_stays [stays_intro]: "stays A V (\<lambda>w. w) w (loop_unref env l w)"
  by (rule stays_around) (rule loop_unref_around)

lemma handle_ref_stays [stays_intro]: "stays A V (\<lambda>w. w) w (handle_ref a w)"
  by (rule stays_around) (rule handle_ref_around)

lemma handle_unref_stays [stays_intro]: "stays A V (\<lambda>w. w) w (handle_unref env a w)"
  by (rule stays_around) (rule handle_unref_around)

lemma handle_set_status_stays [stays_intro]: "stays A V (\<lambda>w. w) w (handle_set_status a r w)"
  by (rule stays_around) (rule handle_set_status_around)

lemma book_loop_stays [stays_intro]: "stays A V (\<lambda>w. w) w (book_loop env a w)"
  by (rule stays_around) (rule book_loop_around)

section \<open>Temporary variables\<close>

lemma steady_var_store: "v \<in> V \<Longrightarrow> steady A V w (var_store v p w)"
  by (auto simp: steady_def fresh_def var_store_def req_view_def)

lemma steady_var_drop: "v \<in> V \<Longrightarrow> steady A V w (var_drop v w)"
  by (auto simp: steady_def fresh_def var_drop_def req_view_def)

text \<open>The next variable to be created is not in use; if it is gone again nothing has changed.\<close>

lemma steady_temp:
  assumes "steady A (insert (nxt w) V) w w'" "fresh w \<Longrightarrow> vars w' (nxt w) = None"
  shows "steady A V w w'"
proof (cases "fresh w")
  case True
  then have "vars w' (nxt w) = vars w (nxt w)"
    using assms(2) by (simp add: fresh_def)
  with assms(1) show ?thesis by (rule steady_scope)
next
  case False
  with assms(1) show ?thesis by (simp add: steady_def)
qed

text \<open>The destructor of a variable, for a class whose \<open>unref\<close> changes nothing else.\<close>

lemma sp_dtor_stays:
  assumes "\<And>q w. stays A V (\<lambda>w. w) w (unref q w)" "v \<in> V"
  shows "stays A V (\<lambda>w. w) w (sp_dtor unref v w)"
  unfolding sp_dtor_def Let_def
  by (rule stays_read, rule stays_from [OF steady_var_drop [OF assms(2)]])
    (simp add: assms(1) stays_Inr split: option.split)

lemma sp_dtor_gone:
  assumes "\<And>q w. stays {} {} (\<lambda>w. w) w (unref q w)" "sp_dtor unref v w = Inr w'" "fresh w"
  shows "vars w' v = None"
proof -
  have "fresh (var_drop v w)" using assms(3) by (simp add: fresh_def var_drop_def)
  with assms(2) show ?thesis
    by (auto simp: sp_dtor_def Let_def rbind_eq_Inr store_simps split: option.splits
        dest!: staysD [OF assms(1)] steady_vars [where v = v])
qed

lemma scope_closed:
  assumes "\<And>B U q w. stays B U (\<lambda>w. w) w (unref q w)" "steady A (insert (nxt w) V) (var_store (nxt w) p w) w1"
    "sp_dtor unref (nxt w) w1 = Inr w'"
  shows "steady A V w w'"
proof (rule steady_temp)
  have s1: "steady A (insert (nxt w) V) w w1"
    by (rule steady_trans [OF steady_var_store assms(2)]) simp
  show "steady A (insert (nxt w) V) w w'"
    by (rule steady_trans [OF s1 staysD [OF sp_dtor_stays [OF assms(1)] assms(3)]]) simp
  assume "fresh w"
  then have "fresh w1" by (rule steady_fresh [OF s1])
  then show "vars w' (nxt w) = None" by (rule sp_dtor_gone [OF assms(1,3)])
qed

text \<open>A block that creates a variable, runs, and destroys it.\<close>

lemma scoped_stays:
  assumes "\<And>B U q w. stays B U (\<lambda>w. w) w (unref q w)" "stays A (insert (nxt w) V) (\<lambda>w. w) (var_store (nxt w) p w) m"
  shows "stays A V (\<lambda>w. w) w (rbind m (sp_dtor unref (nxt w)))"
proof (rule staysI)
  fix w' assume "rbind m (sp_dtor unref (nxt w)) = Inr w'"
  then obtain w1 where "m = Inr w1" "sp_dtor unref (nxt w) w1 = Inr w'" by (auto simp: rbind_eq_Inr)
  with scope_closed [OF assms(1) staysD [OF assms(2)]] show "steady A V w w'" by simp
qed

section \<open>Buffers, requests and the client\<close>

text \<open>
  A callback of the client may create variables of its own, but is done with them when it
  returns; it does not touch the variables of others nor start a request again that is pending.
\<close>

definition bystanders :: "env \<Rightarrow> bool" where
  "bystanders env \<longleftrightarrow> (\<forall>c vs args w. stays {} (set vs) (\<lambda>w. w) w (usr env c vs args w))"

lemma usr_stays: "bystanders env \<Longrightarrow> set vs \<subseteq> V \<Longrightarrow> stays A V (\<lambda>w. w) w (usr env c vs args w)"
  unfolding bystanders_def by (blast intro: stays_mono)

lemma buffer_ref_stays [stays_intro]: "stays A V (\<lambda>w. w) w (buffer_ref b w)"
  by (rule stays_apart) (auto simp: buffer_ref_def rbind_eq_Inr)

lemma buffer_destroy_stays:
  assumes "bystanders env"
  shows "stays A V (\<lambda>w. w) w (buffer_destroy env b w)"
proof (rule staysI)
  fix w' assume run: "buffer_destroy env b w = Inr w'"
  then obtain i where i: "buffers w b = Some i"
    by (auto simp: buffer_destroy_def rbind_eq_Inr buffer_at_def split: option.splits)
  show "steady A V w w'"
  proof (cases "b_sink_cb i")
    case None
    with run i show ?thesis by (auto simp: buffer_destroy_def intro: apart_steady)
  next
    case (Some c)
    let ?w = "buffer_put b (i\<lparr>b_refs := 1\<rparr>) w"
    let ?s = "var_store (nxt w) (Some (BufferO b)) ?w"
    from run i Some obtain w1 where w1: "usr env c [nxt w] [] ?s = Inr w1"
      and w': "apart (var_drop (nxt w) w1) w'"
      by (auto simp: buffer_destroy_def var_new_store Let_def rbind_eq_Inr store_simps split: if_splits)
    note trans = steady_trans [of A "insert (nxt w) V"]
    have "steady A (insert (nxt w) V) w ?s"
      by (rule trans [OF apart_steady steady_var_store]) simp_all
    moreover have "steady A (insert (nxt w) V) ?s w1"
      by (rule staysD [OF usr_stays [OF assms] w1]) simp
    moreover have "steady A (insert (nxt w) V) w1 w'"
      by (rule trans [OF steady_var_drop apart_steady [OF w']]) simp
    moreover have "vars w' (nxt w) = None" using w' by (simp add: apart_def store_simps)
    ultimately show ?thesis by (blast intro: steady_temp trans)
  qed
qed

lemma buffer_unref_stays [stays_intro]:
  assumes "bystanders env"
  shows "stays A V (\<lambda>w. w) w (buffer_unref env b w)"
  unfolding buffer_unref_def Let_def
proof (rule stays_read)
  fix i
  have put: "steady A V w (buffer_put b (i\<lparr>b_refs := ref_count_dec (b_refs i)\<rparr>) w)"
    by (simp add: apart_steady)
  then show "stays A V (\<lambda>w. w) w (if ref_count_dec (b_refs i) = 0
      then buffer_destroy env b (buffer_put b (i\<lparr>b_refs := ref_count_dec (b_refs i)\<rparr>) w)
      else Inr (buffer_put b (i\<lparr>b_refs := ref_count_dec (b_refs i)\<rparr>) w))"
    using stays_from [OF put buffer_destroy_stays [OF assms]]
    by (simp only: stays_Inr split: if_split) simp
qed

text \<open>Of a request its reference count and status change, and with the last reference it goes.\<close>

lemma steady_request_put:
  assumes "requests w a = Some i" "a \<in> A \<or> (r_uv j = r_uv i \<and> r_props j = r_props i)"
  shows "steady A V w (request_put a j w)"
  using assms by (auto simp: steady_def fresh_def req_view_def request_put_def)

lemma request_mod_stays:
  assumes "\<And>i. a \<in> A \<or> (r_uv (f i) = r_uv i \<and> r_props (f i) = r_props i)"
  shows "stays A V (\<lambda>w. w) w (request_mod a f w)"
  by (rule staysI) (use assms in \<open>auto simp: request_mod_def request_at_def rbind_eq_Inr
    intro: steady_request_put split: option.splits\<close>)

lemma request_ref_stays [stays_intro]: "stays A V (\<lambda>w. w) w (request_ref a w)"
  by (rule staysI) (auto simp: request_ref_def request_at_def rbind_eq_Inr
    intro: steady_request_put split: option.splits)

lemma request_unref_stays [stays_intro]: "stays A V (\<lambda>w. w) w (request_unref env a w)"
proof (rule staysI)
  fix w' assume run: "request_unref env a w = Inr w'"
  then obtain i where i: "requests w a = Some i"
    by (auto simp: request_unref_def rbind_eq_Inr request_at_def split: option.splits)
  from request_unref_effect [OF i, of env] run show "steady A V w w'"
    using i by (auto simp: steady_def fresh_def req_view_def)
qed

lemma request_set_status_stays [stays_intro]: "stays A V (\<lambda>w. w) w (request_set_status a r w)"
  unfolding request_set_status_def by (rule request_mod_stays) simp

lemma request_set_cb_stays: "stays A V (\<lambda>w. w) w (request_set_cb a c w)"
  unfolding request_set_cb_def by (rule request_mod_stays) simp

lemma props_mod_stays [stays_intro]: "a \<in> A \<Longrightarrow> stays A V (\<lambda>w. w) w (props_mod a f w)"
  unfolding props_mod_def by (rule request_mod_stays) simp

lemma uv_on_request_stays [stays_intro]:
  "a \<in> A \<Longrightarrow> stays A V snd w (uv_on_request env f a args w)"
proof (rule staysI)
  fix x assume a: "a \<in> A" and run: "uv_on_request env f a args w = Inr x"
  then obtain i e where i: "requests w a = Some i"
    "snd x = emit e (request_put a (i\<lparr>r_uv := uv_req_eff env (trace w) e (r_uv i)\<rparr>) w)"
    by (auto simp: uv_on_request_def Let_def rbind_eq_Inr request_at_def split: option.splits)
  show "steady A V w (snd x)"
    unfolding i(2) by (rule steady_trans [OF steady_request_put [OF i(1)]
      apart_steady [OF apart_simps(2) [THEN iffD2, OF apart_simps(1)]]]) (simp add: a)
qed

section \<open>Runs and completion handlers\<close>

lemma obj_unref_stays:
  "stays A V (\<lambda>w. w) w (request_obj_unref env q w)" "stays A V (\<lambda>w. w) w (handle_obj_unref env q w)"
  "bystanders env \<Longrightarrow> stays A V (\<lambda>w. w) w (buffer_obj_unref env q w)"
  by (cases q; simp add: request_unref_stays handle_unref_stays buffer_unref_stays)+

lemma with_request_stays:
  assumes "\<And>v w. stays A (insert v V) (\<lambda>w. w) w (k v w)"
  shows "stays A V (\<lambda>w. w) w (with_request env a k w)"
  unfolding with_request_def var_new_store Let_def prod.case request_var_dtor_def
  by (rule stays_bind [OF request_ref_stays], rule scoped_stays [OF obj_unref_stays(1) assms])

lemma with_handle_stays:
  assumes "\<And>v w. stays A (insert v V) (\<lambda>w. w) w (k v w)"
  shows "stays A V (\<lambda>w. w) w (with_handle env a k w)"
  unfolding with_handle_def var_new_store Let_def prod.case handle_var_dtor_def
  by (rule stays_bind [OF handle_ref_stays], rule scoped_stays [OF obj_unref_stays(2) assms])

lemma with_buffer_stays:
  assumes "bystanders env" "\<And>v w. stays A (insert v V) (\<lambda>w. w) w (k v w)"
  shows "stays A V (\<lambda>w. w) w (with_buffer env b k w)"
  unfolding with_buffer_def var_new_store Let_def prod.case buffer_var_dtor_def
  by (rule scoped_stays [OF obj_unref_stays(3) [OF assms(1)] assms(2)])

lemma request_try_stays:
  assumes "\<And>w. stays A V snd w (call w)" "\<And>w. stays A V (\<lambda>w. w) w (release w)"
  shows "stays A V snd w (request_try env a call release w)"
  unfolding request_try_def
  by (rule stays_bind [OF request_set_status_stays], rule stays_bind [OF assms(1)])
    (auto simp: stays_Inr split: prod.split
      intro!: stays_bind [OF request_set_status_stays] stays_bind [OF assms(2)] stays_bind [OF request_unref_stays])

lemma request_fire_stays:
  assumes "bystanders env"
  shows "stays A V (\<lambda>w. w) w (request_fire env a w)"
  unfolding request_fire_def
  by (rule stays_read) (auto simp: stays_Inr split: option.split
    intro!: with_request_stays usr_stays [OF assms])

lemma request_fire_buffer_stays:
  assumes "bystanders env"
  shows "stays A V (\<lambda>w. w) w (request_fire_buffer env a w)"
  unfolding request_fire_buffer_def var_new_store Let_def prod.case
proof (rule stays_read, simp only: split: option.split, intro conjI allI impI)
  fix i :: req_instance
  show "stays A V (\<lambda>w. w) w (rbind (deref (p_buf (r_props i))) (\<lambda>b. buffer_unref env b w))"
    by (rule stays_read) (rule buffer_unref_stays [OF assms])
  fix c
  show "stays A V (\<lambda>w. w) w (rbind (with_request env a (\<lambda>v. usr env c [v, nxt w] [])
      (var_store (nxt w) (map_option BufferO (p_buf (r_props i))) w)) (buffer_var_dtor env (nxt w)))"
    unfolding buffer_var_dtor_def
    by (rule scoped_stays [OF obj_unref_stays(3) [OF assms]]) (auto intro!: with_request_stays usr_stays [OF assms])
qed

lemma guarded_stays:
  assumes "stays A V (\<lambda>w. w) w (body w)" "\<And>w. stays A V (\<lambda>w. w) w (rest w)"
  shows "stays A V (\<lambda>w. w) w (guarded env a body rest w)"
  unfolding guarded_def
  by (rule stays_bind [OF assms(1)], rule stays_bind [OF request_unref_stays], rule assms(2))

end
