(* ===== verification/Uvcc_Run_Frame.thy ===== *)
theory Uvcc_Run_Frame
  imports Uvcc_Frame Uvcc_Net_Request Uvcc_Fs_Proofs
begin

text \<open>
  What the runs of the requests and their completion handlers leave alone: a run changes the
  contents of its own request only, a handler those of none.
\<close>

section \<open>Steps\<close>

lemmas run_steps [stays_step] =
  stays_bind [OF handle_ref_stays] stays_bind [OF handle_unref_stays] stays_bind [OF buffer_ref_stays]
  stays_bind [OF buffer_unref_stays] stays_bind [OF request_ref_stays] stays_bind [OF request_unref_stays]
  stays_bind [OF request_set_status_stays] stays_bind [OF handle_set_status_stays]
  stays_bind [OF props_mod_stays] stays_bind [OF uv_on_request_stays]

lemmas run_reads [stays_step] = stays_read [where m = "buffer_count b w" for b w]
  stays_read [where m = "init_storage_from m" for m] stays_read [where m = "write_size b w" for b w]
  stays_read [where m = "file_fd h w" for h w] stays_read [where m = "handle_type h w" for h w]

lemma file_mod_stays [stays_intro]: "stays A V (\<lambda>w. w) w (file_mod h f w)"
  by (rule stays_around) (auto simp: file_mod_def handle_mod_around)

lemma uv_on_handle_stays [stays_intro]: "stays A V snd w (uv_on_handle env f a args w)"
  by (rule stays_around) (auto dest: uv_on_handle_around)

lemma request_return_stays [stays_intro]:
  "steady A V w (snd x) \<Longrightarrow> stays A V snd w (request_return_status a x)"
  by (cases x) (auto simp: request_return_status_def stays_Inr
    intro!: stays_from [of A V w "snd x"] stays_bind [OF request_set_status_stays])

lemma fs_req_cleanup_stays [stays_intro]: "a \<in> A \<Longrightarrow> stays A V (\<lambda>w. w) w (fs_req_cleanup env a w)"
  unfolding fs_req_cleanup_def
  by (rule stays_bind [OF uv_on_request_stays]) (auto simp: stays_Inr)

lemma file_offset_stays [stays_intro]: "stays A V snd w (file_offset env h offset w)"
  by (auto simp: file_offset_def uv_def stays_Inr apart_steady intro!: stays_reads run_reads)

lemma file_call_stays [stays_intro]: "a \<in> A \<Longrightarrow> stays A V snd w (file_call env f a h args cb w)"
  by (auto simp: file_call_def intro!: stays_reads stays_intro)

lemma file_buffer_call_stays [stays_intro]:
  "a \<in> A \<Longrightarrow> stays A V snd w (file_buffer_call env f a h b offset cb w)"
  by (auto simp: file_buffer_call_def intro!: run_reads stays_intro)

lemma sendfile_call_stays [stays_intro]:
  "a \<in> A \<Longrightarrow> stays A V snd w (sendfile_call env a fd h offset n cb w)"
  by (auto simp: sendfile_call_def intro!: stays_reads stays_intro)

lemma out_queue_stays [stays_intro]:
  "stays A V (\<lambda>w. w) w (out_queue_add h n w)" "stays A V (\<lambda>w. w) w (out_queue_sub h n w)"
  by (auto simp: out_queue_add_def out_queue_sub_def stays_Inr intro!: run_reads stays_intro)

lemma sendfile_out_stays [stays_intro]: "stays A V snd w (sendfile_out env h w)"
proof -
  have "stays A V snd w (handle_fileno env h w)"
    by (auto simp: handle_fileno_def iface_fileno_def Let_def rbind_assoc stays_Inr split: if_splits
      intro!: stays_reads stays_bind [OF uv_on_handle_stays] run_steps)
  then show ?thesis by (auto simp: sendfile_out_def stays_Inr intro!: run_reads)
qed

lemma request_status_call_stays [stays_intro]:
  "a \<in> A \<Longrightarrow> stays A V snd w (request_status_call env f a args w)"
  unfolding request_status_call_def
  by (rule stays_bind [OF uv_on_request_stays]) (auto intro: stays_intro)

lemmas fs_steps [stays_step] =
  stays_bind [OF file_mod_stays] stays_bind [OF fs_req_cleanup_stays] stays_bind [OF file_offset_stays]
  stays_bind [OF file_call_stays] stays_bind [OF file_buffer_call_stays] stays_bind [OF sendfile_call_stays]
  stays_bind [OF out_queue_stays(1)] stays_bind [OF out_queue_stays(2)] stays_bind [OF sendfile_out_stays]

text \<open>The reading commands, here of a file about to be closed, concern the handle only.\<close>

lemma io_mod_stays [stays_intro]: "stays A V (\<lambda>w. w) w (io_mod a f w)"
  by (rule stays_around) (auto simp: io_mod_def handle_mod_around)

lemma iface_read_stop_stays [stays_intro]: "stays A V snd w (iface_read_stop env a w)"
  unfolding iface_read_stop_def
proof (rule stays_read)
  fix i
  show "stays A V snd w (case h_iface i of If_handle \<Rightarrow> Inl Bad_cast
       | If_stream \<Rightarrow> uv_on_handle env ''uv_read_stop'' a [] w
       | If_udp \<Rightarrow> uv_on_handle env ''uv_udp_recv_stop'' a [] w
       | If_file \<Rightarrow> Inr (0, w))"
    by (cases "h_iface i") (simp_all add: uv_on_handle_stays stays_Inr)
qed

lemma read_stop_stays [stays_intro]: "stays A V snd w (read_stop env a w)"
proof -
  have body: "stays A V snd w (read_stop_body env a w)" for w
    by (auto simp: read_stop_body_def Let_def stays_Inr split: rdcmd.split
      intro!: stays_reads stays_bind [OF io_mod_stays] stays_bind [OF iface_read_stop_stays]
        stays_bind [OF handle_set_status_stays] stays_bind [where g = "\<lambda>w. w"]
        handle_set_status_stays handle_unref_stays)
  show ?thesis
    by (auto simp: read_stop_def locked_def rdstate_lock_def rdstate_unlock_def rbind_assoc stays_Inr
      intro!: stays_reads stays_bind [OF io_mod_stays] stays_bind [OF body])
qed

lemmas read_steps [stays_step] = stays_bind [OF read_stop_stays] stays_bind [OF io_mod_stays]

section \<open>Runs\<close>

lemma net_runs_stay:
  assumes "bystanders env"
  shows "stays {a} V snd w (connect_run env a h x w)" "stays {a} V snd w (shutdown_run env a h w)"
    "stays {a} V snd w (write_run env a h b w)" "stays {a} V snd w (write_run_send env a h b s w)"
    "stays {a} V snd w (udp_send_run env a h b sa w)"
  unfolding connect_run_def shutdown_run_def write_run_def write_run_send_def udp_send_run_def
  by (auto split: prod.split intro!: stays_step stays_intro request_try_stays assms)

lemma work_run_stays: "stays {a} V snd w (work_run env a l c w)"
  unfolding work_run_def
  by (auto simp: stays_Inr intro!: stays_step stays_intro request_try_stays)

lemma name_runs_stay:
  "stays {a} V snd w (getaddrinfo_run env a l host service hints w)"
  "stays {a} V snd w (getnameinfo_run env a l sockaddr flags w)"
proof -
  have rest: "stays {a} V snd w (if c then request_status_call env f a args w
      else rbind (request_ref a w) (request_try env a (uv_on_request env f a args') Inr))" for c w f args args'
    by (auto simp: stays_Inr intro!: stays_step stays_intro request_try_stays)
  show "stays {a} V snd w (getaddrinfo_run env a l host service hints w)"
    unfolding getaddrinfo_run_def uv_def Let_def prod.case
    by (intro stays_reads stays_from [OF apart_steady rest]) simp
  show "stays {a} V snd w (getnameinfo_run env a l sockaddr flags w)"
    unfolding getnameinfo_run_def by (intro stays_reads rest)
qed

lemma fs_runs_stay:
  assumes "bystanders env"
  shows "stays {a} V snd w (fs_file_run env f a h upd args w)"
    "stays {a} V snd w (fs_path_run env f a l args w)"
    "stays {a} V snd w (fs_path_run_nofile env f a l args w)"
    "stays {a} V snd w (fs_close_run env a h w)" "stays {a} V snd w (fs_truncate_run env a h offset w)"
    "stays {a} V snd w (fs_read_run env a h b offset w)" "stays {a} V snd w (fs_write_run env a h b offset w)"
    "stays {a} V snd w (fs_sendfile_run env a out h offset n w)"
  unfolding fs_file_run_def fs_path_run_def fs_path_run_nofile_def fs_close_run_def fs_truncate_run_def
    fs_read_run_def fs_read_at_def fs_write_run_def fs_write_at_def fs_sendfile_run_def fs_sendfile_at_def
  by (auto simp: stays_Inr split: prod.split intro!: stays_step stays_intro request_try_stays assms)

section \<open>Completion handlers\<close>

lemma status_guarded_stays:
  assumes "\<And>w. stays A V (\<lambda>w. w) w (pre w)" "\<And>w i. stays A V (\<lambda>w. w) w (rest i w)"
  shows "stays A V (\<lambda>w. w) w (rbind (pre w) (\<lambda>w. rbind (request_at a w) (\<lambda>i. rest i w)))"
  by (rule stays_bind [OF assms(1)]) (intro stays_reads assms(2))

lemma net_handlers_stay:
  assumes "bystanders env"
  shows "stays A V (\<lambda>w. w) w (connect_cb env a status w)" "stays A V (\<lambda>w. w) w (shutdown_cb env a status w)"
    "stays A V (\<lambda>w. w) w (write_cb env a status w)" "stays A V (\<lambda>w. w) w (udp_send_cb env a status w)"
    "stays A V (\<lambda>w. w) w (write2_cb env a status w)"
proof -
  note fire = request_fire_stays [OF assms] request_fire_buffer_stays [OF assms]
  show w: "stays A V (\<lambda>w. w) w (write_cb env a status w)" for w
    unfolding write_cb_def
    by (intro status_guarded_stays request_set_status_stays stays_reads guarded_stays fire handle_unref_stays)
  show "stays A V (\<lambda>w. w) w (connect_cb env a status w)" "stays A V (\<lambda>w. w) w (shutdown_cb env a status w)"
    "stays A V (\<lambda>w. w) w (udp_send_cb env a status w)"
    unfolding connect_cb_def shutdown_cb_def udp_send_cb_def
    by (intro status_guarded_stays request_set_status_stays stays_reads guarded_stays fire handle_unref_stays)+
  show "stays A V (\<lambda>w. w) w (write2_cb env a status w)"
    unfolding write2_cb_def by (intro stays_reads stays_bind [OF w] handle_unref_stays)
qed

lemma work_handlers_stay:
  assumes "bystanders env"
  shows "stays {a} V (\<lambda>w. w) w (work_cb env a w)" "stays A V (\<lambda>w. w) w (after_work_cb env a status w)"
    "stays A V (\<lambda>w. w) w (getaddrinfo_cb env a status w)" "stays A V (\<lambda>w. w) w (getnameinfo_cb env a status w)"
proof -
  show "stays {a} V (\<lambda>w. w) w (work_cb env a w)"
    unfolding work_cb_def
    by (auto simp: stays_Inr split: option.split
      intro!: stays_reads stays_bind [OF usr_stays [OF assms]] props_mod_stays)
  have "stays A V (\<lambda>w. w) w (rbind (request_set_status a status w) (guarded env a (request_fire env a) Inr))"
    by (intro stays_bind [OF request_set_status_stays] guarded_stays request_fire_stays [OF assms])
      (simp add: stays_Inr)
  then show "stays A V (\<lambda>w. w) w (after_work_cb env a status w)"
    "stays A V (\<lambda>w. w) w (getaddrinfo_cb env a status w)" "stays A V (\<lambda>w. w) w (getnameinfo_cb env a status w)"
    by (simp_all add: after_work_cb_def getaddrinfo_cb_def getnameinfo_cb_def)
qed

lemma fs_result_status_stays: "stays A V (\<lambda>w. w) w (fs_result_status a w)"
  unfolding fs_result_status_def by (rule request_mod_stays) simp

lemma fs_handlers_stay:
  assumes "bystanders env"
  shows "stays A V (\<lambda>w. w) w (fs_file_cb env a w)" "stays A V (\<lambda>w. w) w (fs_either_cb env a w)"
    "stays A V (\<lambda>w. w) w (fs_path_cb env a w)" "stays A V (\<lambda>w. w) w (fs_read_cb env a w)"
    "stays A V (\<lambda>w. w) w (fs_write_cb env a w)" "stays A V (\<lambda>w. w) w (fs_sendfile_cb env a w)"
  unfolding fs_file_cb_def fs_either_cb_def fs_path_cb_def fs_read_cb_def fs_write_cb_def fs_sendfile_cb_def
  by (auto simp: stays_Inr split: option.split
    intro!: stays_bind [OF fs_result_status_stays] stays_step guarded_stays request_fire_stays [OF assms]
      request_fire_buffer_stays [OF assms] handle_unref_stays)

end
