(* ===== verification/Uvcc_Operations.thy ===== *)
theory Uvcc_Operations
  imports Uvcc_Run_Frame
begin

text \<open>
  The asynchronous operations of all request classes under one roof: what an operation works on, its
  run, its completion handler, and what the request records while it is pending. Each run is
  shown to take exactly the references its own handler gives back.
\<close>

section \<open>The operations\<close>

datatype file_kind =
    Sync bool | Truncate int | Stat_file | Chmod_file int | Chown_file int int | Utime_file arg arg

datatype path_kind =
    Stat_path bool | Chmod_path int | Chown_path int int | Utime_path arg arg
  | Unlink | Mkdir int | Mkdtemp | Rmdir | Scandir | Rename string | Access int | Link string bool int
  | Readlink | Realpath

text \<open>
  The first address is the request; the others are the stream, socket or file, the buffer, the
  handle sent, the loop. \<open>Task_done\<close> is a task that has been run by the thread pool.
\<close>

datatype op =
    Connect addr addr arg
  | Shutdown addr addr
  | Write addr addr addr
  | Write_handle addr addr addr addr
  | Datagram addr addr addr memory
  | File_op file_kind addr addr
  | File_close addr addr
  | File_read addr addr addr int
  | File_write addr addr addr int
  | File_send addr addr addr int "64 word"
  | Path_op path_kind addr addr string
  | Task addr addr cb
  | Task_done addr
  | Address addr addr string string arg
  | Name addr addr arg int

fun op_request :: "op \<Rightarrow> addr" where
  "op_request (Connect a h x) = a"
| "op_request (Shutdown a h) = a"
| "op_request (Write a h b) = a"
| "op_request (Write_handle a h b s) = a"
| "op_request (Datagram a h b sa) = a"
| "op_request (File_op k a h) = a"
| "op_request (File_close a h) = a"
| "op_request (File_read a h b offset) = a"
| "op_request (File_write a h b offset) = a"
| "op_request (File_send a out h offset n) = a"
| "op_request (Path_op k a l path) = a"
| "op_request (Task a l c) = a"
| "op_request (Task_done a) = a"
| "op_request (Address a l host service hints) = a"
| "op_request (Name a l sockaddr flags) = a"

text \<open>The instances a pending operation owns a reference to besides its request.\<close>

fun op_objects :: "op \<Rightarrow> obj list" where
  "op_objects (Connect a h x) = [HandleO h]"
| "op_objects (Shutdown a h) = [HandleO h]"
| "op_objects (Write a h b) = [BufferO b, HandleO h]"
| "op_objects (Write_handle a h b s) = [HandleO s, BufferO b, HandleO h]"
| "op_objects (Datagram a h b sa) = [BufferO b, HandleO h]"
| "op_objects (File_op k a h) = [HandleO h]"
| "op_objects (File_close a h) = [HandleO h]"
| "op_objects (File_read a h b offset) = [BufferO b, HandleO h]"
| "op_objects (File_write a h b offset) = [BufferO b, HandleO h]"
| "op_objects (File_send a out h offset n) = [HandleO h, HandleO out]"
| "op_objects _ = []"

fun file_run :: "env \<Rightarrow> file_kind \<Rightarrow> addr \<Rightarrow> addr \<Rightarrow> world \<Rightarrow> (int \<times> world) res" where
  "file_run env (Sync all) a h = fs_sync_run env a h all"
| "file_run env (Truncate offset) a h = fs_truncate_run env a h offset"
| "file_run env Stat_file a h = fs_stat_run_file env a h"
| "file_run env (Chmod_file mode) a h = fs_chmod_run_file env a h mode"
| "file_run env (Chown_file uid gid) a h = fs_chown_run_file env a h uid gid"
| "file_run env (Utime_file atime mtime) a h = fs_utime_run_file env a h atime mtime"

fun file_complete :: "env \<Rightarrow> file_kind \<Rightarrow> addr \<Rightarrow> world \<Rightarrow> world res" where
  "file_complete env (Sync all) = fs_sync_cb env"
| "file_complete env (Truncate offset) = fs_truncate_cb env"
| "file_complete env Stat_file = fs_stat_cb env"
| "file_complete env (Chmod_file mode) = fs_chmod_cb env"
| "file_complete env (Chown_file uid gid) = fs_chown_cb env"
| "file_complete env (Utime_file atime mtime) = fs_utime_cb env"

fun path_run :: "env \<Rightarrow> path_kind \<Rightarrow> addr \<Rightarrow> addr \<Rightarrow> string \<Rightarrow> world \<Rightarrow> (int \<times> world) res" where
  "path_run env (Stat_path follow) a l path = fs_stat_run env a l path follow"
| "path_run env (Chmod_path mode) a l path = fs_chmod_run env a l path mode"
| "path_run env (Chown_path uid gid) a l path = fs_chown_run env a l path uid gid"
| "path_run env (Utime_path atime mtime) a l path = fs_utime_run env a l path atime mtime"
| "path_run env Unlink a l path = fs_unlink_run env a l path"
| "path_run env (Mkdir mode) a l path = fs_mkdir_run env a l path mode"
| "path_run env Mkdtemp a l path = fs_mkdtemp_run env a l path"
| "path_run env Rmdir a l path = fs_rmdir_run env a l path"
| "path_run env Scandir a l path = fs_scandir_run env a l path"
| "path_run env (Rename new_path) a l path = fs_rename_run env a l path new_path"
| "path_run env (Access mode) a l path = fs_access_run env a l path mode"
| "path_run env (Link new_path symbolic flags) a l path = fs_link_run env a l path new_path symbolic flags"
| "path_run env Readlink a l path = fs_readlink_run env a l path"
| "path_run env Realpath a l path = fs_realpath_run env a l path"

fun path_complete :: "env \<Rightarrow> path_kind \<Rightarrow> addr \<Rightarrow> world \<Rightarrow> world res" where
  "path_complete env (Stat_path follow) = fs_stat_cb env"
| "path_complete env (Chmod_path mode) = fs_chmod_cb env"
| "path_complete env (Chown_path uid gid) = fs_chown_cb env"
| "path_complete env (Utime_path atime mtime) = fs_utime_cb env"
| "path_complete env Unlink = fs_unlink_cb env"
| "path_complete env (Mkdir mode) = fs_mkdir_cb env"
| "path_complete env Mkdtemp = fs_mkdtemp_cb env"
| "path_complete env Rmdir = fs_rmdir_cb env"
| "path_complete env Scandir = fs_scandir_cb env"
| "path_complete env (Rename new_path) = fs_rename_cb env"
| "path_complete env (Access mode) = fs_access_cb env"
| "path_complete env (Link new_path symbolic flags) = fs_link_cb env"
| "path_complete env Readlink = fs_readlink_cb env"
| "path_complete env Realpath = fs_realpath_cb env"

text \<open>The classes that can also work on an open file tell the two by the handle they record.\<close>

fun either_kind :: "path_kind \<Rightarrow> bool" where
  "either_kind (Stat_path follow) = True"
| "either_kind (Chmod_path mode) = True"
| "either_kind (Chown_path uid gid) = True"
| "either_kind (Utime_path atime mtime) = True"
| "either_kind _ = False"

text \<open>A task that has been run is no operation to be started; \<open>op_valid\<close> excludes it.\<close>

fun op_run :: "env \<Rightarrow> op \<Rightarrow> world \<Rightarrow> (int \<times> world) res" where
  "op_run env (Connect a h x) = connect_run env a h x"
| "op_run env (Shutdown a h) = shutdown_run env a h"
| "op_run env (Write a h b) = write_run env a h b"
| "op_run env (Write_handle a h b s) = write_run_send env a h b s"
| "op_run env (Datagram a h b sa) = udp_send_run env a h b sa"
| "op_run env (File_op k a h) = file_run env k a h"
| "op_run env (File_close a h) = fs_close_run env a h"
| "op_run env (File_read a h b offset) = fs_read_run env a h b offset"
| "op_run env (File_write a h b offset) = fs_write_run env a h b offset"
| "op_run env (File_send a out h offset n) = fs_sendfile_run env a out h offset n"
| "op_run env (Path_op k a l path) = path_run env k a l path"
| "op_run env (Task a l c) = work_run env a l c"
| "op_run env (Task_done a) = (\<lambda>w. Inr (UV_EINVAL, w))"
| "op_run env (Address a l host service hints) = getaddrinfo_run env a l host service hints"
| "op_run env (Name a l sockaddr flags) = getnameinfo_run env a l sockaddr flags"

fun op_complete :: "env \<Rightarrow> op \<Rightarrow> int \<Rightarrow> world \<Rightarrow> world res" where
  "op_complete env (Connect a h x) status = connect_cb env a status"
| "op_complete env (Shutdown a h) status = shutdown_cb env a status"
| "op_complete env (Write a h b) status = write_cb env a status"
| "op_complete env (Write_handle a h b s) status = write2_cb env a status"
| "op_complete env (Datagram a h b sa) status = udp_send_cb env a status"
| "op_complete env (File_op k a h) status = file_complete env k a"
| "op_complete env (File_close a h) status = fs_close_cb env a"
| "op_complete env (File_read a h b offset) status = fs_read_cb env a"
| "op_complete env (File_write a h b offset) status = fs_write_cb env a"
| "op_complete env (File_send a out h offset n) status = fs_sendfile_cb env a"
| "op_complete env (Path_op k a l path) status = path_complete env k a"
| "op_complete env (Task a l c) status = after_work_cb env a status"
| "op_complete env (Task_done a) status = after_work_cb env a status"
| "op_complete env (Address a l host service hints) status = getaddrinfo_cb env a status"
| "op_complete env (Name a l sockaddr flags) status = getnameinfo_cb env a status"

text \<open>What the request's structure and properties say of a pending operation.\<close>

fun op_recorded :: "op \<Rightarrow> uv_req_struct \<Rightarrow> req_properties \<Rightarrow> bool" where
  "op_recorded (Connect a h x) u p = (q_handle u = Some h)"
| "op_recorded (Shutdown a h) u p = (q_handle u = Some h)"
| "op_recorded (Write a h b) u p = (q_handle u = Some h \<and> p_buf p = Some b)"
| "op_recorded (Write_handle a h b s) u p =
     (q_handle u = Some h \<and> p_buf p = Some b \<and> q_send_handle u = Some s)"
| "op_recorded (Datagram a h b sa) u p = (q_handle u = Some h \<and> p_buf p = Some b)"
| "op_recorded (File_op k a h) u p = (p_handle p = Some h)"
| "op_recorded (File_close a h) u p = (p_handle p = Some h)"
| "op_recorded (File_read a h b offset) u p = (p_handle p = Some h \<and> p_buf p = Some b)"
| "op_recorded (File_write a h b offset) u p = (p_handle p = Some h \<and> p_buf p = Some b)"
| "op_recorded (File_send a out h offset n) u p = (p_handle_out p = Some out \<and> p_handle p = Some h)"
| "op_recorded (Path_op k a l path) u p = (either_kind k \<longrightarrow> p_handle p = None)"
| "op_recorded (Task a l c) u p = (p_task p = Some c \<and> p_future p = Some False)"
| "op_recorded (Task_done a) u p = (p_future p = Some True)"
| "op_recorded (Address a l host service hints) u p = True"
| "op_recorded (Name a l sockaddr flags) u p = True"

definition op_holds :: "op \<Rightarrow> req_instance \<Rightarrow> bool" where
  "op_holds p i = op_recorded p (r_uv i) (r_props i)"

text \<open>
  Whether a successful run leaves an operation pending: the file-system requests and those of name
  resolution do so if the request has a callback, the others always.
\<close>

fun op_async :: "op \<Rightarrow> req_instance \<Rightarrow> bool" where
  "op_async (File_op k a h) i = (r_request_cb i \<noteq> None)"
| "op_async (File_close a h) i = (r_request_cb i \<noteq> None)"
| "op_async (File_read a h b offset) i = (r_request_cb i \<noteq> None)"
| "op_async (File_write a h b offset) i = (r_request_cb i \<noteq> None)"
| "op_async (File_send a out h offset n) i = (r_request_cb i \<noteq> None)"
| "op_async (Path_op k a l path) i = (r_request_cb i \<noteq> None)"
| "op_async (Address a l host service hints) i = (r_request_cb i \<noteq> None)"
| "op_async (Name a l sockaddr flags) i = (r_request_cb i \<noteq> None)"
| "op_async _ i = True"

definition op_waits :: "op \<Rightarrow> world \<Rightarrow> bool" where
  "op_waits p w = (case requests w (op_request p) of None \<Rightarrow> False | Some i \<Rightarrow> op_async p i)"

text \<open>
  What the client has to see to: \<open>udp_send::run()\<close> throws unless the address is of a known
  family, and a file is not to be closed from within one of its own reading commands.
\<close>

fun op_valid :: "world \<Rightarrow> op \<Rightarrow> bool" where
  "op_valid w (Datagram a h b sa) = (\<exists>r peer. init_storage_from sa = Inr (r, peer))"
| "op_valid w (File_close a h) = (\<exists>i. handles w h = Some i \<and> idle_file i)"
| "op_valid w (Task_done a) = False"
| "op_valid w _ = True"

definition op_refers :: "world \<Rightarrow> op \<Rightarrow> bool" where
  "op_refers w p \<longleftrightarrow> refers w (RequestO (op_request p)) \<and> (\<forall>q \<in> set (op_objects p). refers w q)"

section \<open>What the operations owe\<close>

definition op_debt :: "op \<Rightarrow> (obj \<Rightarrow> nat) \<Rightarrow> obj \<Rightarrow> nat" where
  "op_debt p E = foldr inc (op_objects p) E"

lemma foldr_inc: "foldr inc qs E q = count_list qs q + E q"
  by (induction qs) (auto simp: inc_apply)

definition outcome :: "bool \<Rightarrow> (obj \<Rightarrow> nat) \<Rightarrow> op \<Rightarrow> int \<times> world \<Rightarrow> bool" where
  "outcome waits E p = (\<lambda>(r, w). if r < 0 \<or> \<not> waits then winv E w
     else pending (op_debt p E) (op_request p) (op_holds p) w)"

text \<open>What is documented of libuv and expected of the client's callbacks.\<close>

definition op_env :: "env \<Rightarrow> bool" where
  "op_env env \<longleftrightarrow> client_ok {} env \<and> records_handles env \<and> records_send_handle env"

lemma op_env_dest:
  assumes "op_env env"
  shows "client_ok {} env" "closes_loops env" "records_handles env" "records_send_handle env"
  using assms client_ok_dest(1) by (auto simp: op_env_def)

lemma started_outcome:
  assumes "ok (started E F a P) m" "F = op_debt p E" "a = op_request p" "\<And>i. P i \<Longrightarrow> op_holds p i" "waits"
  shows "ok (outcome waits E p) m"
  using assms by (auto simp: started_def outcome_def pending_def elim!: ok_weaken)

lemma ran_outcome:
  assumes "ok (ran c E F a P) m" "F = op_debt p E" "a = op_request p" "\<And>i. P i \<Longrightarrow> op_holds p i"
    "waits \<longleftrightarrow> c \<noteq> None"
  shows "ok (outcome waits E p) m"
proof (cases c)
  case None
  with assms(1,5) show ?thesis by (auto simp: returned_def outcome_def elim!: ok_weaken)
next
  case (Some x)
  with assms started_outcome [of E F a P m p waits] show ?thesis by simp
qed

lemma file_run_ok:
  assumes "closes_loops env" "winv E w" "refers w (RequestO a)" "refers w (HandleO h)" "requests w a = Some i"
  shows "ok (ran (r_request_cb i) E (inc (HandleO h) E) a (\<lambda>i. p_handle (r_props i) = Some h)) (file_run env k a h w)"
  by (cases k) (auto simp: fs_sync_run_def fs_stat_run_file_def fs_chmod_run_file_def fs_chown_run_file_def
    fs_utime_run_file_def intro!: fs_file_op_ok fs_truncate_run_ok assms)

lemma path_run_ok:
  assumes "winv E w" "refers w (RequestO a)" "requests w a = Some i"
  shows "ok (ran (r_request_cb i) E E a (\<lambda>i. either_kind k \<longrightarrow> p_handle (r_props i) = None)) (path_run env k a l path w)"
  by (cases k) (auto simp: fs_stat_run_def fs_chmod_run_def fs_chown_run_def fs_utime_run_def fs_unlink_run_def
    fs_mkdir_run_def fs_mkdtemp_run_def fs_rmdir_run_def fs_scandir_run_def fs_rename_run_def fs_access_run_def
    fs_link_run_def fs_readlink_run_def fs_realpath_run_def
    intro!: fs_path_run_nofile_ok fs_path_run_ok assms)

text \<open>Every run takes what its own operation owes, or nothing.\<close>

lemma op_run_ok:
  assumes env: "op_env env" and w: "winv E w" and r: "op_refers w p" and v: "op_valid w p"
  shows "ok (outcome (op_waits p w) E p) (op_run env p w)"
proof -
  note client = op_env_dest(1) [OF env] and closes = op_env_dest(2) [OF env]
    and records = op_env_dest(3,4) [OF env]
  from r have a: "refers w (RequestO (op_request p))" by (simp add: op_refers_def)
  from refers_request [OF w a] obtain i where i: "requests w (op_request p) = Some i" .
  then have waits: "op_waits p w = op_async p i" by (simp add: op_waits_def)
  note net = connect_run_ok [OF closes records_handlesD(1) [OF records(1)] w]
    shutdown_run_ok [OF closes records_handlesD(2) [OF records(1)] w]
    write_run_ok [OF client records_handlesD(3) [OF records(1)] w] write_run_send_ok [OF client records(2) w]
    udp_send_run_ok [OF client records_handlesD(4) [OF records(1)] w] work_run_ok [OF w]
  note fs = file_run_ok [OF closes w] fs_close_run_ok [OF client w] fs_read_run_ok [OF client w]
    fs_write_run_ok [OF client w] path_run_ok [OF w]
  note rules = started_outcome [OF net(1)] started_outcome [OF net(2)] started_outcome [OF net(3)]
    started_outcome [OF net(4)] started_outcome [OF net(6)] ran_outcome [OF fs(1)] ran_outcome [OF fs(2)]
    ran_outcome [OF fs(3)] ran_outcome [OF fs(4)] ran_outcome [OF fs(5)]
  have names: "ok (outcome waits E p) m"
    if "ok (if c = None then \<lambda>(r, w'). winv E w' else started E E a (\<lambda>_. True)) m"
      "a = op_request p" "op_objects p = []" "\<And>i. op_holds p i" "waits \<longleftrightarrow> c \<noteq> None"
    for a c m waits and p :: op
    using that by (auto simp: outcome_def started_def pending_def op_debt_def elim!: ok_weaken split: if_splits)
  show ?thesis
  proof (cases p)
    case (Datagram a h b sa)
    with v obtain r peer where "init_storage_from sa = Inr (r, peer)" by auto
    with Datagram r waits show ?thesis
      by (auto simp: op_refers_def op_debt_def op_holds_def intro!: started_outcome [OF net(5)])
  next
    case (File_send a out h offset n)
    have "ok (\<lambda>(r, w'). (r = UV_EBADF \<and> winv E w') \<or>
        ran (r_request_cb i) E (inc (HandleO h) (inc (HandleO out) E)) a (sending out h) (r, w')) (op_run env p w)"
      using fs_sendfile_run_ok [OF client w] File_send i r by (simp add: op_refers_def)
    then show ?thesis
      using File_send unfolding waits
      by (elim ok_weaken) (auto simp: outcome_def started_def returned_def pending_def op_debt_def op_holds_def
        ran_def UV_EBADF_def split: if_splits)
  next
    case (Address a l host service hints)
    show ?thesis
      unfolding Address op_run.simps
      by (rule names [OF getaddrinfo_run_ok [OF w]]) (use a i waits Address in \<open>simp_all add: op_holds_def\<close>)
  next
    case (Name a l sockaddr flags)
    show ?thesis
      unfolding Name op_run.simps
      by (rule names [OF getnameinfo_run_ok [OF w]]) (use a i waits Name in \<open>simp_all add: op_holds_def\<close>)
  qed (use r v i waits in \<open>auto simp: op_refers_def op_debt_def op_holds_def intro!: rules\<close>)
qed

lemma file_complete_ok:
  assumes "client_ok K env" "pending (inc (HandleO h) E) a (\<lambda>i. p_handle (r_props i) = Some h) w"
  shows "ok (grown K E) (file_complete env k a w)"
  using fs_file_cb_ok [OF assms] fs_either_cb_file [OF assms]
  by (cases k) (simp_all add: fs_sync_cb_def fs_truncate_cb_def fs_stat_cb_def fs_chmod_cb_def fs_chown_cb_def
    fs_utime_cb_def)

lemma path_complete_ok:
  assumes "client_ok K env" "pending E a (\<lambda>i. either_kind k \<longrightarrow> p_handle (r_props i) = None) w"
  shows "ok (grown K E) (path_complete env k a w)"
proof -
  from assms(2) have "pending E a (\<lambda>_. True) w" by (auto simp: pending_def)
  note path = fs_path_cb_ok [OF assms(1) this]
  show ?thesis
    using assms path fs_either_cb_path [OF assms(1)]
    by (cases k) (simp_all add: fs_stat_cb_def fs_chmod_cb_def fs_chown_cb_def fs_utime_cb_def fs_unlink_cb_def
      fs_mkdir_cb_def fs_mkdtemp_cb_def fs_rmdir_cb_def fs_scandir_cb_def fs_rename_cb_def fs_access_cb_def
      fs_link_cb_def fs_readlink_cb_def fs_realpath_cb_def)
qed

text \<open>Every handler gives back what its operation owes.\<close>

lemma op_complete_ok:
  assumes env: "client_ok {} env" and p: "pending (op_debt p E) (op_request p) (op_holds p) w"
  shows "ok (winv E) (op_complete env p status w)"
proof -
  note net = connect_cb_ok [OF env] shutdown_cb_ok [OF env] write_cb_ok [OF env] write2_cb_ok [OF env, unfolded conj_assoc]
    udp_send_cb_ok [OF env] after_work_cb_ok [OF env] getaddrinfo_cb_ok [OF env] getnameinfo_cb_ok [OF env]
  note fs = file_complete_ok [OF env] path_complete_ok [OF env] fs_file_cb_ok [OF env] fs_read_cb_ok [OF env]
    fs_write_cb_ok [OF env] fs_sendfile_cb_ok [OF env]
  from p show ?thesis
    unfolding grown_exact [of E, symmetric, abs_def]
    by (cases p) (auto simp: op_debt_def op_holds_def [abs_def] fs_close_cb_def intro!: net fs)
qed

text \<open>The thread pool runs a task.\<close>

lemma task_runs_ok:
  assumes env: "client_ok {} env" and p: "pending E a (op_holds (Task a l c)) w"
  shows "ok (pending E a (op_holds (Task_done a))) (work_cb env a w)"
  using work_cb_ok [OF env, of E a c w] p
  by (auto simp: op_holds_def [abs_def] above_def debts_empty elim!: ok_weaken)

section \<open>What they leave alone\<close>

lemma op_run_stays:
  assumes "bystanders env"
  shows "stays {op_request p} V snd w (op_run env p w)"
proof -
  note fs = fs_runs_stay [OF assms]
  have on_file: "stays {a} V snd w (file_run env k a h w)" for k a h
    by (cases k) (auto simp: fs_sync_run_def fs_stat_run_file_def fs_chmod_run_file_def fs_chown_run_file_def
      fs_utime_run_file_def intro!: stays_bind [OF fs_req_cleanup_stays] fs)
  have path: "stays {a} V snd w (path_run env k a l path w)" for k a l path
    by (cases k) (auto simp: fs_stat_run_def fs_chmod_run_def fs_chown_run_def fs_utime_run_def fs_unlink_run_def
      fs_mkdir_run_def fs_mkdtemp_run_def fs_rmdir_run_def fs_scandir_run_def fs_rename_run_def fs_access_run_def
      fs_link_run_def fs_readlink_run_def fs_realpath_run_def intro!: fs)
  show ?thesis
    by (cases p) (simp_all add: net_runs_stay [OF assms] work_run_stays name_runs_stay fs on_file path stays_Inr)
qed

lemma op_complete_stays:
  assumes "bystanders env"
  shows "stays A V (\<lambda>w. w) w (op_complete env p status w)"
proof -
  note fs = fs_handlers_stay [OF assms]
  have "stays A V (\<lambda>w. w) w (file_complete env k a w)" for k a
    by (cases k) (simp_all add: fs_sync_cb_def fs_truncate_cb_def fs_stat_cb_def fs_chmod_cb_def fs_chown_cb_def
      fs_utime_cb_def fs)
  moreover have "stays A V (\<lambda>w. w) w (path_complete env k a w)" for k a
    by (cases k) (simp_all add: fs_stat_cb_def fs_chmod_cb_def fs_chown_cb_def fs_utime_cb_def fs_unlink_cb_def
      fs_mkdir_cb_def fs_mkdtemp_cb_def fs_rmdir_cb_def fs_scandir_cb_def fs_rename_cb_def fs_access_cb_def
      fs_link_cb_def fs_readlink_cb_def fs_realpath_cb_def fs)
  ultimately show ?thesis
    by (cases p) (simp_all add: net_handlers_stay [OF assms] work_handlers_stay [OF assms] fs fs_close_cb_def)
qed

end
