(* ===== verification/Uvcc_Commands.thy ===== *)
theory Uvcc_Commands
  imports Uvcc_Run_Frame
begin

text \<open>
  The commands a client gives to a handle it has a variable for, and the events libuv reports of
  a handle, under one roof each: reading, the watchers, listening, and the options, which are calls of
  libuv that report their result as the status of the handle. A command needs no reference of its own,
  and an event finds its handle alive because the active state of the handle owns a reference, or,
  for a listening stream, because libuv reports nothing of a handle that has been closed.
\<close>

section \<open>Commands\<close>

datatype command =
    Start_reading cb cb "64 word" int
  | Reading rd_command
  | Watching watch_command
  | On_event "cb option"
  | Listening int "cb option"
  | Setting string "arg list"

fun command_exec :: "env \<Rightarrow> command \<Rightarrow> addr \<Rightarrow> world \<Rightarrow> (int \<times> world) res" where
  "command_exec env (Start_reading alloc read sz offset) a w =
     read_start_with env a (Some alloc) (Some read) sz offset w"
| "command_exec env (Reading c) a w = rd_exec env c a w"
| "command_exec env (Watching c) a w = watch_exec env c a w"
| "command_exec env (On_event c) a w = rbind (set_event_cb a c w) (\<lambda>w. Inr (0, w))"
| "command_exec env (Listening backlog c) a w = stream_listen env a backlog c w"
| "command_exec env (Setting f args) a w = status_call env f a args w"

text \<open>
  Reading is for streams and datagram sockets here, with both callbacks set and not from within
  another reading command; all is to be given through a variable that refers to the handle.
\<close>

definition on_wire :: "handle_instance \<Rightarrow> bool" where
  "on_wire i \<longleftrightarrow> wire (h_iface i) \<and> \<not> rdstate_switch (h_io i)"

definition has_callbacks :: "handle_instance \<Rightarrow> bool" where
  "has_callbacks i \<longleftrightarrow> alloc_cb (h_io i) \<noteq> None \<and> read_cb (h_io i) \<noteq> None"

fun command_fits :: "command \<Rightarrow> handle_instance \<Rightarrow> bool" where
  "command_fits (Start_reading alloc read sz offset) i = on_wire i"
| "command_fits (Reading c) i = (on_wire i \<and> has_callbacks i)"
| "command_fits _ i = True"

definition command_ready :: "world \<Rightarrow> command \<Rightarrow> addr \<Rightarrow> bool" where
  "command_ready w c a \<longleftrightarrow> refers w (HandleO a) \<and> (\<exists>i. handles w a = Some i \<and> command_fits c i)"

lemma handle_step_around: "handle_step a i j w w' \<Longrightarrow> around w w'"
  by (simp add: handle_step_def around_def apart_def)

lemma rd_ready_iff: "rd_ready i \<longleftrightarrow> on_wire i \<and> has_callbacks i \<and> int (owes i) < h_refs i"
  by (auto simp: rd_ready_def on_wire_def has_callbacks_def)

lemma reading_ok:
  assumes "winv E w" "handles w a = Some i" "rd_ready i"
  shows "ok (\<lambda>(r, w'). winv E w' \<and> around w w') (rd_exec env c a w)"
proof (rule ok_weaken [OF rd_exec_table [OF assms(2,3)]])
  fix x assume "case x of (r, w') \<Rightarrow>
      let s = rdcmd_state (h_io i);
          calls = rd_calls (rd_table c s) (start_event (h_iface i) a) (stop_event (h_iface i) a)
      in r = rd_return env (trace w) calls \<and> trace w' = trace w @ calls \<and>
         (\<exists>j. handle_step a i j w w' \<and> rd_ready j \<and> h_watch j = h_watch i \<and>
              rdcmd_state (h_io j) = rd_next (rd_table c s) r s)"
  then obtain j where j: "handle_step a i j w (snd x)" "rd_ready j" by (auto simp: Let_def split: prod.splits)
  have "0 < h_refs j" using j(2) by (simp add: rd_ready_def)
  from winv_handle_step [OF j(1) assms(1) this] handle_step_around [OF j(1)]
  show "case x of (r, w') \<Rightarrow> winv E w' \<and> around w w'" by (cases x) simp
qed

lemma start_reading_ok:
  assumes "winv E w" "handles w a = Some i" "on_wire i" "int (owes i) < h_refs i"
  shows "ok (\<lambda>(r, w'). winv E w' \<and> around w w') (read_start_with env a (Some c) (Some d) sz offset w)"
proof -
  let ?j = "i\<lparr>h_io := (h_io i)\<lparr>alloc_cb := Some c, read_cb := Some d\<rparr>\<rparr>"
  have w: "winv E (handle_put a ?j w)"
    by (rule winv_handle_put [OF assms(1,2)]) (simp_all add: owes_def)
  have "rd_ready ?j"
    using assms(3,4) by (simp add: rd_ready_iff on_wire_def has_callbacks_def owes_def)
  from reading_ok [OF w _ this, of a env "Cmd_start sz offset"] assms(2) show ?thesis
    by (simp add: read_start_with_def io_mod_def store_simps)
qed

lemma watching_ok:
  assumes "winv E w" "handles w a = Some i" "int (owes i) < h_refs i"
  shows "ok (\<lambda>(r, w'). winv E w' \<and> around w w') (watch_exec env c a w)"
  by (rule ok_weaken [OF watch_exec_ok [OF assms(1,2)]])
    (use assms(3) in \<open>auto simp: held_by_others_def dest: handle_step_around\<close>)

lemma on_event_ok:
  assumes "winv E w" "handles w a = Some i"
  shows "ok (\<lambda>w'. winv E w' \<and> around w w') (set_event_cb a c w)"
  using winv_handle_put [OF assms, of "i\<lparr>h_watch := (h_watch i)\<lparr>event_cb := c\<rparr>\<rparr>"] assms(2)
  by (simp add: set_event_cb_def watch_mod_def owes_def)

lemma status_call_around: "status_call env f a args w = Inr (r, w') \<Longrightarrow> around w w'"
  by (auto simp: status_call_def handle_return_status_def rbind_eq_Inr
    dest!: uv_on_handle_around handle_set_status_around intro: around_trans)

lemma setting_ok:
  assumes "winv E w" "handles w a = Some i"
  shows "ok (\<lambda>(r, w'). winv E w' \<and> around w w') (status_call env f a args w)"
  using status_call_ok [OF assms, of env f args] by (auto simp: ok_iff dest: status_call_around)

text \<open>Listening calls libuv between storing a zero and a failed result.\<close>

lemma listening_ok:
  assumes "winv E w" "handles w a = Some i"
  shows "ok (\<lambda>(r, w'). winv E w' \<and> around w w') (stream_listen env a backlog c w)"
proof -
  let ?i = "i\<lparr>h_watch := (h_watch i)\<lparr>connection_cb := c\<rparr>, h_uv_error := 0\<rparr>"
  have w1: "winv E (handle_put a ?i w)" "handles (handle_put a ?i w) a = Some ?i"
    using winv_handle_put [OF assms, of ?i] by (simp_all add: owes_def store_simps)
  from winv_uv_on_handle [OF this, of env "''uv_listen''" "[Num backlog, Callback True]"] obtain r w2 j
    where w2: "uv_on_handle env ''uv_listen'' a [Num backlog, Callback True] (handle_put a ?i w) = Inr (r, w2)"
      "winv E w2" "handles w2 a = Some j" by (auto simp: ok_iff)
  have "around w (handle_put a ?i w)" by (simp add: around_def apart_def handle_put_def)
  with uv_on_handle_around [OF w2(1)] have around: "around w w2" by (rule around_trans [rotated])
  moreover have "handle_put a ?i w = handle_put a ?i (handle_put a (i\<lparr>h_watch := (h_watch i)\<lparr>connection_cb := c\<rparr>\<rparr>) w)"
    by simp
  ultimately show ?thesis
    using assms(2) w2 winv_handle_set_status [OF w2(2,3), of r] around_trans [OF around handle_set_status_around]
    by (auto simp: stream_listen_def watch_mod_def handle_mod_def store_simps handle_set_status_eq ok_iff)
qed

text \<open>A command keeps the invariant and concerns handles and loops only.\<close>

lemma command_ok:
  assumes "winv E w" "command_ready w c a"
  shows "ok (\<lambda>(r, w'). winv E w' \<and> around w w') (command_exec env c a w)"
proof -
  from assms(2) obtain i where i: "refers w (HandleO a)" "handles w a = Some i" "command_fits c i"
    by (auto simp: command_ready_def)
  have held: "int (owes i) < h_refs i" by (rule refers_owes [OF assms(1) i(1,2)])
  show ?thesis
  proof (cases c)
    case (On_event d)
    from on_event_ok [OF assms(1) i(2), of d] On_event show ?thesis
      by (auto intro: ok_bind)
  next
    case (Listening backlog d)
    with listening_ok [OF assms(1) i(2), of env backlog d] show ?thesis by simp
  next
    case (Setting f args)
    with setting_ok [OF assms(1) i(2), of env f args] show ?thesis by simp
  qed (use i(3) start_reading_ok [OF assms(1) i(2) _ held] reading_ok [OF assms(1) i(2)]
      watching_ok [OF assms(1) i(2) held] held in \<open>auto simp: rd_ready_iff\<close>)
qed

section \<open>Events\<close>

datatype occurrence =
    Idle_event | Prepare_event | Check_event | Poll_event int int | File_event string int int
  | Signal_event | Timer_event | Read_event "64 word" int "arg list" | Connection_event int

fun occur :: "env \<Rightarrow> occurrence \<Rightarrow> addr \<Rightarrow> world \<Rightarrow> world res" where
  "occur env Idle_event a w = idle_cb env a w"
| "occur env Prepare_event a w = prepare_cb env a w"
| "occur env Check_event a w = check_cb env a w"
| "occur env (Poll_event status events) a w = poll_cb env a status events w"
| "occur env (File_event filename events status) a w = fs_event_cb env a filename events status w"
| "occur env Signal_event a w = signal_cb env a w"
| "occur env Timer_event a w = timer_cb env a w"
| "occur env (Read_event n nread info) a w =
     rbind (io_alloc_cb env a n w) (\<lambda>(base, w). io_read_cb env a nread base info w)"
| "occur env (Connection_event status) a w = stream_connection_cb env a status w"

text \<open>
  libuv reports events of active handles only, connections of those that listen, and suggests a size that is not zero. Two restrictions are those under which the handlers
  are right: a timer is a repeating one (the handler of a one-shot timer releases a reference it
  leaves marked as taken), and a handle that is read from is held by a variable of the program
  (otherwise the read handler may outlive it).
\<close>

fun occurs_on :: "occurrence \<Rightarrow> handle_instance \<Rightarrow> bool" where
  "occurs_on Timer_event i = (has_extra_ref (h_watch i) \<and> u_repeat (h_uv i) \<noteq> 0)"
| "occurs_on (Read_event n nread info) i = (n \<noteq> 0 \<and> reading (rdcmd_state (h_io i)) \<and> has_callbacks i)"
| "occurs_on (Connection_event status) i = (connection_cb (h_watch i) \<noteq> None)"
| "occurs_on _ i = watching (opcmd_state (h_watch i))"

fun needs_variable :: "occurrence \<Rightarrow> bool" where
  "needs_variable (Read_event n nread info) = True"
| "needs_variable _ = False"

definition due :: "world \<Rightarrow> occurrence \<Rightarrow> addr \<Rightarrow> bool" where
  "due w e a \<longleftrightarrow> (\<exists>i. handles w a = Some i \<and> occurs_on e i) \<and> (needs_variable e \<longrightarrow> refers w (HandleO a))"

text \<open>
  The client's allocation callback: it leaves the variables and requests of others alone, and when a
  size is asked for it takes no handle's callbacks away and comes back with a buffer of one chunk.
\<close>

definition keeps_callbacks :: "world \<Rightarrow> world \<Rightarrow> bool" where
  "keeps_callbacks w w' \<longleftrightarrow> (\<forall>a i j. handles w a = Some i \<and> handles w' a = Some j \<and> has_callbacks i \<longrightarrow>
     has_callbacks j)"

definition hands_out :: "env \<Rightarrow> bool" where
  "hands_out env \<longleftrightarrow> (\<forall>c v n w. stays {} {v} snd w (usr_alloc env c v n w) \<and>
     (\<forall>b w'. n \<noteq> 0 \<and> usr_alloc env c v n w = Inr (Some b, w') \<longrightarrow>
       single_chunk b w' \<and> keeps_callbacks w w'))"

lemma handle_dtor_buffers:
  assumes "handle_var_dtor env v w = Inr w'"
  shows "buffers w' = buffers w"
proof -
  have "buffers u' = buffers u" if "handle_obj_unref env q u = Inr u'" for q u u'
    using that handle_unref_around by (cases q) (auto simp: around_def)
  from this [of _ "var_drop v w"] assms show ?thesis
    by (auto simp: handle_var_dtor_def sp_dtor_def Let_def rbind_eq_Inr store_simps split: option.splits)
qed

lemma handle_dtor_io:
  assumes "closes_loops env" "winv E w" "handle_var_dtor env v w = Inr w'"
    "handles w a = Some i" "handles w' a = Some j"
  shows "h_io j = h_io i"
proof -
  from assms(3) obtain q where q: "vars w v = Some q"
    "(case q of None \<Rightarrow> Inr (var_drop v w) | Some p \<Rightarrow> handle_obj_unref env p (var_drop v w)) = Inr w'"
    by (auto simp: handle_var_dtor_def sp_dtor_def var_load_def Let_def rbind_eq_Inr split: option.splits)
  show ?thesis
  proof (cases "\<exists>h. q = Some (HandleO h)")
    case False
    with q(2) assms(4,5) show ?thesis by (auto simp: store_simps split: option.splits obj.splits elim: handle_obj_unref.elims)
  next
    case True
    then obtain h where h: "q = Some (HandleO h)" by blast
    from winv_var_drop [OF assms(2) q(1)] h have w: "winv (inc (HandleO h) E) (var_drop v w)" by simp
    from winv_owned_live [OF w] obtain k where k: "handles (var_drop v w) h = Some k" by (auto simp: live_handle)
    show ?thesis
    proof (cases "h_refs k = 1")
      case False
      with q(2) h handle_unref_shared [OF k False, of env] k assms(4,5) show ?thesis
        by (cases "h = a") (auto simp: store_simps)
    next
      case True
      with q(2) h handle_unref_last [OF assms(1) w k True] assms(4,5) show ?thesis
        by (cases "h = a") (auto simp: store_simps)
    qed
  qed
qed

text \<open>The steps of the allocation handler.\<close>

lemma io_alloc_cb_elim:
  assumes "io_alloc_cb env a n w = Inr (base, w')"
  obtains c sz w1 d w2 w3 w4 nonnull where "handle_ref a w = Inr w1" "n \<noteq> 0 \<longrightarrow> sz \<noteq> 0"
    "usr_alloc env c (nxt w1) sz (var_store (nxt w1) (Some (HandleO a)) w1) = Inr (Some d, w2)"
    "handle_var_dtor env (nxt w1) w2 = Inr w3" "buffer_ref d w3 = Inr w4" "buffer_unref env d w4 = Inr w'"
    "buffer_bool d w4 = Inr nonnull" "base = (if nonnull then Some d else None)"
proof -
  from assms obtain i c w1 where i: "handle_at a w = Inr i" "alloc_cb (h_io i) = Some c" and
    w1: "handle_ref a w = Inr w1"
    by (auto simp: io_alloc_cb_def rbind_eq_Inr split: option.splits)
  from assms obtain p w2 d w3 w4 nonnull where
    run: "usr_alloc env c (nxt w1) (if rdsize (h_io i) \<noteq> 0 then rdsize (h_io i) else n)
      (var_store (nxt w1) (Some (HandleO a)) w1) = Inr (p, w2)" "deref p = Inr d" and
    rest: "handle_var_dtor env (nxt w1) w2 = Inr w3" "buffer_ref d w3 = Inr w4" "buffer_unref env d w4 = Inr w'"
      "buffer_bool d w4 = Inr nonnull" "base = (if nonnull then Some d else None)"
    by (auto simp: io_alloc_cb_def i w1 rbind_eq_Inr var_new_store Let_def)
  from run have "usr_alloc env c (nxt w1) (if rdsize (h_io i) \<noteq> 0 then rdsize (h_io i) else n)
      (var_store (nxt w1) (Some (HandleO a)) w1) = Inr (Some d, w2)"
    by (cases p) simp_all
  from that [OF w1 _ this rest] show ?thesis by simp
qed

text \<open>A reference taken and given back leaves no trace.\<close>

lemma buffer_ref_unref:
  assumes "buffer_ref b w = Inr w1" "buffer_unref env b w1 = Inr w'"
  shows "w' = w"
proof -
  from assms(1) obtain i where i: "buffers w b = Some i" "b_refs i \<noteq> 0" "w1 = buffer_put b (i\<lparr>b_refs := b_refs i + 1\<rparr>) w"
    by (auto simp: buffer_ref_def buffer_at_def ref_count_inc_def split: option.splits if_splits)
  with assms(2) show ?thesis
    by (auto simp: buffer_unref_def ref_count_dec_def Let_def store_simps buffer_put_twice buffer_put_same)
qed

text \<open>What it does to the world, and what it hands to libuv.\<close>

lemma io_alloc_cb_hands:
  assumes "hands_out env" "io_alloc_cb env a n w = Inr (base, w')"
  shows "steady A V w w'" "n \<noteq> 0 \<Longrightarrow> \<exists>b. base = Some b \<and> single_chunk b w'"
proof -
  from io_alloc_cb_elim [OF assms(2)] obtain c sz w1 d w2 w3 w4 nonnull where
    w1: "handle_ref a w = Inr w1" and sz: "n \<noteq> 0 \<longrightarrow> sz \<noteq> 0" and
    w2: "usr_alloc env c (nxt w1) sz (var_store (nxt w1) (Some (HandleO a)) w1) = Inr (Some d, w2)" and
    w3: "handle_var_dtor env (nxt w1) w2 = Inr w3" and
    w4: "buffer_ref d w3 = Inr w4" "buffer_unref env d w4 = Inr w'" "buffer_bool d w4 = Inr nonnull"
      "base = (if nonnull then Some d else None)" .
  from buffer_ref_unref [OF w4(1,2)] have w': "w' = w3" .
  have "stays {} {nxt w1} snd (var_store (nxt w1) (Some (HandleO a)) w1) (Inr (Some d, w2))"
    using assms(1) w2 unfolding hands_out_def by metis
  then have "steady A (insert (nxt w1) V) (var_store (nxt w1) (Some (HandleO a)) w1) w2"
    by (auto simp: stays_Inr intro: steady_mono)
  from scope_closed [OF obj_unref_stays(2) this] w3 have "steady A V w1 w3"
    by (simp add: handle_var_dtor_def)
  then show "steady A V w w'" unfolding w' by (rule steady_trans [OF staysD [OF handle_ref_stays w1]])
  assume "n \<noteq> 0"
  with assms(1) w2 sz have "single_chunk d w2" unfolding hands_out_def by blast
  then have "single_chunk d w3" using handle_dtor_buffers [OF w3] by (simp add: single_chunk_def)
  moreover from this w4(1,3) have nonnull
    by (auto simp: single_chunk_def buffer_ref_def buffer_bool_def rbind_eq_Inr store_simps)
  ultimately show "\<exists>b. base = Some b \<and> single_chunk b w'" using w4(4) by (simp add: w')
qed

lemma io_alloc_cb_keeps:
  assumes client: "client_ok K env" "hands_out env" and inv: "winv E w" and held: "refers w (HandleO a)"
    and i: "handles w a = Some i" "has_callbacks i" and n: "n \<noteq> 0" and run: "io_alloc_cb env a n w = Inr (base, w')"
    and j: "handles w' a = Some j"
  shows "has_callbacks j"
proof -
  from io_alloc_cb_elim [OF run] obtain c sz w1 d w2 w3 w4 nonnull where
    w1: "handle_ref a w = Inr w1" and sz: "n \<noteq> 0 \<longrightarrow> sz \<noteq> 0" and
    w2: "usr_alloc env c (nxt w1) sz (var_store (nxt w1) (Some (HandleO a)) w1) = Inr (Some d, w2)" and
    w3: "handle_var_dtor env (nxt w1) w2 = Inr w3" and
    w4: "buffer_ref d w3 = Inr w4" "buffer_unref env d w4 = Inr w'" .
  let ?s = "var_store (nxt w1) (Some (HandleO a)) w1"
  from handle_ref_ok [OF inv, of a] w1 i have inv1: "winv (inc (HandleO a) E) w1" "vars w1 = vars w"
    by (auto simp: live_handle)
  have inv_s: "winv E ?s" using winv_var_new [of "Some (HandleO a)" E w1] inv1 by simp
  moreover have "vars ?s (nxt w1) = Some (Some (HandleO a))" by (simp add: store_simps)
  ultimately have "ok (\<lambda>(p, w'). \<exists>b F. winv (inc (BufferO b) F) w') (usr_alloc env c (nxt w1) sz ?s)"
    using client_ok_dest(4) [OF client(1)] unfolding allocs_ok_def by (blast intro: ok_weaken)
  with w2 obtain F where inv2: "winv F w2" by auto
  from held obtain v where v: "vars w v = Some (Some (HandleO a))" by (auto simp: refers_def)
  then have "v \<noteq> nxt w1" using fresh_var [OF inv1(1)] inv1(2) by auto
  moreover have "steady {} {nxt w1} ?s w2"
    using client(2) w2 staysD [of "{}" "{nxt w1}" snd ?s] unfolding hands_out_def by fastforce
  ultimately have "vars w2 v = Some (Some (HandleO a))"
    using steady_vars [OF _ winv_fresh [OF inv_s]] v inv1(2) by (fastforce simp: store_simps)
  from winv_var_live [OF inv2 this] obtain j2 where j2: "handles w2 a = Some j2" by (auto simp: live_handle)
  have "has_callbacks j2"
  proof -
    obtain i1 where "handles ?s a = Some i1" "h_io i1 = h_io i"
      using w1 i(1) by (auto simp: handle_ref_def rbind_eq_Inr store_simps)
    with client(2) w2 i(2) j2 sz n show ?thesis
      unfolding hands_out_def keeps_callbacks_def has_callbacks_def by metis
  qed
  moreover from buffer_ref_unref [OF w4] j have "handles w3 a = Some j" by simp
  from handle_dtor_io [OF client_ok_dest(1) [OF client(1)] inv2 w3 j2 this] have "h_io j = h_io j2" .
  ultimately show ?thesis by (simp add: has_callbacks_def)
qed

text \<open>What the handlers leave alone.\<close>

lemma handle_mod_stays: "stays A V (\<lambda>w. w) w (handle_mod a f w)"
  by (rule stays_around) (rule handle_mod_around)

lemma deliver_stays:
  assumes "bystanders env"
  shows "stays A V (\<lambda>w. w) w (with_buffer env b (\<lambda>u. with_handle env a (\<lambda>v w.
      case k of None \<Rightarrow> Inl Bad_function_call | Some c \<Rightarrow> usr env c [v, u] args w)) w)"
  by (rule with_buffer_stays [OF assms], rule with_handle_stays)
    (auto intro!: usr_stays [OF assms] split: option.split)

lemma io_read_cb_stays:
  assumes "bystanders env"
  shows "stays A V (\<lambda>w. w) w (io_read_cb env a nread base info w)"
proof -
  have create: "steady A V w (snd (buffer_create [] w))" for w
    by (rule new_address_steady) (simp_all add: buffer_create_def)
  have found: "stays A V snd w (case base of Some b0 \<Rightarrow> rbind (buffer_from_base b0 w) (\<lambda>b. Inr (b, w))
      | None \<Rightarrow> Inr (buffer_create [] w))" for w
    by (auto simp: stays_Inr create rbind_eq_Inr intro!: staysI split: option.splits)
  show ?thesis
    unfolding io_read_cb_def
    by (intro stays_bind [OF handle_mod_stays] stays_reads stays_bind [OF found])
      (auto intro!: stays_bind [OF deliver_stays [OF assms]] io_mod_stays simp: stays_Inr)
qed

lemma watcher_cb_stays:
  assumes "bystanders env"
  shows "stays A V (\<lambda>w. w) w (watcher_cb env a args w)"
  unfolding watcher_cb_def
  by (rule stays_read) (auto simp: stays_Inr intro!: with_handle_stays usr_stays [OF assms] split: option.split)

lemma occur_stays:
  assumes "bystanders env" "hands_out env"
  shows "stays A V (\<lambda>w. w) w (occur env e a w)"
proof (cases e)
  case (Read_event n nread info)
  have "stays A V snd w (io_alloc_cb env a n w)"
    by (rule staysI) (use io_alloc_cb_hands(1) [OF assms(2)] in auto)
  then show ?thesis
    unfolding Read_event occur.simps
    by (rule stays_bind) (auto intro: io_read_cb_stays [OF assms(1)] split: prod.split)
next
  case (Connection_event status)
  then show ?thesis
    by (auto simp: stream_connection_cb_def stays_Inr split: option.split
      intro!: stays_bind [OF handle_mod_stays] stays_reads with_handle_stays usr_stays [OF assms(1)])
qed (auto simp: idle_cb_def prepare_cb_def check_cb_def poll_cb_def fs_event_cb_def signal_cb_def timer_cb_def
    timer_repeat_interval_def watch_mod_def rbind_assoc
    intro!: stays_reads stays_bind [OF handle_mod_stays] stays_bind [OF watcher_cb_stays] watcher_cb_stays
      handle_unref_stays assms)

section \<open>Correctness of the handlers\<close>

text \<open>
  The read handler is right when a variable of the program holds the handle: the client's
  callback leaves that variable alone, so that the handle is still there afterwards.
\<close>

lemma io_read_cb_held:
  assumes client: "client_ok K env" "bystanders env" and inv: "winv (owned (map_option BufferO base) E) w"
    and chunk: "\<And>b. base = Some b \<Longrightarrow> single_chunk b w" and held: "refers w (HandleO a)"
    and cb: "handles w a = Some i" "read_cb (h_io i) = Some c"
  shows "ok (grown K E) (io_read_cb env a nread base info w)"
proof (rule io_read_cb_steps [OF client(1) inv chunk cb, of nread info], assumption)
  fix b w1 w2
  assume w1: "vars w1 = vars w" "requests w1 = requests w" "nxt w \<le> nxt w1"
    and w2: "with_buffer env b (\<lambda>u. with_handle env a (\<lambda>v. usr env c [v, u]
      ([Num nread, Num (rdoffset (h_io i))] @ info))) w1 = Inr w2" "grown K E w2"
    and run: "io_read_cb env a nread base info w =
      (if 0 < nread then io_mod a (\<lambda>p. p\<lparr>rdoffset := rdoffset p + nread\<rparr>) w2 else Inr w2)"
  from held obtain v where v: "vars w v = Some (Some (HandleO a))" by (auto simp: refers_def)
  have "steady {} {} w w1" by (rule new_address_steady) (simp_all add: w1)
  moreover have "steady {} {} w1 w2"
    using staysD [OF deliver_stays [OF client(2), where k = "Some c"]] w2(1) by simp
  ultimately have "vars w2 v = vars w v"
    by (blast intro: steady_vars steady_trans winv_fresh [OF inv])
  with v have v2: "vars w2 v = Some (Some (HandleO a))" by simp
  from w2(2) obtain F where F: "winv F w2" "above K E F" by (auto simp: grown_def)
  from winv_var_live [OF F(1) v2] obtain j where "handles w2 a = Some j" by (auto simp: live_handle)
  from winv_io_mod [OF F(1) this, of "\<lambda>p. p\<lparr>rdoffset := rdoffset p + nread\<rparr>"] F w2(2)
  show "ok (grown K E) (io_read_cb env a nread base info w)"
    unfolding run by (auto simp: grown_def elim!: ok_weaken)
qed

lemma read_event_ok:
  assumes client: "client_ok {} env" "bystanders env" "hands_out env" and inv: "winv E w"
    and held: "refers w (HandleO a)" and i: "handles w a = Some i" "has_callbacks i" and n: "n \<noteq> 0"
  shows "ok (winv E) (occur env (Read_event n nread info) a w)"
proof -
  from i(2) obtain c where "alloc_cb (h_io i) = Some c" by (auto simp: has_callbacks_def)
  from io_alloc_cb_ok [OF client(1) inv i(1) this, of n] obtain base w1 b bi where
    alloc: "io_alloc_cb env a n w = Inr (base, w1)" "winv (inc (BufferO b) E) w1" "buffers w1 b = Some bi"
      "base = (if b_null bi then None else Some b)"
    by (auto simp: ok_iff above_def debts_empty)
  from io_alloc_cb_hands [OF client(3) alloc(1)] n alloc(4)
  have base: "steady {} {} w w1" "base = Some b" "single_chunk b w1" by (auto split: if_splits)
  from held obtain v where "vars w v = Some (Some (HandleO a))" by (auto simp: refers_def)
  with steady_vars [OF base(1) winv_fresh [OF inv], of v]
  have held1: "refers w1 (HandleO a)" by (auto simp: refers_def)
  from refers_handle [OF alloc(2) held1] obtain j where j: "handles w1 a = Some j" .
  from io_alloc_cb_keeps [OF client(1,3) inv held i n alloc(1) j] obtain d where d: "read_cb (h_io j) = Some d"
    by (auto simp: has_callbacks_def)
  have "ok (grown {} E) (io_read_cb env a nread base info w1)"
    by (rule io_read_cb_held [OF client(1,2) _ _ held1 j d]) (use alloc(2) base in simp_all)
  then show ?thesis by (simp add: alloc(1) grown_exact [abs_def])
qed

text \<open>Every event that is due is handled, and leaves no reference behind.\<close>

lemma occur_ok:
  assumes client: "client_ok {} env" "bystanders env" "hands_out env" and inv: "winv E w" and due: "due w e a"
  shows "ok (winv E) (occur env e a w)"
proof -
  from due obtain i where i: "handles w a = Some i" "occurs_on e i" by (auto simp: due_def)
  note cbs = watcher_cb_ok [OF client(1) inv i(1)] status_cb_ok [OF client(1) inv i(1)]
    signal_cb_ok [OF client(1) inv i(1)] timer_cb_repeating_ok [OF client(1) inv i(1)]
  show ?thesis
  proof (cases e)
    case (Read_event n nread info)
    with due i show ?thesis
      unfolding Read_event by (intro read_event_ok [OF client inv _ i(1)]) (simp_all add: due_def)
  next
    case (Connection_event status)
    with stream_connection_cb_ok [OF client(1) inv i(1), of status] show ?thesis by (simp add: grown_exact [abs_def])
  qed (use i(2) cbs in \<open>simp_all add: grown_exact [abs_def] idle_cb_def prepare_cb_def check_cb_def poll_cb_def
      fs_event_cb_def\<close>)
qed

text \<open>An event sent through an \<open>async\<close> handle, and its delivery.\<close>

lemma async_send_stays: "stays A V snd w (async_send env a w)"
  unfolding async_send_def
  by (intro stays_bind [OF handle_ref_stays] stays_bind [OF handle_set_status_stays]
      stays_bind [OF stays_around [where g = snd]])
    (auto dest: uv_on_handle_around simp: stays_Inr intro!: stays_bind [where g = "\<lambda>w. w"] handle_set_status_stays
      handle_unref_stays)

lemma async_cb_stays: "bystanders env \<Longrightarrow> stays A V (\<lambda>w. w) w (async_cb env a w)"
  unfolding async_cb_def by (rule stays_bind [OF watcher_cb_stays handle_unref_stays])

end
