(* ===== verification/Uvcc_Objects.thy ===== *)
theory Uvcc_Objects
  imports Uvcc_Pending Uvcc_Ctor
begin

text \<open>
  Programs of the variables of the wrapper classes \<open>loop\<close>, \<open>handle\<close>, \<open>buffer\<close> and \<open>request\<close>: what a
  client does that creates objects, copies, moves, assigns and swaps variables and lets them go out of scope. A
  compile-time check of scopes and classes, as C++ makes it, is enough for every reference count to
  be right and for nothing to be left behind.
\<close>

section \<open>The four classes at once\<close>

datatype wclass = Loop_class | Handle_class | Buffer_class | Request_class

fun class_of :: "obj \<Rightarrow> wclass" where
  "class_of (LoopO a) = Loop_class"
| "class_of (HandleO a) = Handle_class"
| "class_of (BufferO a) = Buffer_class"
| "class_of (RequestO a) = Request_class"

fun class_ref :: "wclass \<Rightarrow> obj \<Rightarrow> world \<Rightarrow> world res" where
  "class_ref Loop_class = loop_obj_ref"
| "class_ref Handle_class = handle_obj_ref"
| "class_ref Buffer_class = buffer_obj_ref"
| "class_ref Request_class = request_obj_ref"

fun class_unref :: "wclass \<Rightarrow> env \<Rightarrow> obj \<Rightarrow> world \<Rightarrow> world res" where
  "class_unref Loop_class = loop_obj_unref"
| "class_unref Handle_class = handle_obj_unref"
| "class_unref Buffer_class = buffer_obj_unref"
| "class_unref Request_class = request_obj_unref"

text \<open>
  Here the sink callback of a buffer, which may keep the dying buffer, leaves the variables of
  the program alone.
\<close>

definition sinks_local :: "env \<Rightarrow> bool" where
  "sinks_local env \<longleftrightarrow> (\<forall>E w c b a. winv E w \<and> vars w b = Some (Some (BufferO a)) \<longrightarrow>
     ok (\<lambda>w'. winv E w' \<and> (vars w' b = Some None \<or> vars w' b = Some (Some (BufferO a))) \<and>
          (\<forall>v. v \<noteq> b \<longrightarrow> vars w' v = vars w v)) (usr env c [b] [] w))"

lemma sinks_local_ok: "sinks_local env \<Longrightarrow> sinks_ok env"
  unfolding sinks_local_def sinks_ok_def ok_iff by blast

lemma vars_buffer_remove [store_simps]: "vars (buffer_remove a w) = vars w"
  by (simp add: buffer_remove_def)

lemma buffer_unref_local:
  assumes "sinks_local env" and inv: "winv (inc (BufferO a) E) w"
  shows "ok (\<lambda>w'. winv E w' \<and> vars w' = vars w) (buffer_unref env a w)"
proof -
  from buffer_unref_ok [OF sinks_local_ok [OF assms(1)] inv] obtain w' where
    w': "buffer_unref env a w = Inr w'" "winv E w'" by (auto simp: ok_iff)
  from winv_owned_live [OF inv] obtain i where i: "buffers w a = Some i"
    by (auto simp: live_buffer)
  have "vars w' = vars w"
  proof (cases "b_refs i = 1 \<and> b_sink_cb i \<noteq> None")
    case False
    with i w'(1) show ?thesis
      by (auto simp: buffer_unref_def buffer_destroy_def ref_count_dec_def Let_def store_simps split: if_splits)
  next
    case True
    then obtain c where c: "b_refs i = 1" "b_sink_cb i = Some c" by blast
    have "i\<lparr>b_refs := 1\<rparr> = i" using c(1) by simp
    then have same: "buffer_put a (i\<lparr>b_refs := 1\<rparr>) (buffer_put a (i\<lparr>b_refs := 0\<rparr>) w) = w"
      using i by (simp add: buffer_put_twice buffer_put_same)
    let ?b = "nxt w" and ?w = "var_store (nxt w) (Some (BufferO a)) w"
    have "winv E ?w" using inv by (intro winv_var_new) simp
    with assms(1) obtain w1 where w1: "usr env c [?b] [] ?w = Inr w1"
      "\<forall>v. v \<noteq> ?b \<longrightarrow> vars w1 v = vars ?w v"
      unfolding sinks_local_def ok_iff by (fastforce simp: store_simps)
    have fresh: "vars w ?b = None" by (rule fresh_var [OF inv])
    have "(vars w1)(?b := None) = vars w"
      using w1(2) fresh by (auto simp: fun_eq_iff store_simps)
    with w'(1) i c w1(1) same show ?thesis
      by (auto simp: buffer_unref_def buffer_destroy_def ref_count_dec_def Let_def store_simps
          var_new_store rbind_eq_Inr buffer_at_def var_load_def split: if_splits option.splits)
  qed
  with w' show ?thesis by simp
qed

definition class_env :: "env \<Rightarrow> bool" where
  "class_env env \<longleftrightarrow> closes_loops env \<and> sinks_local env"

lemma class_of_is:
  "class_of p = Loop_class \<Longrightarrow> is_loop p" "class_of p = Handle_class \<Longrightarrow> is_handle p"
  "class_of p = Buffer_class \<Longrightarrow> is_buffer p" "class_of p = Request_class \<Longrightarrow> is_request p"
  by (cases p; simp)+

lemma class_env_dest: "class_env env \<Longrightarrow> closes_loops env" "class_env env \<Longrightarrow> sinks_ok env"
  by (simp_all add: class_env_def sinks_local_ok)

lemma class_ref_law:
  assumes "class_env env" "winv E w" "class_of p = c" "live_refs w p \<noteq> None"
  shows "ok (\<lambda>w'. winv (inc p E) w' \<and> vars w' = vars w) (class_ref c p w)"
proof (cases c)
  case Loop_class
  with assms show ?thesis by (simp add: loop_rc.ref_law [OF class_env_dest(1)] class_of_is)
next
  case Handle_class
  with assms show ?thesis by (simp add: handle_rc.ref_law [OF class_env_dest(1)] class_of_is)
next
  case Buffer_class
  with assms show ?thesis by (simp add: buffer_rc.ref_law [OF class_env_dest(2)] class_of_is)
next
  case Request_class
  with assms show ?thesis by (simp add: request_rc.ref_law class_of_is)
qed

lemma class_unref_law:
  assumes "class_env env" "winv (inc p E) w" "class_of p = c"
  shows "ok (\<lambda>w'. winv E w' \<and> vars w' = vars w) (class_unref c env p w)"
proof (cases c)
  case Loop_class
  with assms show ?thesis by (simp add: loop_rc.unref_quiet [OF class_env_dest(1)] class_of_is)
next
  case Handle_class
  with assms show ?thesis by (simp add: handle_rc.unref_quiet [OF class_env_dest(1)] class_of_is)
next
  case Buffer_class
  with assms show ?thesis by (cases p) (simp_all add: class_env_def buffer_unref_local)
next
  case Request_class
  with assms show ?thesis by (simp add: request_rc.unref_quiet class_of_is)
qed

interpretation class_rc:
  refcounted_quiet "class_ref c" "class_unref c env" "\<lambda>p. class_of p = c" "class_env env" for c env
  by unfold_locales (blast intro: class_ref_law class_unref_law ok_weaken [OF class_unref_law])+

section \<open>Programs\<close>

text \<open>
  \<open>New_handle f init args v l\<close> stands for the constructors of the handle classes that initialise
  a handle on a loop with the function \<open>init\<close> of libuv, one of \<open>loop_inits\<close>. A moved-from loop
  variable is a null pointer, which they dereference. The other constructors are those of the modelled
  components.
\<close>

datatype stmt =
    New_loop var
  | New_handle iface string "arg list" var var
  | New_buffer var "64 word list"
  | New_request var uv_req_type
  | Copy wclass var var
  | Copy_assign wclass var var
  | Move wclass var var
  | Move_assign wclass var var
  | Swap wclass var var
  | Drop wclass var

fun stmt_exec :: "env \<Rightarrow> stmt \<Rightarrow> world \<Rightarrow> world res" where
  "stmt_exec env (New_loop v) w = Inr (loop_ctor env v w)"
| "stmt_exec env (New_handle f init args v l) w =
     rbind (var_load l w) (\<lambda>p. case p of
         Some (LoopO a) \<Rightarrow> rbind (construct env f init (Some a) args w) (\<lambda>(h, w).
           Inr (var_store v (Some (HandleO h)) w))
       | _ \<Rightarrow> Inl Null_deref)"
| "stmt_exec env (New_buffer v lens) w = Inr (buffer_var_ctor v lens w)"
| "stmt_exec env (New_request v t) w =
     rbind (request_ctor t w) (\<lambda>(a, w). Inr (var_store v (Some (RequestO a)) w))"
| "stmt_exec env (Copy c v u) w = sp_copy_ctor (class_ref c) v u w"
| "stmt_exec env (Copy_assign c v u) w = sp_copy_assign (class_ref c) (class_unref c env) v u w"
| "stmt_exec env (Move c v u) w = sp_move_ctor v u w"
| "stmt_exec env (Move_assign c v u) w = sp_move_assign (class_unref c env) v u w"
| "stmt_exec env (Swap c v u) w = sp_swap v u w"
| "stmt_exec env (Drop c v) w = sp_dtor (class_unref c env) v w"

primrec prog_exec :: "env \<Rightarrow> stmt list \<Rightarrow> world \<Rightarrow> world res" where
  "prog_exec env [] w = Inr w"
| "prog_exec env (x # xs) w = rbind (stmt_exec env x w) (prog_exec env xs)"

text \<open>The check: the variables in scope and their classes, before and after.\<close>

definition declared :: "(var \<rightharpoonup> wclass) \<Rightarrow> var \<Rightarrow> wclass \<Rightarrow> (var \<rightharpoonup> wclass) option" where
  "declared G v c = (if G v = None then Some (G(v \<mapsto> c)) else None)"

fun stmt_check :: "(var \<rightharpoonup> wclass) \<Rightarrow> stmt \<Rightarrow> (var \<rightharpoonup> wclass) option" where
  "stmt_check G (New_loop v) = declared G v Loop_class"
| "stmt_check G (New_handle f init args v l) =
     (if G l = Some Loop_class \<and> (f, init) \<in> set loop_inits then declared G v Handle_class else None)"
| "stmt_check G (New_buffer v lens) = declared G v Buffer_class"
| "stmt_check G (New_request v t) = declared G v Request_class"
| "stmt_check G (Copy c v u) = (if G u = Some c then declared G v c else None)"
| "stmt_check G (Copy_assign c v u) = (if G u = Some c \<and> G v = Some c then Some G else None)"
| "stmt_check G (Move c v u) = (if G u = Some c then declared G v c else None)"
| "stmt_check G (Move_assign c v u) = (if G u = Some c \<and> G v = Some c then Some G else None)"
| "stmt_check G (Swap c v u) = (if G u = Some c \<and> G v = Some c then Some G else None)"
| "stmt_check G (Drop c v) = (if G v = Some c then Some (G(v := None)) else None)"

fun prog_check :: "(var \<rightharpoonup> wclass) \<Rightarrow> stmt list \<Rightarrow> (var \<rightharpoonup> wclass) option" where
  "prog_check G [] = Some G"
| "prog_check G (x # xs) = (case stmt_check G x of None \<Rightarrow> None | Some G' \<Rightarrow> prog_check G' xs)"

section \<open>Soundness\<close>

fun cell_of :: "wclass option \<Rightarrow> obj option option \<Rightarrow> bool" where
  "cell_of None x = (x = None)"
| "cell_of (Some c) x = (\<exists>p. x = Some p \<and> (\<forall>q. p = Some q \<longrightarrow> class_of q = c))"

definition well_typed :: "(var \<rightharpoonup> wclass) \<Rightarrow> (var \<rightharpoonup> obj option) \<Rightarrow> bool" where
  "well_typed G m \<longleftrightarrow> (\<forall>v. cell_of (G v) (m v))"

lemma typed_none: "well_typed G m \<Longrightarrow> G v = None \<Longrightarrow> m v = None"
  unfolding well_typed_def by (metis cell_of.simps(1))

lemma typed_some:
  "well_typed G m \<Longrightarrow> G v = Some c \<Longrightarrow> \<exists>p. m v = Some p \<and> class_rc.fits c p"
  unfolding well_typed_def class_rc.fits_def by (metis cell_of.simps(2))

lemma typed_upd:
  "well_typed G m \<Longrightarrow> class_rc.fits c p \<Longrightarrow> well_typed (G(v \<mapsto> c)) (m(v \<mapsto> p))"
  by (simp add: well_typed_def class_rc.fits_def)

lemma typed_keep:
  "well_typed G m \<Longrightarrow> G v = Some c \<Longrightarrow> class_rc.fits c p \<Longrightarrow> well_typed G (m(v \<mapsto> p))"
  using typed_upd [of G m c p v] by (simp add: fun_upd_idem)

lemma typed_drop: "well_typed G m \<Longrightarrow> well_typed (G(v := None)) (m(v := None))"
  by (simp add: well_typed_def)

lemma fits_simps [simp]:
  "class_rc.fits c None" "class_rc.fits c (Some q) \<longleftrightarrow> class_of q = c"
  by (simp_all add: class_rc.fits_def)

text \<open>The one statement that passes the check and still fails constructs a handle on a moved-from loop.\<close>

fun moved_loop :: "world \<Rightarrow> stmt \<Rightarrow> bool" where
  "moved_loop w (New_handle f init args v l) = (vars w l = Some None)"
| "moved_loop w x = False"

definition sound :: "(obj \<Rightarrow> nat) \<Rightarrow> (var \<rightharpoonup> wclass) \<Rightarrow> world res \<Rightarrow> bool" where
  "sound E G r = (\<forall>w. r = Inr w \<longrightarrow> winv E w \<and> well_typed G (vars w))"

lemma loop_create_ok:
  assumes "winv E w" "loop_create env w = (a, w')"
  shows "winv (inc (LoopO a) E) w'" "vars w' = vars w" "loops w a = None"
proof -
  let ?e = "Call ''uv_loop_init'' [Ptr (Some (nxt w))]"
  let ?l = "\<lparr>l_uv_error = uv_ret env (trace w) ?e, l_refs = 1, l_destroy_cb = None, l_exit_cb = None\<rparr>"
  from assms(2) have a: "a = nxt w"
    and w': "w' = (emit ?e w)\<lparr>loops := (loops w)(a \<mapsto> ?l), nxt := Suc a\<rparr>"
    by (auto simp: loop_create_def uv_def Let_def emit_def)
  show none: "loops w a = None"
    using winv_bounded [OF assms(1)] by (auto simp: bounded_def a)
  show "winv (inc (LoopO a) E) w'"
    unfolding winv_def
  proof (intro conjI allI)
    show "bounded w'"
      using winv_bounded [OF assms(1)] by (auto simp: bounded_def w' a less_Suc_eq emit_def)
    fix p
    have "held (inc (LoopO a) E) w' p = held E w p + (if p = LoopO a then 1 else 0)"
      using booked_cong [of w' w] by (simp add: held_def inc_apply w' emit_def)
    moreover have "live_refs w' p = (if p = LoopO a then Some 1 else live_refs w p)"
      by (auto simp: live_refs_def w' emit_def split: obj.split)
    moreover have "held E w (LoopO a) = 0"
      using winv_agrees [OF assms(1), of "LoopO a"] none by (simp add: live_loop)
    ultimately show "agrees (live_refs w' p) (held (inc (LoopO a) E) w' p)"
      using winv_agrees [OF assms(1), of p] by auto
  qed
  show "vars w' = vars w" by (simp add: w' emit_def)
qed

lemma buffer_create_vars: "buffer_create lens w = (a, w') \<Longrightarrow> vars w' = vars w"
  by (auto simp: buffer_create_def)

lemma declared_iff: "declared G v c = Some G' \<longleftrightarrow> G v = None \<and> G' = G(v \<mapsto> c)"
  by (auto simp: declared_def)

text \<open>
  What a statement means, without addresses, counts and instances: which variable refers to what
  afterwards. The object \<open>q\<close> is the one the statement creates, where it creates one.
\<close>

fun rebinds :: "stmt \<Rightarrow> obj \<Rightarrow> (var \<rightharpoonup> obj option) \<Rightarrow> (var \<rightharpoonup> obj option)" where
  "rebinds (New_loop v) q m = m(v \<mapsto> Some q)"
| "rebinds (New_handle f init args v l) q m = m(v \<mapsto> Some q)"
| "rebinds (New_buffer v lens) q m = m(v \<mapsto> Some q)"
| "rebinds (New_request v t) q m = m(v \<mapsto> Some q)"
| "rebinds (Copy c v u) q m = m(v := m u)"
| "rebinds (Copy_assign c v u) q m = m(v := m u)"
| "rebinds (Move c v u) q m = m(v := m u, u \<mapsto> None)"
| "rebinds (Move_assign c v u) q m = (if v = u then m else m(v := m u, u \<mapsto> None))"
| "rebinds (Swap c v u) q m = m(v := m u, u := m v)"
| "rebinds (Drop c v) q m = m(v := None)"

fun creates :: "stmt \<Rightarrow> wclass option" where
  "creates (New_loop v) = Some Loop_class"
| "creates (New_handle f init args v l) = Some Handle_class"
| "creates (New_buffer v lens) = Some Buffer_class"
| "creates (New_request v t) = Some Request_class"
| "creates _ = None"

lemma rebinds_typed:
  assumes m: "well_typed G m" and chk: "stmt_check G x = Some G'" and q: "\<And>c. creates x = Some c \<Longrightarrow> class_of q = c"
  shows "well_typed G' (rebinds x q m)"
proof -
  show ?thesis
  proof (cases x)
    case (Copy c v u)
    with chk m typed_some [OF m, of u c] show ?thesis
      by (auto simp: declared_iff split: if_splits intro!: typed_upd)
  next
    case (Copy_assign c v u)
    with chk m typed_some [OF m, of u c] show ?thesis
      by (auto split: if_splits intro!: typed_keep [where c = c])
  next
    case (Move c v u)
    with chk m typed_some [OF m, of u c] show ?thesis
      by (auto simp: declared_iff split: if_splits intro!: typed_keep [OF typed_upd, where c = c])
  next
    case (Move_assign c v u)
    with chk m typed_some [OF m, of u c] show ?thesis
      by (auto split: if_splits intro!: typed_keep [OF typed_keep, where c = c])
  next
    case (Swap c v u)
    with chk m typed_some [OF m, of u c] typed_some [OF m, of v c] show ?thesis
      by (auto split: if_splits intro!: typed_keep [OF typed_keep, where c = c])
  next
    case (Drop c v)
    with chk m show ?thesis by (auto split: if_splits intro!: typed_drop)
  qed (use m chk q in \<open>auto simp: declared_iff split: if_splits intro!: typed_upd\<close>)
qed

definition made :: "stmt \<Rightarrow> obj \<Rightarrow> world \<Rightarrow> bool" where
  "made x q w \<longleftrightarrow> (\<forall>c. creates x = Some c \<longrightarrow> class_of q = c \<and> live_refs w q = None)"

definition effect :: "(obj \<Rightarrow> nat) \<Rightarrow> world \<Rightarrow> stmt \<Rightarrow> world res \<Rightarrow> bool" where
  "effect E w x r = (case r of Inl e \<Rightarrow> e = Null_deref \<and> moved_loop w x
     | Inr w' \<Rightarrow> \<not> moved_loop w x \<and> winv E w' \<and> (\<exists>q. vars w' = rebinds x q (vars w) \<and> made x q w))"

lemma moved_creates: "moved_loop w x \<Longrightarrow> creates x \<noteq> None"
  by (cases x) simp_all

lemma effect_bind: "ok P r \<Longrightarrow> (\<And>y. P y \<Longrightarrow> effect E w x (f y)) \<Longrightarrow> effect E w x (rbind r f)"
  by (auto simp: ok_iff)

lemma effect_same:
  "ok (\<lambda>w'. winv E w' \<and> vars w' = m) r \<Longrightarrow> creates x = None \<Longrightarrow> (\<And>q. rebinds x q (vars w) = m) \<Longrightarrow> effect E w x r"
  by (auto simp: effect_def ok_iff made_def dest: moved_creates)

lemma effect_create:
  "winv (inc q E) w' \<Longrightarrow> vars w' = vars w \<Longrightarrow> vars w v = None \<Longrightarrow> live_refs w q = None \<Longrightarrow>
   creates x = Some (class_of q) \<Longrightarrow> \<not> moved_loop w x \<Longrightarrow> rebinds x q (vars w) = (vars w)(v \<mapsto> Some q) \<Longrightarrow>
   effect E w x (Inr (var_store v (Some q) w'))"
  by (auto simp: effect_def made_def store_simps intro!: winv_var_acquire exI [of _ q])

lemma stmt_effect:
  assumes env: "class_env env" "library_inits env"
    and w: "winv E w" "well_typed G (vars w)" and chk: "stmt_check G x = Some G'"
  shows "effect E w x (stmt_exec env x w)"
proof (cases x)
  case (New_loop v)
  obtain a w' where c: "loop_create env w = (a, w')" by force
  with chk typed_none [OF w(2), of v] show ?thesis
    using effect_create [OF loop_create_ok(1,2) [OF w(1) c], of v x] loop_create_ok(3) [OF w(1) c]
    by (simp add: New_loop declared_iff loop_ctor_def live_loop)
next
  case (New_handle f init args v l)
  with chk have G: "G l = Some Loop_class" "G v = None" and init: "inits env init"
    using library_initsD [OF env(2), of f init] by (auto simp: declared_iff split: if_splits)
  from typed_some [OF w(2) G(1)] obtain p where p: "vars w l = Some p" "class_rc.fits Loop_class p" by blast
  show ?thesis
  proof (cases p)
    case None
    with p(1) show ?thesis by (simp add: New_handle var_load_def effect_def)
  next
    case (Some q)
    with p(2) obtain a where a: "q = LoopO a" by (cases q) auto
    have "loops w a \<noteq> None" using winv_var_live [OF w(1), of l q] p(1) Some a by (auto simp: live_loop)
    from construct_ok [OF init w(1) this, where f = f and args = args] p(1) Some show ?thesis
      unfolding New_handle stmt_exec.simps var_load_def p(1) Some a
      by (simp, elim effect_bind)
        (use typed_none [OF w(2) G(2)] p(1) Some in \<open>auto simp: live_handle intro!: effect_create [where q = "HandleO _"]\<close>)
  qed
next
  case (New_buffer v lens)
  obtain a w' where c: "buffer_create lens w = (a, w')" by force
  with chk typed_none [OF w(2), of v] show ?thesis
    using effect_create [OF buffer_create_ok(1) [OF w(1) c] buffer_create_vars [OF c], of v x]
      buffer_create_ok(2) [OF w(1) c]
    by (simp add: New_buffer declared_iff buffer_var_ctor_def live_buffer)
next
  case (New_request v t)
  with chk typed_none [OF w(2), of v] show ?thesis
    unfolding New_request stmt_exec.simps
    by (intro effect_bind [OF request_ctor_ok [OF w(1)]])
      (auto simp: declared_iff live_request intro!: effect_create [where q = "RequestO _"])
next
  case (Copy c v u)
  with chk have G: "G u = Some c" "G v = None"
    by (auto simp: declared_iff split: if_splits)
  from typed_some [OF w(2) G(1)] obtain p where p: "vars w u = Some p" "class_rc.fits c p" by blast
  from class_rc.copy_ctor_ok [OF env(1) w(1) p typed_none [OF w(2) G(2)]] p(1) show ?thesis
    unfolding Copy stmt_exec.simps by (elim effect_same) simp_all
next
  case (Copy_assign c v u)
  with chk have G: "G u = Some c" "G v = Some c" by (auto split: if_splits)
  from typed_some [OF w(2) G(1)] obtain p where p: "vars w u = Some p" "class_rc.fits c p" by blast
  from typed_some [OF w(2) G(2)] obtain t where t: "vars w v = Some t" "class_rc.fits c t" by blast
  from class_rc.copy_assign_quiet [OF env(1) w(1) p t] p(1) show ?thesis
    unfolding Copy_assign stmt_exec.simps by (elim effect_same) simp_all
next
  case (Move c v u)
  with chk have G: "G u = Some c" "G v = None"
    by (auto simp: declared_iff split: if_splits)
  from typed_some [OF w(2) G(1)] obtain p where p: "vars w u = Some p" "class_rc.fits c p" by blast
  from class_rc.move_ctor_ok [OF w(1) p(1) typed_none [OF w(2) G(2)]] p(1) show ?thesis
    unfolding Move stmt_exec.simps by (elim effect_same) simp_all
next
  case (Move_assign c v u)
  with chk have G: "G u = Some c" "G v = Some c" by (auto split: if_splits)
  from typed_some [OF w(2) G(1)] obtain p where p: "vars w u = Some p" "class_rc.fits c p" by blast
  from typed_some [OF w(2) G(2)] obtain t where t: "vars w v = Some t" "class_rc.fits c t" by blast
  show ?thesis
  proof (cases "v = u")
    case True
    with w show ?thesis by (simp add: Move_assign sp_move_assign_def effect_def made_def)
  next
    case False
    with class_rc.move_assign_quiet [OF env(1) w(1) p(1) t False] p(1) show ?thesis
      unfolding Move_assign stmt_exec.simps by (elim effect_same) simp_all
  qed
next
  case (Swap c v u)
  with chk have G: "G u = Some c" "G v = Some c" by (auto split: if_splits)
  from typed_some [OF w(2) G(1)] obtain p where p: "vars w u = Some p" "class_rc.fits c p" by blast
  from typed_some [OF w(2) G(2)] obtain t where t: "vars w v = Some t" "class_rc.fits c t" by blast
  from swap_ok [OF w(1) t(1) p(1)] p(1) t(1) show ?thesis
    unfolding Swap stmt_exec.simps by (elim effect_same) simp_all
next
  case (Drop c v)
  with chk have G: "G v = Some c" by (auto split: if_splits)
  from typed_some [OF w(2) G(1)] obtain p where p: "vars w v = Some p" "class_rc.fits c p" by blast
  from class_rc.dtor_quiet [OF env(1) w(1) p] show ?thesis
    unfolding Drop stmt_exec.simps by (elim effect_same) simp_all
qed

lemma stmt_sound:
  assumes "class_env env" "library_inits env" "winv E w" "well_typed G (vars w)" "stmt_check G x = Some G'"
  shows "sound E G' (stmt_exec env x w)"
  using stmt_effect [OF assms] rebinds_typed [OF assms(4,5)]
  by (auto simp: effect_def made_def sound_def)

text \<open>Which statement fails, and that all others go through.\<close>

lemma stmt_fails_iff:
  assumes "class_env env" "library_inits env" "winv E w" "well_typed G (vars w)" "stmt_check G x = Some G'"
  shows "if moved_loop w x then stmt_exec env x w = Inl Null_deref else ok (\<lambda>_. True) (stmt_exec env x w)"
  using stmt_effect [OF assms] by (auto simp: effect_def ok_iff split: sum.splits)

lemma prog_sound:
  assumes env: "class_env env" "library_inits env"
  shows "winv E w \<Longrightarrow> well_typed G (vars w) \<Longrightarrow> prog_check G xs = Some G' \<Longrightarrow>
    sound E G' (prog_exec env xs w)"
proof (induction xs arbitrary: G w)
  case Nil
  then show ?case by (simp add: sound_def)
next
  case (Cons x xs)
  from Cons.prems(3) obtain G1 where G1: "stmt_check G x = Some G1" "prog_check G1 xs = Some G'"
    by (auto split: option.splits)
  from stmt_sound [OF env Cons.prems(1,2) G1(1)] Cons.IH G1(2) show ?case
    by (cases "stmt_exec env x w") (auto simp: sound_def)
qed

lemma prog_fails:
  assumes env: "class_env env" "library_inits env"
  shows "winv E w \<Longrightarrow> well_typed G (vars w) \<Longrightarrow> prog_check G xs = Some G' \<Longrightarrow> prog_exec env xs w = Inl e \<Longrightarrow>
    e = Null_deref \<and> (\<exists>ys x zs w'. xs = ys @ x # zs \<and> prog_exec env ys w = Inr w' \<and> moved_loop w' x)"
proof (induction xs arbitrary: G w)
  case Nil
  then show ?case by simp
next
  case (Cons x xs)
  from Cons.prems(3) obtain G1 where G1: "stmt_check G x = Some G1" "prog_check G1 xs = Some G'"
    by (auto split: option.splits)
  note fails = stmt_fails_iff [OF env Cons.prems(1,2) G1(1)]
  show ?case
  proof (cases "stmt_exec env x w")
    case (Inl e')
    with fails Cons.prems(4) show ?thesis
      by (auto split: if_splits intro!: exI [of _ "[] :: stmt list"])
  next
    case (Inr w1)
    with Cons.prems(4) have run: "prog_exec env xs w1 = Inl e" by simp
    from stmt_sound [OF env Cons.prems(1,2) G1(1)] Inr have "winv E w1" "well_typed G1 (vars w1)"
      by (simp_all add: sound_def)
    from Cons.IH [OF this G1(2) run] obtain ys y zs w' where e: "e = Null_deref"
      and at: "xs = ys @ y # zs" "prog_exec env ys w1 = Inr w'" "moved_loop w' y" by blast
    then have "x # xs = (x # ys) @ y # zs \<and> prog_exec env (x # ys) w = Inr w' \<and> moved_loop w' y"
      by (simp add: Inr)
    with e show ?thesis by blast
  qed
qed

lemma moved_loop_iff: "moved_loop w x \<longleftrightarrow> (\<exists>f init args v l. x = New_handle f init args v l \<and> vars w l = Some None)"
  by (cases x) auto

text \<open>What is left without variables.\<close>

lemma nothing_left:
  assumes "winv (\<lambda>_. 0) w" "vars w = Map.empty"
  shows "buffers w a = None" "requests w a = None" "handles w a = Some i \<Longrightarrow> 0 < owes i"
    "loops w l \<noteq> None \<Longrightarrow> \<exists>a i. handles w a = Some i \<and> h_loop i = Some l"
proof -
  have g: "agrees (live_refs w p) (booked w p)" for p
    using winv_agrees [OF assms(1), of p] assms(2) by (simp add: held_def)
  show "buffers w a = None" using g [of "BufferO a"] by (cases "buffers w a") (simp_all add: booked_def live_buffer)
  show "requests w a = None" using g [of "RequestO a"] by (cases "requests w a") (simp_all add: booked_def live_request)
  show "0 < owes i" if "handles w a = Some i"
    using g [of "HandleO a"] that by (simp add: booked_def live_handle)
  show "\<exists>a i. handles w a = Some i \<and> h_loop i = Some l" if "loops w l \<noteq> None"
  proof -
    have "count_ptr (booking w) l \<noteq> 0"
      using g [of "LoopO l"] that by (auto simp: booked_def live_loop)
    then show ?thesis
      using count_ptr_zero [OF winv_finite(2) [OF assms(1)], of l] by (auto simp: booking_def)
  qed
qed

text \<open>
  C5: A program of variables that passes the check of scopes and classes never uses a deleted
  instance and never gives a reference to the wrong class, whatever it copies, moves, assigns,
  swaps or destroys in whatever order: no variable ever dangles, and moved-from variables can be
  copied, assigned, swapped and destroyed like any other. The program stops for one reason only: after
  a part of it that has gone well, the next statement constructs a handle on a loop variable that has been
  moved from. When all variables
  have gone out of scope nothing is left but handles in an active state, which keep
  themselves alive, and the loops these have booked.
\<close>

theorem wrapper_programs_ok:
  assumes "class_env env" "library_inits env" "prog_check Map.empty prog = Some G"
  shows "case prog_exec env prog world_init of
      Inl e \<Rightarrow> e = Null_deref \<and> (\<exists>ys zs f init args v l w. prog = ys @ New_handle f init args v l # zs \<and>
        prog_exec env ys world_init = Inr w \<and> vars w l = Some None)
    | Inr w \<Rightarrow> (\<forall>v p. vars w v = Some (Some p) \<longrightarrow> G v = Some (class_of p) \<and> live_refs w p \<noteq> None) \<and>
        (G = Map.empty \<longrightarrow> buffers w = Map.empty \<and> requests w = Map.empty \<and>
          (\<forall>a i. handles w a = Some i \<longrightarrow> 0 < owes i) \<and>
          (\<forall>l. loops w l \<noteq> None \<longrightarrow> (\<exists>a i. handles w a = Some i \<and> h_loop i = Some l)))"
proof (cases "prog_exec env prog world_init")
  case (Inl e)
  have "well_typed Map.empty (vars world_init)" by (simp add: well_typed_def world_init_def)
  from prog_fails [OF assms(1,2) winv_world_init this assms(3) Inl] show ?thesis
    unfolding Inl sum.case moved_loop_iff by metis
next
  case (Inr w)
  from prog_sound [OF assms(1,2) winv_world_init _ assms(3)] Inr
  have w: "winv (\<lambda>_. 0) w" "well_typed G (vars w)"
    by (simp_all add: sound_def well_typed_def world_init_def)
  have "G v = Some (class_of p) \<and> live_refs w p \<noteq> None" if v: "vars w v = Some (Some p)" for v p
    using typed_none [OF w(2), of v] typed_some [OF w(2), of v] winv_var_live [OF w(1) v] v
    by (cases "G v") auto
  moreover have "vars w = Map.empty" if "G = Map.empty"
    using typed_none [OF w(2)] that by auto
  ultimately show ?thesis
    using nothing_left [OF w(1)] by (auto simp: Inr fun_eq_iff)
qed

text \<open>
  A loop, a TCP handle on it, copies and moves of both, a buffer that is assigned another, all
  destroyed in another order.
\<close>

definition prog_example :: "stmt list" where
  "prog_example = [New_loop 0, New_handle If_stream ''uv_tcp_init_ex'' [Num 0] 10 0, Copy Handle_class 11 10,
     Copy Loop_class 1 0, Move_assign Loop_class 0 1, New_buffer 20 [8], New_buffer 21 [16, 1],
     Copy_assign Buffer_class 20 21, Drop Loop_class 0, New_request 30 UV_WRITE, Move Request_class 31 30,
     Swap Handle_class 10 11, Drop Handle_class 10, Drop Loop_class 1, Drop Buffer_class 21,
     Drop Request_class 30, Drop Request_class 31, Drop Buffer_class 20, Drop Handle_class 11]"

theorem wrapper_programs_ok_witness:
  "case prog_exec quiet_env prog_example world_init of
      Inl e \<Rightarrow> False
    | Inr w \<Rightarrow> buffers w = Map.empty \<and> requests w = Map.empty \<and> (\<forall>v p. vars w v \<noteq> Some (Some p))"
proof -
  have env: "class_env quiet_env"
    unfolding class_env_def by (intro conjI closes_loops_quiet) (simp add: sinks_local_def quiet_env_def)
  have chk: "prog_check Map.empty prog_example = Some Map.empty"
    by (simp add: prog_example_def declared_def loop_inits_def fun_upd_twist)
  have "ok (\<lambda>w. True) (prog_exec quiet_env prog_example world_init)"
    by code_simp
  with wrapper_programs_ok [OF env library_inits_quiet chk] show ?thesis
    by (auto split: sum.splits)
qed

end
