(* ===== verification/Uvcc_Session_Frame.thy ===== *)
theory Uvcc_Session_Frame
  imports Uvcc_Operations Uvcc_Commands Uvcc_Objects
begin

text \<open>
  What the statements of a program, accepting a connection and opening a file leave alone: the
  contents of the requests, and every variable but those they are about.
\<close>

section \<open>Statements\<close>

text \<open>Statements change variables, but of requests only counts; new ones are at new addresses.\<close>

lemma class_ref_stays: "stays A V (\<lambda>w. w) w (class_ref c q w)"
  by (cases c; cases q) (simp_all add: loop_ref_stays handle_ref_stays buffer_ref_stays request_ref_stays)

lemma class_unref_stays: "bystanders env \<Longrightarrow> stays A V (\<lambda>w. w) w (class_unref c env q w)"
  by (cases c; cases q) (simp_all add: loop_unref_stays handle_unref_stays buffer_unref_stays request_unref_stays)

lemma steady_store: "steady A UNIV w w' \<Longrightarrow> steady A UNIV w (var_store v p w')"
  by (erule steady_trans) (simp add: steady_var_store)

lemma steady_drop: "steady A UNIV w w' \<Longrightarrow> steady A UNIV w (var_drop v w')"
  by (erule steady_trans) (simp add: steady_var_drop)

lemma stays_optional:
  "(\<And>q w. stays A V (\<lambda>w. w) w (f q w)) \<Longrightarrow> steady A V w w' \<Longrightarrow>
   stays A V (\<lambda>w. w) w (case p of None \<Rightarrow> Inr w' | Some q \<Rightarrow> f q w')"
  by (auto simp: stays_Inr intro: stays_from split: option.split)

lemma sp_from_stays:
  assumes "\<And>q w. stays A UNIV (\<lambda>w. w) w (ref q w)"
  shows "stays A UNIV (\<lambda>w. w) w (sp_from ref v p w)"
  unfolding sp_from_def
  by (rule stays_bind [OF stays_optional]) (auto simp: stays_Inr assms intro!: steady_store)

lemma sp_assign_stays:
  assumes "\<And>q w. stays A UNIV (\<lambda>w. w) w (ref q w)" "\<And>q w. stays A UNIV (\<lambda>w. w) w (unref q w)"
  shows "stays A UNIV (\<lambda>w. w) w (sp_copy_assign ref unref v u w)"
  unfolding sp_copy_assign_def Let_def
  by (auto simp: stays_Inr intro!: stays_reads stays_bind [OF stays_optional] stays_optional assms steady_store)

lemma sp_move_stays:
  assumes "\<And>q w. stays A UNIV (\<lambda>w. w) w (unref q w)"
  shows "stays A UNIV (\<lambda>w. w) w (sp_move_ctor v u w)" "stays A UNIV (\<lambda>w. w) w (sp_move_assign unref v u w)"
    "stays A UNIV (\<lambda>w. w) w (sp_swap v u w)"
  unfolding sp_move_ctor_def sp_move_assign_def sp_swap_def Let_def
  by (auto simp: stays_Inr intro!: stays_reads stays_optional assms steady_store)

lemma sp_copy_stays:
  assumes "\<And>q w. stays A UNIV (\<lambda>w. w) w (ref q w)"
  shows "stays A UNIV (\<lambda>w. w) w (sp_copy_ctor ref v u w)"
  unfolding sp_copy_ctor_def by (intro stays_reads sp_from_stays assms)

lemma construct_stays: "stays A V snd w (construct env f init l args w)"
proof -
  have "stays A V snd w (rbind (uv_on_handle env init a x w) (\<lambda>(r, w).
      rbind (handle_set_status a r w) (\<lambda>w. if r < 0 then Inr (a, w)
      else rbind (book_loop env a w) (\<lambda>w. Inr (a, w)))))" for a x w
    by (rule stays_bind [OF stays_around [where g = snd]])
      (auto dest: uv_on_handle_around simp: stays_Inr
        intro!: stays_bind [OF handle_set_status_stays] stays_bind [OF book_loop_stays])
  then show ?thesis
    unfolding construct_def handle_create_def Let_def prod.case
    by (rule stays_from [OF new_address_steady, rotated 3]) simp_all
qed

lemma stmt_stays:
  assumes "bystanders env"
  shows "stays {} UNIV (\<lambda>w. w) w (stmt_exec env x w)"
proof -
  note sp = sp_copy_stays [OF class_ref_stays] sp_assign_stays [OF class_ref_stays class_unref_stays [OF assms]]
    sp_move_stays [OF class_unref_stays [OF assms]] sp_dtor_stays [OF class_unref_stays [OF assms] UNIV_I]
  show ?thesis
  proof (cases x)
    case (New_loop v)
    then show ?thesis
      by (auto simp: loop_ctor_def loop_create_def uv_def Let_def stays_Inr emit_def
        intro!: steady_trans [OF new_address_steady steady_var_store])
  next
    case (New_handle f init args v l)
    then show ?thesis
      by (auto simp: stays_Inr steady_var_store intro!: stays_reads stays_bind [OF construct_stays]
        split: option.split obj.split prod.split)
  next
    case (New_buffer v lens)
    then show ?thesis
      by (auto simp: buffer_var_ctor_def buffer_create_def Let_def stays_Inr
        intro!: steady_trans [OF new_address_steady steady_var_store])
  next
    case (New_request v t)
    have "stays {} UNIV snd w (request_ctor t w)"
      by (auto simp: request_ctor_def request_create_def request_mod_def request_at_def request_put_def stays_Inr
        intro!: new_address_steady)
    with New_request show ?thesis
      by (auto simp: stays_Inr steady_var_store intro!: stays_bind [where g = snd] split: prod.split)
  qed (simp_all add: sp)
qed

section \<open>Connections and files\<close>

lemma status_call_stays: "stays A V snd w (status_call env f a args w)"
  by (rule stays_around) (auto dest: status_call_around)

lemma accept_on_stays: "stays A V snd w (accept_on env a (c, w))"
  unfolding accept_on_def prod.case
  by (auto simp: stays_Inr intro!: stays_reads stays_bind [OF handle_set_status_stays]
      stays_bind [OF status_call_stays])

lemma stream_accept_stays: "stays A V snd w (stream_accept env a w)"
  unfolding stream_accept_def
  by (rule stays_read, rule stays_bind [where g = snd])
    (auto simp: accept_on_stays intro!: construct_stays split: uv_handle_type.split)

lemma new_handle_steady: "handle_create f w = (a, w') \<Longrightarrow> steady A V w w'"
  by (rule new_address_steady) (auto simp: handle_create_def)

lemma file_open_stays: "stays A V snd w (file_open env l path flags mode (Some c) w)"
proof -
  obtain a w1 where create: "handle_create If_file w = (a, w1)" by force
  have "stays A V snd w1 (rbind (handle_ref a w1) (\<lambda>w. rbind (file_mod a (\<lambda>p. p\<lparr>open_cb := Some c\<rparr>) w) (\<lambda>w.
      rbind (handle_set_status a 0 w) (\<lambda>w. rbind (uv_on_handle env ''uv_fs_open'' a
        [Ptr l, Str path, Num flags, Num mode, Callback True] w) (\<lambda>(uv_ret, w).
      rbind (if 0 \<le> uv_ret then book_loop env a w
        else rbind (handle_set_status a uv_ret w) (\<lambda>w. handle_unref env a w)) (\<lambda>w. Inr (a, w)))))))"
    by (rule stays_bind [OF handle_ref_stays], rule stays_bind [OF file_mod_stays],
        rule stays_bind [OF handle_set_status_stays], rule stays_bind [OF uv_on_handle_stays])
      (auto simp: stays_Inr rbind_assoc split: prod.split intro!: stays_bind [OF book_loop_stays]
        stays_bind [OF handle_set_status_stays] stays_bind [OF handle_unref_stays])
  from stays_from [OF new_handle_steady [OF create] this] show ?thesis
    by (simp add: file_open_def create)
qed

lemma file_open_cb_stays: "bystanders env \<Longrightarrow> stays A V (\<lambda>w. w) w (file_open_cb env a w)"
  unfolding file_open_cb_def
  by (intro stays_bind [OF handle_mod_stays] stays_reads stays_bind [where g = "\<lambda>w. w"])
    (auto simp: stays_Inr intro!: with_handle_stays usr_stays handle_unref_stays split: option.split)

end
