(* ===== verification/Uvcc_Session.thy ===== *)
theory Uvcc_Session
  imports Uvcc_Session_Frame
begin

text \<open>
  The program and its pending operations. A client declares, copies, moves and destroys
  variables of the wrapper classes, sets callbacks, gives commands to handles and starts requests on
  them; in between libuv reports events of the handles and completes the operations in any order, and
  the library runs their handlers. This is where the parts of the library have to fit: the
  references a run or an active handle holds must keep alive what the handlers touch, whatever the
  client has done meanwhile, and must be the ones the handlers give back.
\<close>

section \<open>Sessions\<close>

text \<open>
  A request is not to be started again while its operation is pending; that is for the client to
  see to. \<open>sent\<close> are the handles with an event to be delivered, \<open>files\<close> those being opened. The
  variables are those of the program: the objects an operation is started on are those they refer to.
  A stream to accept a connection on is one that libuv has initialised on the loop it has booked.
\<close>

definition op_allowed :: "op list \<Rightarrow> world \<Rightarrow> op \<Rightarrow> bool" where
  "op_allowed ps w p \<longleftrightarrow> op_request p \<notin> op_request ` set ps \<and> op_refers w p \<and> op_valid w p"

definition accepts_on :: "world \<Rightarrow> addr \<Rightarrow> bool" where
  "accepts_on w a \<longleftrightarrow> refers w (HandleO a) \<and> (\<exists>i l. handles w a = Some i \<and> h_loop i = Some l \<and>
     u_loop (h_uv i) = Some l \<and> (u_type (h_uv i) = UV_NAMED_PIPE \<or> u_type (h_uv i) = UV_TCP))"

definition being_opened :: "world \<Rightarrow> addr \<Rightarrow> bool" where
  "being_opened w a \<longleftrightarrow> (\<exists>i. handles w a = Some i \<and> 0 \<le> h_uv_error i)"

record session =
  scope :: "var \<rightharpoonup> wclass"
  ops :: "op list"
  sent :: "addr list"
  files :: "addr list"
  heap :: world

definition session_start :: session where
  "session_start = \<lparr>scope = Map.empty, ops = [], sent = [], files = [], heap = world_init\<rparr>"

text \<open>
  The client executes a statement, sets the callback of a request, gives a command to a handle or
  starts an operation, which may fail, and which may be over at once for a request without a callback.
  It declares a variable for a connection accepted or for a file, which is opened in the background.
  An event is sent through an \<open>async\<close> handle, unless one sent earlier has not been delivered yet
  (libuv might deliver both in one call of the handler, which gives back one reference only).
  libuv delivers such an event or reports one of another handle; the thread pool runs a task; libuv completes one of the
  pending operations with whatever status.
\<close>

inductive session_step :: "env \<Rightarrow> session \<Rightarrow> session \<Rightarrow> bool" for env where
  statement: "stmt_check (scope s) x = Some G \<Longrightarrow> stmt_exec env x (heap s) = Inr w \<Longrightarrow>
    session_step env s (s\<lparr>scope := G, heap := w\<rparr>)"
| callback: "refers (heap s) (RequestO a) \<Longrightarrow> request_set_cb a c (heap s) = Inr w \<Longrightarrow>
    session_step env s (s\<lparr>heap := w\<rparr>)"
| command: "command_ready (heap s) c a \<Longrightarrow> command_exec env c a (heap s) = Inr (r, w) \<Longrightarrow>
    session_step env s (s\<lparr>heap := w\<rparr>)"
| event: "due (heap s) e a \<Longrightarrow> occur env e a (heap s) = Inr w \<Longrightarrow>
    session_step env s (s\<lparr>heap := w\<rparr>)"
| sends: "refers (heap s) (HandleO a) \<Longrightarrow> a \<notin> set (sent s) \<Longrightarrow>
    async_send env a (heap s) = Inr (r, w) \<Longrightarrow>
    session_step env s (s\<lparr>sent := if r < 0 then sent s else a # sent s, heap := w\<rparr>)"
| delivers: "a \<in> set (sent s) \<Longrightarrow> async_cb env a (heap s) = Inr w \<Longrightarrow>
    session_step env s (s\<lparr>sent := remove1 a (sent s), heap := w\<rparr>)"
| accepts: "scope s v = None \<Longrightarrow> accepts_on (heap s) a \<Longrightarrow> stream_accept env a (heap s) = Inr (h, w) \<Longrightarrow>
    session_step env s
      (s\<lparr>scope := (scope s)(v \<mapsto> Handle_class), heap := var_store v (Some (HandleO h)) w\<rparr>)"
| opens: "scope s v = None \<Longrightarrow> refers (heap s) (LoopO l) \<Longrightarrow>
    file_open env (Some l) path flags mode (Some c) (heap s) = Inr (h, w) \<Longrightarrow>
    session_step env s
      (s\<lparr>scope := (scope s)(v \<mapsto> Handle_class), files := if being_opened w h then h # files s else files s,
         heap := var_store v (Some (HandleO h)) w\<rparr>)"
| opened: "a \<in> set (files s) \<Longrightarrow> file_open_cb env a (heap s) = Inr w \<Longrightarrow>
    session_step env s (s\<lparr>files := remove1 a (files s), heap := w\<rparr>)"
| begins: "op_allowed (ops s) (heap s) p \<Longrightarrow> op_run env p (heap s) = Inr (r, w) \<Longrightarrow>
    session_step env s
      (s\<lparr>ops := if r < 0 \<or> \<not> op_waits p (heap s) then ops s else p # ops s, heap := w\<rparr>)"
| pool: "Task a l c \<in> set (ops s) \<Longrightarrow> work_cb env a (heap s) = Inr w \<Longrightarrow>
    session_step env s (s\<lparr>ops := Task_done a # remove1 (Task a l c) (ops s), heap := w\<rparr>)"
| completes: "p \<in> set (ops s) \<Longrightarrow> op_complete env p status (heap s) = Inr w \<Longrightarrow>
    session_step env s (s\<lparr>ops := remove1 p (ops s), heap := w\<rparr>)"

definition session_reach :: "env \<Rightarrow> session \<Rightarrow> bool" where
  "session_reach env s \<longleftrightarrow> (session_step env)\<^sup>*\<^sup>* session_start s"

text \<open>
  What is documented of libuv and expected of the client's callbacks. Of libuv: that the initialisation
  functions of \<open>loop_inits\<close> and \<open>uv_fs_open\<close>, when they succeed, set the loop they are given, that
  the functions that start a request record its handle when they succeed (\<open>op_env\<close>), and that
  a loop whose destructor runs it can be closed in the end (\<open>closes_loops\<close>). Nothing is supposed of calls
  that fail, nor of what any other function writes; \<open>uv_accept\<close> may leave the structures as they are.
\<close>

definition session_env :: "env \<Rightarrow> bool" where
  "session_env env \<longleftrightarrow> class_env env \<and> op_env env \<and> bystanders env \<and> hands_out env \<and>
     library_inits env \<and> inits env ''uv_fs_open''"

lemma session_env_dest:
  assumes "session_env env"
  shows "class_env env" "op_env env" "client_ok {} env" "bystanders env" "library_inits env" "hands_out env"
    "inits env ''uv_fs_open''"
  using assms op_env_dest(1) by (auto simp: session_env_def)

section \<open>What the operations owe\<close>

text \<open>
  A pending operation owns its references, an event that has been sent one to its handle, and so does
  the request that opens a file.
\<close>

definition owed :: "op list \<Rightarrow> addr list \<Rightarrow> obj \<Rightarrow> nat" where
  "owed ps xs q = (\<Sum>p\<leftarrow>ps. count_list (RequestO (op_request p) # op_objects p) q) + count_list (map HandleO xs) q"

lemma owed_Nil [simp]: "owed [] [] = (\<lambda>_. 0)"
  by (rule ext) (simp add: owed_def)

lemma owed_Cons: "owed (p # ps) xs = inc (RequestO (op_request p)) (op_debt p (owed ps xs))"
  by (rule ext) (auto simp: owed_def op_debt_def inc_apply foldr_inc)

lemma owed_remove: "p \<in> set ps \<Longrightarrow> owed (p # remove1 p ps) xs = owed ps xs"
  by (rule ext) (simp add: owed_def sum_list_map_remove1)

lemma owed_event: "owed ps (a # xs) = inc (HandleO a) (owed ps xs)"
  by (rule ext) (simp add: owed_def inc_apply)

lemma owed_event_remove: "a \<in> set xs \<Longrightarrow> owed ps (a # remove1 a xs) = owed ps xs"
  by (induction xs) (auto simp: owed_event inc_commute)

lemma owed_append: "owed ps (xs @ ys) = (\<lambda>q. owed ps xs q + count_list (map HandleO ys) q)"
  by (rule ext) (simp add: owed_def)

lemma owed_commute: "owed ps (xs @ ys) = owed ps (ys @ xs)"
  by (rule ext) (simp add: owed_def)

lemma owed_events:
  "a \<in> set xs \<Longrightarrow> owed ps (a # remove1 a xs @ ys) = owed ps (xs @ ys)"
  "a \<in> set ys \<Longrightarrow> owed ps (a # xs @ remove1 a ys) = owed ps (xs @ ys)"
proof -
  have "owed ps (a # remove1 a us @ vs) = owed ps (us @ vs)" if "a \<in> set us" for us vs
    using owed_append [of ps "a # remove1 a us" vs] owed_append [of ps us vs] owed_event_remove [OF that, of ps] by simp
  from this [of xs ys] this [of ys xs]
  show "a \<in> set xs \<Longrightarrow> owed ps (a # remove1 a xs @ ys) = owed ps (xs @ ys)"
    "a \<in> set ys \<Longrightarrow> owed ps (a # xs @ remove1 a ys) = owed ps (xs @ ys)"
    by (simp_all add: owed_commute [of ps xs] owed_event)
qed

lemma owed_pos: "p \<in> set ps \<Longrightarrow> q \<in> set (RequestO (op_request p) # op_objects p) \<Longrightarrow> 0 < owed ps xs q"
  using fun_cong [OF owed_remove, of p ps xs q] count_list_0_iff [of "op_objects p" q]
  by (auto simp: owed_Cons op_debt_def foldr_inc inc_apply split: if_splits)

abbreviation debts :: "session \<Rightarrow> obj \<Rightarrow> nat" where
  "debts s \<equiv> owed (ops s) (sent s @ files s)"

section \<open>The invariant\<close>

definition recorded :: "world \<Rightarrow> op \<Rightarrow> bool" where
  "recorded w p \<longleftrightarrow> (\<exists>i. requests w (op_request p) = Some i \<and> op_holds p i)"

definition session_inv :: "session \<Rightarrow> bool" where
  "session_inv s \<longleftrightarrow> winv (debts s) (heap s) \<and> well_typed (scope s) (vars (heap s)) \<and>
     distinct (map op_request (ops s)) \<and> (\<forall>p \<in> set (ops s). recorded (heap s) p)"

lemma session_start_inv: "session_inv session_start"
  by (simp add: session_inv_def session_start_def winv_world_init well_typed_def)
    (simp add: world_init_def)

lemma recorded_pending:
  "p \<in> set ps \<Longrightarrow> winv (owed ps xs) w \<Longrightarrow> recorded w p \<Longrightarrow>
   pending (op_debt p (owed (remove1 p ps) xs)) (op_request p) (op_holds p) w"
  using owed_remove [of p ps xs] by (simp add: pending_def recorded_def owed_Cons)

text \<open>What a pending operation relies on survives the other steps.\<close>

lemma recorded_kept:
  assumes "recorded w p" "p \<in> set ps" "steady A V w w'" "winv E w" "winv (owed ps xs) w'" "op_request p \<notin> A"
  shows "recorded w' p"
proof -
  from assms(1) obtain i where i: "requests w (op_request p) = Some i" "op_holds p i"
    by (auto simp: recorded_def)
  have "live_refs w' (RequestO (op_request p)) \<noteq> None"
    by (rule winv_owned_live' [OF assms(5) owed_pos [OF assms(2)]]) simp
  then obtain j where j: "requests w' (op_request p) = Some j" by (auto simp: live_request)
  from steady_request [OF assms(3,4) i(1) j assms(6)] i(2) j show ?thesis
    by (simp add: recorded_def op_holds_def)
qed

lemma session_invI:
  assumes "session_inv s" "steady A V (heap s) w" "winv (owed ps (xs @ ys)) w" "well_typed G (vars w)"
    "distinct (map op_request ps)" "\<And>p. p \<in> set ps \<Longrightarrow> recorded w p \<or> p \<in> set (ops s) \<and> op_request p \<notin> A"
  shows "session_inv (s\<lparr>scope := G, ops := ps, sent := xs, files := ys, heap := w\<rparr>)"
  using assms recorded_kept [OF _ _ assms(2) _ assms(3)] unfolding session_inv_def by simp blast

lemma quiet_vars:
  assumes "session_inv s" "steady A {} (heap s) w"
  shows "vars w = vars (heap s)"
  using steady_vars [OF assms(2)] winv_fresh assms(1) by (auto simp: session_inv_def)

lemma quiet_typed:
  assumes "session_inv s" "steady A {} (heap s) w"
  shows "well_typed (scope s) (vars w)"
  using quiet_vars [OF assms] assms(1) by (simp add: session_inv_def)

text \<open>A step that leaves the variables alone.\<close>

lemma quiet_both:
  assumes "session_inv s" "steady A {} (heap s) w" "winv (owed ps (xs @ ys)) w" "distinct (map op_request ps)"
    "\<And>p. p \<in> set ps \<Longrightarrow> recorded w p \<or> p \<in> set (ops s) \<and> op_request p \<notin> A"
  shows "session_inv (s\<lparr>ops := ps, sent := xs, files := ys, heap := w\<rparr>)"
  using session_invI [OF assms(1-3) quiet_typed [OF assms(1,2)] assms(4,5)] by simp

lemma quiet_step:
  assumes "session_inv s" "steady A {} (heap s) w" "winv (owed ps (sent s @ files s)) w" "distinct (map op_request ps)"
    "\<And>p. p \<in> set ps \<Longrightarrow> recorded w p \<or> p \<in> set (ops s) \<and> op_request p \<notin> A"
  shows "session_inv (s\<lparr>ops := ps, heap := w\<rparr>)"
  using quiet_both [OF assms] by simp

lemma quiet_sent:
  assumes "session_inv s" "steady {} {} (heap s) w" "winv (owed (ops s) (xs @ ys)) w"
  shows "session_inv (s\<lparr>sent := xs, files := ys, heap := w\<rparr>)"
  using quiet_both [OF assms] assms(1) by (simp add: session_inv_def)

lemma quiet_change:
  assumes "session_inv s" "steady {} {} (heap s) w" "winv (debts s) w"
  shows "session_inv (s\<lparr>heap := w\<rparr>)"
  using quiet_sent [OF assms] by simp

text \<open>An event sent and delivered.\<close>

lemma event_send_ok:
  assumes "session_env env" "session_inv s" "refers (heap s) (HandleO a)"
  shows "ok (\<lambda>(r, w). session_inv (s\<lparr>sent := if r < 0 then sent s else a # sent s, heap := w\<rparr>))
    (async_send env a (heap s))"
proof -
  from assms(2) have w: "winv (debts s) (heap s)" by (simp add: session_inv_def)
  from refers_handle [OF w assms(3)] obtain i where "handles (heap s) a = Some i" .
  from async_send_ok [OF client_ok_dest(1) [OF session_env_dest(3) [OF assms(1)]] w this]
  obtain r w' where run: "async_send env a (heap s) = Inr (r, w')"
    and w': "winv (owed (ops s) ((if r < 0 then sent s else a # sent s) @ files s)) w'"
    by (auto simp: ok_iff owed_event split: if_splits)
  from quiet_sent [OF assms(2) _ w'] staysD [OF async_send_stays run] run show ?thesis by simp
qed

lemma event_deliver_ok:
  assumes "session_env env" "session_inv s" "a \<in> set (sent s)"
  shows "ok (\<lambda>w. session_inv (s\<lparr>sent := remove1 a (sent s), heap := w\<rparr>)) (async_cb env a (heap s))"
proof -
  from assms(2,3) have "winv (inc (HandleO a) (owed (ops s) (remove1 a (sent s) @ files s))) (heap s)"
    by (simp add: session_inv_def owed_event [symmetric] owed_events)
  from async_cb_ok [OF session_env_dest(3) [OF assms(1)] this] obtain w
    where run: "async_cb env a (heap s) = Inr w" and w: "winv (owed (ops s) (remove1 a (sent s) @ files s)) w"
    by (auto simp: ok_iff grown_exact)
  from quiet_sent [OF assms(2) staysD [OF async_cb_stays [OF session_env_dest(4) [OF assms(1)]] run] w] run
  show ?thesis by simp
qed

text \<open>A variable declared for a handle that comes with one reference, and perhaps another one to be paid back.\<close>

lemma declare_handle_inv:
  assumes "session_inv s" "scope s v = None" "steady {} {} (heap s) w" "vars w = vars (heap s)"
    and w: "winv (inc (HandleO h) (owed (ops s) (sent s @ ys))) w"
  shows "session_inv (s\<lparr>scope := (scope s)(v \<mapsto> Handle_class), files := ys, heap := var_store v (Some (HandleO h)) w\<rparr>)"
proof -
  from assms(1) have G: "well_typed (scope s) (vars (heap s))" and d: "distinct (map op_request (ops s))"
    by (simp_all add: session_inv_def)
  have "steady {} UNIV (heap s) (var_store v (Some (HandleO h)) w)"
    by (rule steady_store) (rule steady_mono [OF assms(3)]; simp)
  moreover have "winv (owed (ops s) (sent s @ ys)) (var_store v (Some (HandleO h)) w)"
    by (rule winv_var_acquire) (use w typed_none [OF G assms(2)] assms(4) in simp_all)
  moreover have "well_typed ((scope s)(v \<mapsto> Handle_class)) (vars (var_store v (Some (HandleO h)) w))"
    using typed_upd [OF G, of Handle_class "Some (HandleO h)" v] by (simp add: store_simps assms(4))
  ultimately show ?thesis
    using session_invI [OF assms(1), of "{}" UNIV _ "ops s" "sent s" ys] d by simp
qed

lemma accept_inv:
  assumes env: "session_env env" and s: "session_inv s" and v: "scope s v = None" and a: "accepts_on (heap s) a"
  shows "ok (\<lambda>(h, w). session_inv (s\<lparr>scope := (scope s)(v \<mapsto> Handle_class), heap := var_store v (Some (HandleO h)) w\<rparr>))
    (stream_accept env a (heap s))"
proof -
  from s have w: "winv (debts s) (heap s)" by (simp add: session_inv_def)
  from a obtain i l where i: "handles (heap s) a = Some i" "h_loop i = Some l" "u_loop (h_uv i) = Some l"
    "u_type (h_uv i) = UV_NAMED_PIPE \<or> u_type (h_uv i) = UV_TCP" by (auto simp: accepts_on_def)
  from winv_booked_live [OF w i(1,2)] have "loops (heap s) l \<noteq> None" by simp
  from accepted_ok [OF session_env_dest(5) [OF env] w i(1,3) this i(4)]
  obtain h w' where run: "stream_accept env a (heap s) = Inr (h, w')"
    and w': "winv (inc (HandleO h) (debts s)) w'" "vars w' = vars (heap s)"
    by (auto simp: ok_iff constructed_def)
  from declare_handle_inv [OF s v _ w'(2,1)] staysD [OF stream_accept_stays run] run show ?thesis by simp
qed

lemma file_opens_inv:
  assumes env: "session_env env" and s: "session_inv s" and v: "scope s v = None" and l: "refers (heap s) (LoopO l)"
  shows "ok (\<lambda>(h, w). session_inv (s\<lparr>scope := (scope s)(v \<mapsto> Handle_class),
      files := if being_opened w h then h # files s else files s, heap := var_store v (Some (HandleO h)) w\<rparr>))
    (file_open env (Some l) path flags mode (Some c) (heap s))"
proof -
  from s have w: "winv (debts s) (heap s)" by (simp add: session_inv_def)
  from l obtain u where "vars (heap s) u = Some (Some (LoopO l))" by (auto simp: refers_def)
  from winv_var_live [OF w this] have "loops (heap s) l \<noteq> None" by (simp add: live_loop)
  from file_open_ok [OF client_ok_dest(1) [OF session_env_dest(3) [OF env]] session_env_dest(7) [OF env] w this,
      of path flags mode c]
  obtain h w' i where run: "file_open env (Some l) path flags mode (Some c) (heap s) = Inr (h, w')"
    and i: "handles w' h = Some i" "vars w' = vars (heap s)"
    and w': "winv (if h_uv_error i < 0 then inc (HandleO h) (debts s)
      else inc (HandleO h) (inc (HandleO h) (debts s))) w'"
    by (auto simp: ok_iff)
  have "inc (HandleO h) (debts s) = owed (ops s) (sent s @ h # files s)"
    by (simp add: owed_commute [of "ops s" "sent s"] owed_event)
  with w' i(1) have "winv (inc (HandleO h) (owed (ops s) (sent s @ (if being_opened w' h then h # files s else files s)))) w'"
    by (auto simp: being_opened_def split: if_splits)
  from declare_handle_inv [OF s v _ i(2) this] staysD [OF file_open_stays run] run show ?thesis by simp
qed

lemma file_opened_ok:
  assumes "session_env env" "session_inv s" "a \<in> set (files s)"
  shows "ok (\<lambda>w. session_inv (s\<lparr>files := remove1 a (files s), heap := w\<rparr>)) (file_open_cb env a (heap s))"
proof -
  from assms(2,3) have "winv (inc (HandleO a) (owed (ops s) (sent s @ remove1 a (files s)))) (heap s)"
    by (simp add: session_inv_def owed_event [symmetric] owed_events)
  from file_open_cb_ok [OF session_env_dest(3) [OF assms(1)] this] obtain w
    where run: "file_open_cb env a (heap s) = Inr w" and w: "winv (owed (ops s) (sent s @ remove1 a (files s))) w"
    by (auto simp: ok_iff grown_exact)
  from quiet_sent [OF assms(2) staysD [OF file_open_cb_stays [OF session_env_dest(4) [OF assms(1)]] run] w] run
  show ?thesis by simp
qed

lemma run_inv:
  assumes env: "session_env env" and s: "session_inv s" and p: "op_allowed (ops s) (heap s) p"
    and run: "op_run env p (heap s) = Inr (r, w)"
  shows "session_inv (s\<lparr>ops := if r < 0 \<or> \<not> op_waits p (heap s) then ops s else p # ops s, heap := w\<rparr>)"
proof -
  from s have w: "winv (debts s) (heap s)" and d: "distinct (map op_request (ops s))"
    by (simp_all add: session_inv_def)
  have out: "outcome (op_waits p (heap s)) (debts s) p (r, w)"
    using op_run_ok [OF session_env_dest(2) [OF env] w, of p] p run by (auto simp: op_allowed_def)
  have steady: "steady {op_request p} {} (heap s) w"
    using staysD [OF op_run_stays [OF session_env_dest(4) [OF env]] run] by simp
  have other: "\<forall>q \<in> set (ops s). op_request q \<noteq> op_request p"
    using p by (metis image_eqI op_allowed_def)
  show ?thesis
    by (rule quiet_step [OF s steady]) (use out other d in
      \<open>auto simp: outcome_def pending_def owed_Cons recorded_def split: if_splits\<close>)
qed

lemma pool_inv:
  assumes env: "session_env env" and s: "session_inv s" and p: "Task a l c \<in> set (ops s)"
    and run: "work_cb env a (heap s) = Inr w"
  shows "session_inv (s\<lparr>ops := Task_done a # remove1 (Task a l c) (ops s), heap := w\<rparr>)"
proof -
  from s p have pend: "pending (owed (remove1 (Task a l c) (ops s)) (sent s @ files s)) a (op_holds (Task a l c)) (heap s)"
    using recorded_pending [OF p] by (simp add: session_inv_def op_debt_def)
  from s have d: "distinct (map op_request (ops s))" by (simp add: session_inv_def)
  from task_runs_ok [OF session_env_dest(3) [OF env] pend] run
  have w: "pending (owed (remove1 (Task a l c) (ops s)) (sent s @ files s)) a (op_holds (Task_done a)) w" by simp
  have steady: "steady {a} {} (heap s) w"
    by (rule staysD [OF work_handlers_stay(1) [OF session_env_dest(4) [OF env]] run])
  have other: "op_request q \<noteq> a" if "q \<in> set (remove1 (Task a l c) (ops s))" for q
    using d p that by (auto simp: distinct_map dest: inj_onD [of op_request _ q "Task a l c"] intro: in_set_remove1)
  show ?thesis
    by (rule quiet_step [OF s steady]) (use w other d in
      \<open>auto simp: pending_def owed_Cons op_debt_def recorded_def distinct_map distinct_remove1
        intro: inj_on_subset set_remove1_subset dest: notin_set_remove1\<close>)
qed

lemma complete_inv:
  assumes env: "session_env env" and s: "session_inv s" and p: "p \<in> set (ops s)"
    and run: "op_complete env p status (heap s) = Inr w"
  shows "session_inv (s\<lparr>ops := remove1 p (ops s), heap := w\<rparr>)"
proof -
  from s p have "pending (op_debt p (owed (remove1 p (ops s)) (sent s @ files s))) (op_request p) (op_holds p) (heap s)"
    by (simp add: session_inv_def recorded_pending)
  from op_complete_ok [OF session_env_dest(3) [OF env] this, of status] run
  have w: "winv (owed (remove1 p (ops s)) (sent s @ files s)) w" by simp
  have steady: "steady {} {} (heap s) w"
    by (rule staysD [OF op_complete_stays [OF session_env_dest(4) [OF env]] run])
  show ?thesis
    by (rule quiet_step [OF s steady w])
      (use s in \<open>auto simp: session_inv_def distinct_map distinct_remove1 intro: inj_on_subset set_remove1_subset dest: notin_set_remove1\<close>)
qed

lemma statement_sound:
  assumes "session_env env" "session_inv s" "stmt_check (scope s) x = Some G"
  shows "sound (debts s) G (stmt_exec env x (heap s))"
  using stmt_sound [OF session_env_dest(1,5) [OF assms(1)] _ _ assms(3)]
    assms(2) by (simp add: session_inv_def)

lemma set_cb_winv:
  assumes "winv E w" "request_set_cb a c w = Inr w'"
  shows "winv E w'" "vars w' = vars w"
  using assms winv_request_put [OF assms(1)]
  by (auto simp: request_set_cb_def request_mod_def request_at_def store_simps split: option.splits)

lemma session_step_inv:
  assumes env: "session_env env" and step: "session_step env s t" and s: "session_inv s"
  shows "session_inv t"
  using step
proof cases
  case (statement x G w)
  have steady: "steady {} UNIV (heap s) w"
    by (rule staysD [OF stmt_stays [OF session_env_dest(4) [OF env]] statement(3)])
  have "session_inv (s\<lparr>scope := G, ops := ops s, sent := sent s, files := files s, heap := w\<rparr>)"
    by (rule session_invI [OF s steady])
      (use s statement_sound [OF env s statement(2)] statement(3) in \<open>auto simp: sound_def session_inv_def\<close>)
  with statement(1) show ?thesis by simp
next
  case (callback a c w)
  have steady: "steady {} {} (heap s) w" by (rule staysD [OF request_set_cb_stays callback(3)])
  have "session_inv (s\<lparr>heap := w\<rparr>)"
    by (rule quiet_change [OF s steady]) (use s set_cb_winv [OF _ callback(3)] in \<open>auto simp: session_inv_def\<close>)
  with callback(1) show ?thesis by simp
next
  case (command c a r w)
  from s have w: "winv (debts s) (heap s)" by (simp add: session_inv_def)
  from command_ok [OF w command(2), of env] command(3)
  have "winv (debts s) w" "apart (heap s) w" by (auto simp: around_def)
  with command(1) quiet_change [OF s apart_steady] show ?thesis by simp
next
  case (event e a w)
  from s have w: "winv (debts s) (heap s)" by (simp add: session_inv_def)
  from occur_ok [OF session_env_dest(3,4,6) [OF env] w event(2)] event(3)
  have "winv (debts s) w" by simp
  with event(1) quiet_change [OF s staysD [OF occur_stays [OF session_env_dest(4,6) [OF env]] event(3)]]
  show ?thesis by simp
next
  case (sends a r w)
  with event_send_ok [OF env s sends(2)] show ?thesis by simp
next
  case (delivers a w)
  with event_deliver_ok [OF env s delivers(2)] show ?thesis by simp
next
  case (accepts v a h w)
  with accept_inv [OF env s accepts(2,3)] show ?thesis by simp
next
  case (opens v l path flags mode c h w)
  with file_opens_inv [OF env s opens(2,3), of path flags mode c] show ?thesis by simp
next
  case (opened a w)
  with file_opened_ok [OF env s opened(2)] show ?thesis by simp
next
  case (begins p r w)
  with run_inv [OF env s begins(2,3)] show ?thesis by simp
next
  case (pool a l c w)
  with pool_inv [OF env s pool(2,3)] show ?thesis by simp
next
  case (completes p status w)
  with complete_inv [OF env s completes(2,3)] show ?thesis by simp
qed

lemma session_steps_inv:
  "session_env env \<Longrightarrow> (session_step env)\<^sup>*\<^sup>* s t \<Longrightarrow> session_inv s \<Longrightarrow> session_inv t"
  by (rotate_tac, induction rule: rtranclp_induct) (auto intro: session_step_inv)

lemma session_reach_inv: "session_env env \<Longrightarrow> session_reach env s \<Longrightarrow> session_inv s"
  unfolding session_reach_def by (blast intro: session_steps_inv session_start_inv)

section \<open>Nothing goes wrong, and everything can end\<close>

text \<open>
  C1: Whatever a client does with the variables of the wrapper classes, whichever commands it
  gives to handles and requests of any class it starts on the objects its variables refer to, and in
  whichever order libuv reports events, runs the tasks and completes the operations: every variable
  refers to a live instance of its class; every instance a pending operation works on is alive,
  also when all variables for it are gone; no run, command, task and handler touches a deleted
  instance or fails otherwise; and every statement in scope and class goes through, except the one that
  constructs a handle on a loop variable that has been moved from (\<open>moved_loop\<close>), which dereferences a
  null pointer.
\<close>

theorem sessions_ok:
  assumes "session_env env" "session_reach env s"
  shows "(\<forall>v q. vars (heap s) v = Some (Some q) \<longrightarrow>
      scope s v = Some (class_of q) \<and> live_refs (heap s) q \<noteq> None) \<and>
    (\<forall>p \<in> set (ops s). \<forall>q \<in> set (RequestO (op_request p) # op_objects p). live_refs (heap s) q \<noteq> None) \<and>
    (\<forall>p. op_allowed (ops s) (heap s) p \<longrightarrow> ok (\<lambda>_. True) (op_run env p (heap s))) \<and>
    (\<forall>p \<in> set (ops s). \<forall>status. ok (\<lambda>_. True) (op_complete env p status (heap s))) \<and>
    (\<forall>a l c. Task a l c \<in> set (ops s) \<longrightarrow> ok (\<lambda>_. True) (work_cb env a (heap s))) \<and>
    (\<forall>c a. command_ready (heap s) c a \<longrightarrow> ok (\<lambda>_. True) (command_exec env c a (heap s))) \<and>
    (\<forall>e a. due (heap s) e a \<longrightarrow> ok (\<lambda>_. True) (occur env e a (heap s))) \<and>
    (\<forall>a. refers (heap s) (HandleO a) \<longrightarrow> ok (\<lambda>_. True) (async_send env a (heap s))) \<and>
    (\<forall>a \<in> set (sent s). ok (\<lambda>_. True) (async_cb env a (heap s))) \<and>
    (\<forall>a. accepts_on (heap s) a \<longrightarrow> ok (\<lambda>_. True) (stream_accept env a (heap s))) \<and>
    (\<forall>l path flags mode c. refers (heap s) (LoopO l) \<longrightarrow>
      ok (\<lambda>_. True) (file_open env (Some l) path flags mode (Some c) (heap s))) \<and>
    (\<forall>a \<in> set (files s). ok (\<lambda>_. True) (file_open_cb env a (heap s))) \<and>
    (\<forall>x G. stmt_check (scope s) x = Some G \<longrightarrow>
      (if moved_loop (heap s) x then stmt_exec env x (heap s) = Inl Null_deref
       else ok (\<lambda>_. True) (stmt_exec env x (heap s))))"
proof -
  note inv = session_reach_inv [OF assms]
  then have w: "winv (debts s) (heap s)" and G: "well_typed (scope s) (vars (heap s))"
    and ps: "\<forall>p \<in> set (ops s). recorded (heap s) p" by (simp_all add: session_inv_def)
  have fresh: "scope s (nxt (heap s)) = None"
    using typed_some [OF G, of "nxt (heap s)"] fresh_var [OF w] by (cases "scope s (nxt (heap s))") auto
  have "scope s v = Some (class_of q) \<and> live_refs (heap s) q \<noteq> None"
    if "vars (heap s) v = Some (Some q)" for v q
    using typed_none [OF G, of v] typed_some [OF G, of v] winv_var_live [OF w that] that
    by (cases "scope s v") auto
  moreover have "ok (\<lambda>_. True) (op_run env p (heap s))" if "op_allowed (ops s) (heap s) p" for p
    using op_run_ok [OF session_env_dest(2) [OF assms(1)] w] that unfolding op_allowed_def by (blast intro: ok_weaken)
  moreover have "ok (\<lambda>_. True) (op_complete env p status (heap s))" if "p \<in> set (ops s)" for p status
    using op_complete_ok [OF session_env_dest(3) [OF assms(1)] recorded_pending [OF that w]] ps that by (blast intro: ok_weaken)
  moreover have "ok (\<lambda>_. True) (work_cb env a (heap s))" if "Task a l c \<in> set (ops s)" for a l c
    using task_runs_ok [OF session_env_dest(3) [OF assms(1)], of "owed (remove1 (Task a l c) (ops s)) (sent s @ files s)" a l c "heap s"]
      recorded_pending [OF that w] ps that by (auto simp: op_debt_def elim!: ok_weaken)
  moreover have "ok (\<lambda>_. True) (command_exec env c a (heap s))" if "command_ready (heap s) c a" for c a
    using command_ok [OF w that] by (rule ok_weaken) simp
  moreover have "ok (\<lambda>_. True) (occur env e a (heap s))" if "due (heap s) e a" for e a
    using occur_ok [OF session_env_dest(3,4,6) [OF assms(1)] w that] by (rule ok_weaken) simp
  moreover have "ok (\<lambda>_. True) (async_send env a (heap s))" if "refers (heap s) (HandleO a)" for a
    using event_send_ok [OF assms(1) inv that] by (rule ok_weaken) simp
  moreover have "ok (\<lambda>_. True) (async_cb env a (heap s))" if "a \<in> set (sent s)" for a
    using event_deliver_ok [OF assms(1) inv that] by (rule ok_weaken) simp
  moreover have "ok (\<lambda>_. True) (stream_accept env a (heap s))" if "accepts_on (heap s) a" for a
    using accept_inv [OF assms(1) inv fresh that] by (rule ok_weaken) simp
  moreover have "ok (\<lambda>_. True) (file_open env (Some l) path flags mode (Some c) (heap s))"
    if "refers (heap s) (LoopO l)" for l path flags mode c
    using file_opens_inv [OF assms(1) inv fresh that] by (rule ok_weaken) simp
  moreover have "ok (\<lambda>_. True) (file_open_cb env a (heap s))" if "a \<in> set (files s)" for a
    using file_opened_ok [OF assms(1) inv that] by (rule ok_weaken) simp
  moreover have "if moved_loop (heap s) x then stmt_exec env x (heap s) = Inl Null_deref
      else ok (\<lambda>_. True) (stmt_exec env x (heap s))" if "stmt_check (scope s) x = Some G" for x G
    by (rule stmt_fails_iff [OF session_env_dest(1,5) [OF assms(1)] w G that])
  ultimately show ?thesis
    using winv_owned_live' [OF w owed_pos] by (intro conjI allI ballI impI) blast+
qed

text \<open>
  From any state the session can be brought to an end: libuv completes the operations and
  the variables go out of scope.
\<close>

lemma ops_can_complete:
  assumes "session_env env"
  shows "session_inv s \<Longrightarrow> \<exists>t. (session_step env)\<^sup>*\<^sup>* s t \<and> ops t = []"
proof (induction "length (ops s)" arbitrary: s)
  case 0
  then show ?case by auto
next
  case (Suc n)
  then obtain p where p: "p \<in> set (ops s)" by (cases "ops s") auto
  with Suc.prems have "pending (op_debt p (owed (remove1 p (ops s)) (sent s @ files s))) (op_request p) (op_holds p) (heap s)"
    by (simp add: session_inv_def recorded_pending)
  from op_complete_ok [OF session_env_dest(3) [OF assms] this, of 0] obtain w where w: "op_complete env p 0 (heap s) = Inr w"
    by (auto simp: ok_iff)
  let ?s = "s\<lparr>ops := remove1 p (ops s), heap := w\<rparr>"
  have step: "session_step env s ?s" by (rule session_step.completes [OF p w])
  have "n = length (ops ?s)" using Suc.hyps(2) p by (simp add: length_remove1)
  from Suc.hyps(1) [OF this session_step_inv [OF assms step Suc.prems]] step show ?case
    by (blast intro: converse_rtranclp_into_rtranclp)
qed

lemma events_can_arrive:
  assumes "session_env env"
  shows "session_inv s \<Longrightarrow> \<exists>t. (session_step env)\<^sup>*\<^sup>* s t \<and> ops t = ops s \<and> files t = files s \<and> sent t = []"
proof (induction "length (sent s)" arbitrary: s)
  case 0
  then show ?case by auto
next
  case (Suc n)
  then obtain a where a: "a \<in> set (sent s)" by (cases "sent s") auto
  from event_deliver_ok [OF assms Suc.prems a] obtain w where w: "async_cb env a (heap s) = Inr w"
    "session_inv (s\<lparr>sent := remove1 a (sent s), heap := w\<rparr>)" by (auto simp: ok_iff)
  let ?s = "s\<lparr>sent := remove1 a (sent s), heap := w\<rparr>"
  have step: "session_step env s ?s" by (rule session_step.delivers [OF a w(1)])
  have "n = length (sent ?s)" using Suc.hyps(2) a by (simp add: length_remove1)
  from Suc.hyps(1) [OF this w(2)] step show ?case
    by (auto intro: converse_rtranclp_into_rtranclp)
qed

lemma files_can_open:
  assumes "session_env env"
  shows "session_inv s \<Longrightarrow> \<exists>t. (session_step env)\<^sup>*\<^sup>* s t \<and> ops t = ops s \<and> sent t = sent s \<and> files t = []"
proof (induction "length (files s)" arbitrary: s)
  case 0
  then show ?case by auto
next
  case (Suc n)
  then obtain a where a: "a \<in> set (files s)" by (cases "files s") auto
  from file_opened_ok [OF assms Suc.prems a] obtain w where w: "file_open_cb env a (heap s) = Inr w"
    "session_inv (s\<lparr>files := remove1 a (files s), heap := w\<rparr>)" by (auto simp: ok_iff)
  let ?s = "s\<lparr>files := remove1 a (files s), heap := w\<rparr>"
  have step: "session_step env s ?s" by (rule session_step.opened [OF a w(1)])
  have "n = length (files ?s)" using Suc.hyps(2) a by (simp add: length_remove1)
  from Suc.hyps(1) [OF this w(2)] step show ?case
    by (auto intro: converse_rtranclp_into_rtranclp)
qed

lemma variables_can_go:
  assumes "session_env env"
  shows "session_inv s \<Longrightarrow> \<exists>t. (session_step env)\<^sup>*\<^sup>* s t \<and> ops t = ops s \<and> sent t = sent s \<and> files t = files s \<and> scope t = Map.empty"
proof (induction "card (dom (scope s))" arbitrary: s)
  case 0
  have "dom (scope s) = dom (vars (heap s))"
    using 0(2) typed_none typed_some by (fastforce simp: session_inv_def)
  with 0 winv_finite(1) have "dom (scope s) = {}" by (fastforce simp: session_inv_def)
  with 0 show ?case by auto
next
  case (Suc n)
  then have "dom (scope s) \<noteq> {}" by force
  then obtain v c where v: "scope s v = Some c" by blast
  then have chk: "stmt_check (scope s) (Drop c v) = Some ((scope s)(v := None))" by simp
  from Suc.prems(1) have w: "winv (debts s) (heap s)" "well_typed (scope s) (vars (heap s))"
    by (simp_all add: session_inv_def)
  from typed_some [OF w(2) v] obtain p where p: "vars (heap s) v = Some p" "class_rc.fits c p" by blast
  from class_rc.dtor_quiet [OF session_env_dest(1) [OF assms] w(1) p] obtain w'
    where w': "stmt_exec env (Drop c v) (heap s) = Inr w'" by (auto simp: ok_iff)
  let ?s = "s\<lparr>scope := (scope s)(v := None), heap := w'\<rparr>"
  have step: "session_step env s ?s" by (rule session_step.statement [OF chk w'])
  have "n = card (dom (scope ?s))"
    using Suc.hyps(2) v by (simp add: domI)
  from Suc.hyps(1) [OF this session_step_inv [OF assms step Suc.prems(1)]] step show ?case
    by (auto intro: converse_rtranclp_into_rtranclp)
qed

text \<open>
  C4: From every reachable state a session can be brought to its end, at which no
  operation is pending, no event is to be delivered, no file being opened and no variable in scope; and however a session gets there, nothing is
  left then: every request and buffer has been deleted, every handle left is an active one, which
  keeps itself alive, and every loop left has been booked by such a handle.
\<close>

theorem sessions_end:
  assumes "session_env env" "session_reach env s"
  shows "(\<exists>t. (session_step env)\<^sup>*\<^sup>* s t \<and> ops t = [] \<and> sent t = [] \<and> files t = [] \<and> scope t = Map.empty) \<and>
    (ops s = [] \<and> sent s = [] \<and> files s = [] \<and> scope s = Map.empty \<longrightarrow>
      buffers (heap s) = Map.empty \<and> requests (heap s) = Map.empty \<and>
      (\<forall>a i. handles (heap s) a = Some i \<longrightarrow> 0 < owes i) \<and>
      (\<forall>l. loops (heap s) l \<noteq> None \<longrightarrow> (\<exists>a i. handles (heap s) a = Some i \<and> h_loop i = Some l)))"
proof -
  note inv = session_reach_inv [OF assms] and steps = session_steps_inv [OF assms(1)]
  from ops_can_complete [OF assms(1) inv] obtain t where t: "(session_step env)\<^sup>*\<^sup>* s t" "ops t = []" by blast
  from events_can_arrive [OF assms(1) steps [OF t(1) inv]] t obtain u
    where u: "(session_step env)\<^sup>*\<^sup>* s u" "ops u = []" "sent u = []" by (auto intro: rtranclp_trans)
  from files_can_open [OF assms(1) steps [OF u(1) inv]] u obtain x
    where x: "(session_step env)\<^sup>*\<^sup>* s x" "ops x = []" "sent x = []" "files x = []" by (auto intro: rtranclp_trans)
  from variables_can_go [OF assms(1) steps [OF x(1) inv]] x
  have "\<exists>t. (session_step env)\<^sup>*\<^sup>* s t \<and> ops t = [] \<and> sent t = [] \<and> files t = [] \<and> scope t = Map.empty"
    by (auto intro: rtranclp_trans)
  moreover have "winv (\<lambda>_. 0) (heap s) \<and> vars (heap s) = Map.empty"
    if "ops s = []" "sent s = []" "files s = []" "scope s = Map.empty"
    using inv that typed_none [of "scope s" "vars (heap s)"] by (auto simp: session_inv_def)
  ultimately show ?thesis
    using nothing_left [of "heap s"] by (auto simp: fun_eq_iff)
qed

section \<open>An example\<close>

lemma session_env_quiet: "session_env quiet_env"
proof -
  have "class_env quiet_env"
    by (simp add: class_env_def closes_loops_quiet) (simp add: sinks_local_def quiet_env_def)
  moreover have "bystanders quiet_env"
    by (simp add: bystanders_def quiet_env_def stays_Inr)
  moreover have "hands_out quiet_env"
    by (auto simp: hands_out_def quiet_env_def stays_Inr buffer_create_def buffer_init_def single_chunk_def
      keeps_callbacks_def buffer_ctor_def Let_def intro!: new_address_steady)
  moreover have "records_send_handle quiet_env"
    by (simp add: records_send_handle_def quiet_env_def)
  ultimately show ?thesis
    by (simp add: session_env_def op_env_def client_ok_quiet library_inits_quiet inits_quiet records_handles_quiet)
qed

lemma session_program:
  "prog_check (scope s) xs = Some G \<Longrightarrow> prog_exec env xs (heap s) = Inr w \<Longrightarrow>
   (session_step env)\<^sup>*\<^sup>* s (s\<lparr>scope := G, heap := w\<rparr>)"
proof (induction xs arbitrary: s)
  case Nil
  then show ?case by (cases s) simp
next
  case (Cons x xs)
  then obtain G1 w1 where x: "stmt_check (scope s) x = Some G1" "stmt_exec env x (heap s) = Inr w1"
    "prog_check G1 xs = Some G" "prog_exec env xs w1 = Inr w"
    by (auto simp: rbind_eq_Inr split: option.splits)
  have "session_step env s (s\<lparr>scope := G1, heap := w1\<rparr>)" by (rule session_step.statement [OF x(1,2)])
  with Cons.IH [of "s\<lparr>scope := G1, heap := w1\<rparr>"] x(3,4) show ?case
    by (auto intro: converse_rtranclp_into_rtranclp)
qed

text \<open>A write whose request, handle and buffer are dropped by the program before it completes.\<close>

definition declares_example :: "stmt list" where
  "declares_example = [New_loop 0, New_handle If_stream ''uv_tcp_init_ex'' [Num 0] 10 0,
     New_buffer 20 [5], New_request 30 UV_WRITE]"

definition drops_example :: "stmt list" where
  "drops_example = [Drop Request_class 30, Drop Buffer_class 20, Drop Handle_class 10, Drop Loop_class 0]"

definition declared_world :: world where
  "declared_world = projr (prog_exec quiet_env declares_example world_init)"

definition writing_world :: world where
  "writing_world = snd (projr (write_run quiet_env 21 1 11 declared_world))"

definition dropped_world :: world where
  "dropped_world = projr (prog_exec quiet_env drops_example writing_world)"

lemma declares_example_runs:
  "case prog_exec quiet_env declares_example world_init of Inl e \<Rightarrow> False
   | Inr w \<Rightarrow> vars w 10 = Some (Some (HandleO 1)) \<and> vars w 20 = Some (Some (BufferO 11)) \<and>
       vars w 30 = Some (Some (RequestO 21)) \<and> op_waits (Write 21 1 11) w"
  by code_simp

lemma writing_example_runs:
  "case rbind (prog_exec quiet_env declares_example world_init) (write_run quiet_env 21 1 11) of Inl e \<Rightarrow> False
   | Inr (r, w) \<Rightarrow> r = 0"
  by code_simp

lemma drops_example_runs:
  "case rbind (prog_exec quiet_env declares_example world_init) (\<lambda>w.
      rbind (write_run quiet_env 21 1 11 w) (\<lambda>(r, w). prog_exec quiet_env drops_example w)) of
     Inl e \<Rightarrow> False | Inr w \<Rightarrow> True"
  by code_simp

text \<open>The same stream read from: a command that is ready, and an event that is due.\<close>

lemma reading_example_runs:
  "case rbind (prog_exec quiet_env declares_example world_init)
      (command_exec quiet_env (Start_reading 7 8 0 (- 1)) 1) of Inl e \<Rightarrow> False
   | Inr (r, w) \<Rightarrow> r = 0 \<and> vars w 10 = Some (Some (HandleO 1)) \<and>
       map_option (occurs_on (Read_event 100 5 [])) (handles w 1) = Some True"
  by code_simp

lemma example_runs:
  "prog_exec quiet_env declares_example world_init = Inr declared_world"
  "write_run quiet_env 21 1 11 declared_world = Inr (0, writing_world)"
  "prog_exec quiet_env drops_example writing_world = Inr dropped_world"
proof -
  show d: "prog_exec quiet_env declares_example world_init = Inr declared_world"
    using declares_example_runs by (simp add: declared_world_def split: sum.splits)
  show r: "write_run quiet_env 21 1 11 declared_world = Inr (0, writing_world)"
    using writing_example_runs by (simp add: d writing_world_def split: sum.splits prod.splits)
  show "prog_exec quiet_env drops_example writing_world = Inr dropped_world"
    using drops_example_runs by (simp add: d r dropped_world_def del: One_nat_def split: sum.splits)
qed

definition session_example :: session where
  "session_example = \<lparr>scope = Map.empty, ops = [Write 21 1 11], sent = [], files = [], heap = dropped_world\<rparr>"

lemma session_example_reach: "session_reach quiet_env session_example"
proof -
  let ?G = "[0 :: nat \<mapsto> Loop_class, 10 \<mapsto> Handle_class, 20 \<mapsto> Buffer_class, 30 \<mapsto> Request_class]"
  let ?s = "\<lparr>scope = ?G, ops = [], sent = [], files = [], heap = declared_world\<rparr>"
  let ?t = "\<lparr>scope = ?G, ops = [Write 21 1 11], sent = [], files = [], heap = writing_world\<rparr>"
  have chk: "prog_check Map.empty declares_example = Some ?G"
    by (simp add: declares_example_def declared_def loop_inits_def)
  have 1: "(session_step quiet_env)\<^sup>*\<^sup>* session_start ?s"
    using session_program [of session_start declares_example ?G quiet_env declared_world] example_runs(1) chk
    by (simp add: session_start_def)
  have "op_allowed [] declared_world (Write 21 1 11)"
    using declares_example_runs by (auto simp: op_allowed_def op_refers_def refers_def example_runs(1))
  then have 2: "session_step quiet_env ?s ?t"
    using session_step.begins [of ?s "Write 21 1 11" quiet_env 0 writing_world] example_runs(2) declares_example_runs
    by (simp add: example_runs(1) del: One_nat_def)
  have "prog_check ?G drops_example = Some (?G(30 := None, 20 := None, 10 := None, 0 := None))"
    by (simp add: drops_example_def)
  moreover have "?G(30 := None, 20 := None, 10 := None, 0 := None) = Map.empty" by auto
  ultimately have 3: "(session_step quiet_env)\<^sup>*\<^sup>* ?t session_example"
    using session_program [of ?t drops_example Map.empty quiet_env dropped_world] example_runs(3)
    by (simp add: session_example_def)
  from 1 2 3 show ?thesis
    unfolding session_reach_def by (meson rtranclp.rtrancl_into_rtrancl rtranclp_trans)
qed

theorem sessions_ok_witness:
  "live_refs dropped_world (RequestO 21) \<noteq> None \<and> live_refs dropped_world (BufferO 11) \<noteq> None \<and>
   live_refs dropped_world (HandleO 1) \<noteq> None \<and> ok (\<lambda>_. True) (write_cb quiet_env 21 (- 125) dropped_world)"
  using sessions_ok [OF session_env_quiet session_example_reach]
  by (auto simp: session_example_def ball_simps dest: spec [of _ "- 125 :: int"])

theorem sessions_end_witness:
  "\<exists>t. (session_step quiet_env)\<^sup>*\<^sup>* session_example t \<and> ops t = [] \<and> sent t = [] \<and> files t = [] \<and> scope t = Map.empty"
  using sessions_end [OF session_env_quiet session_example_reach] by blast

end
