(* ===== verification/Uvcc_Ownership.thy ===== *)
theory Uvcc_Ownership
  imports Uvcc_Session
begin

text \<open>
  What the sessions of \<open>Uvcc_Session\<close> look like to somebody who does not know of reference counts:
  variables refer to objects, operations are pending, and an object is there as long as it can be
  reached. The counting implements this exactly; no instance is deleted early and none is left over.
\<close>

section \<open>What can be reached\<close>

definition alive :: "session \<Rightarrow> obj set" where
  "alive s = {q. live_refs (heap s) q \<noteq> None}"

definition active :: "handle_instance \<Rightarrow> bool" where
  "active i \<longleftrightarrow> reading (rdcmd_state (h_io i)) \<or> watching (opcmd_state (h_watch i)) \<or> has_extra_ref (h_watch i)"

lemma active_iff: "active i \<longleftrightarrow> 0 < owes i"
  by (auto simp: active_def owes_def)

text \<open>
  The roots are the variables, the pending operations, the events to be delivered, the files being
  opened and the handles libuv reports events of; a handle leads to the loop it has booked.
\<close>

inductive_set needed :: "session \<Rightarrow> obj set" for s where
  needed_variable: "vars (heap s) v = Some (Some q) \<Longrightarrow> q \<in> needed s"
| needed_operation: "p \<in> set (ops s) \<Longrightarrow> q \<in> set (RequestO (op_request p) # op_objects p) \<Longrightarrow> q \<in> needed s"
| needed_event: "a \<in> set (sent s) \<Longrightarrow> HandleO a \<in> needed s"
| needed_file: "a \<in> set (files s) \<Longrightarrow> HandleO a \<in> needed s"
| needed_active: "handles (heap s) a = Some i \<Longrightarrow> active i \<Longrightarrow> HandleO a \<in> needed s"
| needed_loop: "HandleO a \<in> needed s \<Longrightarrow> handles (heap s) a = Some i \<Longrightarrow> h_loop i = Some l \<Longrightarrow> LoopO l \<in> needed s"

lemma session_inv_dest:
  assumes "session_inv s"
  shows "winv (debts s) (heap s)" "well_typed (scope s) (vars (heap s))"
    "p \<in> set (ops s) \<Longrightarrow> recorded (heap s) p" "distinct (map op_request (ops s))"
  using assms by (simp_all add: session_inv_def)

lemma count_list_pos: "x \<in> set xs \<Longrightarrow> 0 < count_list xs x"
  using count_list_0_iff [of xs x] by simp

lemma debts_event: "a \<in> set (sent s) \<or> a \<in> set (files s) \<Longrightarrow> 0 < debts s (HandleO a)"
  using count_list_pos [of "HandleO a" "map HandleO (sent s)"] count_list_pos [of "HandleO a" "map HandleO (files s)"]
  by (auto simp: owed_def)

lemma debts_needed:
  assumes "0 < debts s q"
  shows "q \<in> needed s"
proof (rule ccontr)
  assume q: "q \<notin> needed s"
  then have "\<forall>p \<in> set (ops s). count_list (RequestO (op_request p) # op_objects p) q = 0"
    by (meson count_list_0_iff needed_operation)
  then have "(\<Sum>p\<leftarrow>ops s. count_list (RequestO (op_request p) # op_objects p) q) = 0"
    by (simp only: sum_list_eq_0_iff set_map ball_simps)
  moreover have "count_list (map HandleO (sent s)) q = 0" "count_list (map HandleO (files s)) q = 0"
    using q by (auto simp: count_list_0_iff intro: needed_event needed_file)
  ultimately show False
    using assms by (simp add: owed_def del: count_list.simps sum_list_eq_0_iff)
qed

lemma needed_alive:
  assumes "session_inv s" "q \<in> needed s"
  shows "q \<in> alive s"
proof -
  note w = session_inv_dest(1) [OF assms(1)]
  from assms(2) have "live_refs (heap s) q \<noteq> None"
  proof induction
    case (needed_loop a i l)
    then show ?case using winv_booked_live [OF w, of a i l] by (auto simp: live_loop)
  next
    case (needed_active a i)
    then show ?case by (simp add: live_handle)
  qed (use winv_var_live [OF w] winv_owned_live' [OF w owed_pos] winv_owned_live' [OF w debts_event] in blast)+
  then show ?thesis by (simp add: alive_def)
qed

lemma count_exact:
  assumes "session_inv s" "live_refs (heap s) q = Some c"
  shows "c = int (count_ptr (vars (heap s)) q + debts s q + booked (heap s) q)" "0 < c"
  using winv_agrees [OF session_inv_dest(1) [OF assms(1)], of q] assms(2) by (auto simp: held_def)

lemma alive_needed:
  assumes "session_inv s" "q \<in> alive s"
  shows "q \<in> needed s"
proof -
  note w = session_inv_dest(1) [OF assms(1)]
  have "q \<in> needed s \<or> 0 < booked (heap s) q" if "q \<in> alive s" for q
  proof -
    from that obtain c where "live_refs (heap s) q = Some c" by (auto simp: alive_def)
    from count_exact [OF assms(1) this] debts_needed [of s q]
      count_ptr_zero [OF winv_finite(1) [OF w], of q] show ?thesis
      by (auto intro: needed_variable)
  qed
  note split = this
  have handle: "HandleO a \<in> needed s" if "handles (heap s) a = Some i" for a i
    using split [of "HandleO a"] that
    by (auto simp: alive_def live_handle booked_def active_iff intro: needed_active)
  from split [OF assms(2)] show ?thesis
  proof
    assume b: "0 < booked (heap s) q"
    show ?thesis
    proof (cases q)
      case (LoopO l)
      with b count_ptr_zero [OF winv_finite(2) [OF w], of l] obtain a i
        where "handles (heap s) a = Some i" "h_loop i = Some l"
        by (auto simp: booked_def booking_def)
      with LoopO show ?thesis by (auto intro: needed_loop handle)
    next
      case (HandleO a)
      with assms(2) show ?thesis by (auto simp: alive_def live_handle intro: handle)
    qed (use b in \<open>simp_all add: booked_def\<close>)
  qed
qed

lemma alive_is_needed: "session_inv s \<Longrightarrow> alive s = needed s"
  using needed_alive alive_needed by blast

text \<open>
  C2: Reference counting deletes exactly what nobody needs any more: in every state a session can
  reach, the instances that exist are those that can be reached from the variables, the pending operations,
  the events to be delivered, the files being opened and the active handles, the loop of a handle from
  the handle; there are no cycles that keep each other alive, and nothing is deleted early. And the
  count of every instance is the number of its holders.
\<close>

theorem lifetimes_exact:
  assumes "session_env env" "session_reach env s"
  shows "alive s = needed s \<and>
    (\<forall>q c. live_refs (heap s) q = Some c \<longrightarrow>
      c = int (card {v. vars (heap s) v = Some (Some q)} + debts s q + booked (heap s) q))"
proof (intro conjI allI impI)
  note inv = session_reach_inv [OF assms]
  show "alive s = needed s" by (rule alive_is_needed [OF inv])
  show "c = int (card {v. vars (heap s) v = Some (Some q)} + debts s q + booked (heap s) q)"
    if "live_refs (heap s) q = Some c" for q c
    using count_exact(1) [OF inv that] by (simp add: count_ptr_def)
qed

text \<open>The write of the example, when the program has dropped everything.\<close>

theorem lifetimes_exact_witness:
  "live_refs dropped_world (BufferO 11) = Some 1 \<and> alive session_example = needed session_example"
proof -
  note ex = lifetimes_exact [OF session_env_quiet session_example_reach]
  have none: "vars (heap session_example) = Map.empty"
    using session_inv_dest(2) [OF session_reach_inv [OF session_env_quiet session_example_reach]] typed_none
    by (force simp: session_example_def)
  have "BufferO 11 \<in> needed session_example"
    by (rule needed_operation [of "Write 21 1 11"]) (simp_all add: session_example_def)
  with ex obtain c where c: "live_refs (heap session_example) (BufferO 11) = Some c" by (auto simp: alive_def)
  then have "c = int (card {v. vars (heap session_example) v = Some (Some (BufferO 11))} +
      debts session_example (BufferO 11) + booked (heap session_example) (BufferO 11))" using ex by blast
  then have "c = 1" by (simp add: none) (simp add: session_example_def owed_def booked_def)
  with c ex show ?thesis by (simp add: session_example_def)
qed

section \<open>The ownership machine\<close>

text \<open>
  The abstract machine knows variables, pending operations, events to be delivered and files being
  opened, and nothing of counts and instances. \<open>L\<close> are the objects there are when the step begins;
  a new object is none of them.
\<close>

record owner =
  binds :: "var \<rightharpoonup> obj option"
  pends :: "op list"
  sends :: "addr list"
  loads :: "addr list"

definition bound :: "owner \<Rightarrow> obj \<Rightarrow> bool" where
  "bound r q \<longleftrightarrow> (\<exists>v. binds r v = Some (Some q))"

inductive own_step :: "obj set \<Rightarrow> owner \<Rightarrow> owner \<Rightarrow> bool" for L where
  own_assign: "(\<And>c. creates x = Some c \<Longrightarrow> class_of q = c \<and> q \<notin> L) \<Longrightarrow>
    own_step L r (r\<lparr>binds := rebinds x q (binds r)\<rparr>)"
| own_same: "own_step L r r"
| own_send: "bound r (HandleO a) \<Longrightarrow> a \<notin> set (sends r) \<Longrightarrow> own_step L r (r\<lparr>sends := a # sends r\<rparr>)"
| own_deliver: "a \<in> set (sends r) \<Longrightarrow> own_step L r (r\<lparr>sends := remove1 a (sends r)\<rparr>)"
| own_accept: "binds r v = None \<Longrightarrow> HandleO h \<notin> L \<Longrightarrow>
    own_step L r (r\<lparr>binds := (binds r)(v \<mapsto> Some (HandleO h))\<rparr>)"
| own_open: "binds r v = None \<Longrightarrow> HandleO h \<notin> L \<Longrightarrow>
    own_step L r (r\<lparr>binds := (binds r)(v \<mapsto> Some (HandleO h)), loads := h # loads r\<rparr>)"
| own_opened: "a \<in> set (loads r) \<Longrightarrow> own_step L r (r\<lparr>loads := remove1 a (loads r)\<rparr>)"
| own_start: "op_request p \<notin> op_request ` set (pends r) \<Longrightarrow> bound r (RequestO (op_request p)) \<Longrightarrow>
    (\<And>q. q \<in> set (op_objects p) \<Longrightarrow> bound r q) \<Longrightarrow> own_step L r (r\<lparr>pends := p # pends r\<rparr>)"
| own_task: "Task a l c \<in> set (pends r) \<Longrightarrow>
    own_step L r (r\<lparr>pends := Task_done a # remove1 (Task a l c) (pends r)\<rparr>)"
| own_finish: "p \<in> set (pends r) \<Longrightarrow> own_step L r (r\<lparr>pends := remove1 p (pends r)\<rparr>)"

definition owner_of :: "session \<Rightarrow> owner" where
  "owner_of s = \<lparr>binds = vars (heap s), pends = ops s, sends = sent s, loads = files s\<rparr>"

lemma bound_owner [simp]: "bound (owner_of s) q \<longleftrightarrow> refers (heap s) q"
  by (simp add: bound_def owner_of_def refers_def)

lemma owner_of_sel [simp]:
  "binds (owner_of s) = vars (heap s)" "pends (owner_of s) = ops s" "sends (owner_of s) = sent s"
  "loads (owner_of s) = files s"
  by (simp_all add: owner_of_def)

text \<open>Steps that leave the variables alone.\<close>

lemma owner_upd [simp]:
  "owner_of (s\<lparr>ops := ps\<rparr>) = owner_of s\<lparr>pends := ps\<rparr>" "owner_of (s\<lparr>sent := xs\<rparr>) = owner_of s\<lparr>sends := xs\<rparr>"
  "owner_of (s\<lparr>files := ys\<rparr>) = owner_of s\<lparr>loads := ys\<rparr>"
  by (simp_all add: owner_of_def)

lemma owner_quiet: "vars w = vars (heap s) \<Longrightarrow> owner_of (s\<lparr>heap := w\<rparr>) = owner_of s"
  by (simp add: owner_of_def)

lemma owner_same: "owner_of s\<lparr>pends := ops s\<rparr> = owner_of s" "owner_of s\<lparr>sends := sent s\<rparr> = owner_of s"
  by (simp_all add: owner_of_def)

lemma file_open_address: "file_open env l path flags mode (Some c) w = Inr (h, w') \<Longrightarrow> h = nxt w"
  by (auto simp: file_open_def handle_create_def Let_def rbind_eq_Inr split: if_splits)

lemma fresh_address: "session_inv s \<Longrightarrow> HandleO (nxt (heap s)) \<notin> alive s"
  using winv_bounded [OF session_inv_dest(1), of s] by (auto simp: alive_def live_handle bounded_def)

lemma accepted_fresh:
  assumes "session_env env" "session_inv s" "accepts_on (heap s) a" "stream_accept env a (heap s) = Inr (h, w)"
  shows "HandleO h \<notin> alive s" "vars w = vars (heap s)"
proof -
  note w = session_inv_dest(1) [OF assms(2)]
  from assms(3) obtain i l where i: "handles (heap s) a = Some i" "h_loop i = Some l" "u_loop (h_uv i) = Some l"
    "u_type (h_uv i) = UV_NAMED_PIPE \<or> u_type (h_uv i) = UV_TCP" by (auto simp: accepts_on_def)
  from winv_booked_live [OF w i(1,2)] have "loops (heap s) l \<noteq> None" by simp
  from accepted_ok [OF session_env_dest(5) [OF assms(1)] w i(1,3) this i(4)] assms(4)
  have "handles (heap s) h = None" "vars w = vars (heap s)" by (auto simp: constructed_def)
  then show "HandleO h \<notin> alive s" "vars w = vars (heap s)" by (simp_all add: alive_def live_handle)
qed

text \<open>A statement rebinds the variables as its meaning is.\<close>

definition rebound :: "session \<Rightarrow> stmt \<Rightarrow> world \<Rightarrow> bool" where
  "rebound s x w \<longleftrightarrow> (\<exists>q. vars w = rebinds x q (vars (heap s)) \<and>
     (\<forall>c. creates x = Some c \<longrightarrow> class_of q = c \<and> q \<notin> alive s))"

lemma statement_rebinds:
  assumes "session_env env" "session_inv s" "stmt_check (scope s) x = Some G" "stmt_exec env x (heap s) = Inr w"
  shows "rebound s x w"
  using stmt_effect [OF session_env_dest(1,5) [OF assms(1)] session_inv_dest(1,2) [OF assms(2)] assms(3)]
    assms(4) by (auto simp: effect_def made_def rebound_def alive_def)

lemma session_step_owner:
  assumes env: "session_env env" and s: "session_inv s" and step: "session_step env s t"
  shows "own_step (alive s) (owner_of s) (owner_of t)"
  using step
proof cases
  case (statement x G w)
  from statement_rebinds [OF env s statement(2,3)] obtain q where q: "vars w = rebinds x q (vars (heap s))"
    "\<And>c. creates x = Some c \<Longrightarrow> class_of q = c \<and> q \<notin> alive s" unfolding rebound_def by blast
  have "own_step (alive s) (owner_of s) (owner_of s\<lparr>binds := rebinds x q (binds (owner_of s))\<rparr>)"
    by (rule own_assign) (rule q(2))
  with statement(1) q(1) show ?thesis by (simp add: owner_of_def)
next
  case (callback a c w)
  from quiet_vars [OF s staysD [OF request_set_cb_stays callback(3)]] callback(1) show ?thesis
    by (simp add: owner_quiet own_same)
next
  case (command c a r w)
  from command_ok [OF session_inv_dest(1) [OF s] command(2), of env] command(3)
  have "apart (heap s) w" by (auto simp: around_def)
  from quiet_vars [OF s apart_steady [OF this]] command(1) show ?thesis by (simp add: owner_quiet own_same)
next
  case (event e a w)
  from quiet_vars [OF s staysD [OF occur_stays [OF session_env_dest(4,6) [OF env]] event(3)]] event(1) show ?thesis
    by (simp add: owner_quiet own_same)
next
  case (sends a r w)
  from quiet_vars [OF s staysD [OF async_send_stays sends(4), simplified]]
  show ?thesis unfolding sends(1) using own_send [of "owner_of s" a "alive s"] sends(2,3)
    by (auto simp: owner_quiet owner_same own_same)
next
  case (delivers a w)
  from quiet_vars [OF s staysD [OF async_cb_stays [OF session_env_dest(4) [OF env]] delivers(3)]]
  show ?thesis unfolding delivers(1) using own_deliver [of a "owner_of s" "alive s"] delivers(2)
    by (simp add: owner_quiet)
next
  case (accepts v a h w)
  note new = accepted_fresh [OF env s accepts(3,4)]
  have "own_step (alive s) (owner_of s) (owner_of s\<lparr>binds := (binds (owner_of s))(v \<mapsto> Some (HandleO h))\<rparr>)"
    by (rule own_accept) (use typed_none [OF session_inv_dest(2) [OF s] accepts(2)] new in simp_all)
  with accepts(1) new(2) show ?thesis by (simp add: owner_of_def store_simps)
next
  case (opens v l path flags mode c h w)
  have h: "HandleO h \<notin> alive s" using fresh_address [OF s] file_open_address [OF opens(4)] by simp
  have v: "binds (owner_of s) v = None" using typed_none [OF session_inv_dest(2) [OF s] opens(2)] by simp
  have "vars w = vars (heap s)" by (rule quiet_vars [OF s staysD [OF file_open_stays opens(4), simplified]])
  with opens(1) own_accept [OF v h] own_open [OF v h] show ?thesis
    by (simp add: owner_of_def store_simps)
next
  case (opened a w)
  from quiet_vars [OF s staysD [OF file_open_cb_stays [OF session_env_dest(4) [OF env]] opened(3)]]
  show ?thesis unfolding opened(1) using own_opened [of a "owner_of s" "alive s"] opened(2)
    by (simp add: owner_quiet)
next
  case (begins p r w)
  from quiet_vars [OF s staysD [OF op_run_stays [OF session_env_dest(4) [OF env]] begins(3), simplified]]
  show ?thesis unfolding begins(1) using own_start [of p "owner_of s" "alive s"] begins(2)
    by (auto simp: owner_quiet owner_same own_same op_allowed_def op_refers_def)
next
  case (pool a l c w)
  from quiet_vars [OF s staysD [OF work_handlers_stay(1) [OF session_env_dest(4) [OF env]] pool(3)]]
  show ?thesis unfolding pool(1) using own_task [of a l c "owner_of s" "alive s"] pool(2) by (simp add: owner_quiet)
next
  case (completes p status w)
  from quiet_vars [OF s staysD [OF op_complete_stays [OF session_env_dest(4) [OF env]] completes(3)]]
  show ?thesis unfolding completes(1) using own_finish [of p "owner_of s" "alive s"] completes(2)
    by (simp add: owner_quiet)
qed

text \<open>
  C3: Every step of a session is a step of an abstract machine that knows no reference counts: a
  statement changes the variables as its meaning is and a new object is one that was not there;
  commands, events and the handlers of whatever completes leave all variables alone; an operation
  is started on objects variables refer to. And after each step the objects that are there are again
  those that can be reached.
\<close>

theorem sessions_refine_ownership:
  assumes "session_env env" "session_reach env s" "session_step env s t"
  shows "own_step (alive s) (owner_of s) (owner_of t) \<and> alive t = needed t \<and>
    (\<forall>x G w. stmt_check (scope s) x = Some G \<and> stmt_exec env x (heap s) = Inr w \<longrightarrow> rebound s x w)"
  using session_step_owner [OF assms(1) session_reach_inv [OF assms(1,2)] assms(3)]
    alive_is_needed [OF session_step_inv [OF assms(1,3) session_reach_inv [OF assms(1,2)]]]
    statement_rebinds [OF assms(1) session_reach_inv [OF assms(1,2)]]
  by blast

text \<open>The first statement of a program.\<close>

definition first_step :: session where
  "first_step = \<lparr>scope = [0 \<mapsto> Loop_class], ops = [], sent = [], files = [],
     heap = loop_ctor quiet_env 0 world_init\<rparr>"

theorem sessions_refine_ownership_witness:
  "own_step {} (owner_of session_start) (owner_of first_step) \<and> alive first_step = needed first_step"
proof -
  have "session_step quiet_env session_start (session_start\<lparr>scope := [0 \<mapsto> Loop_class],
      heap := loop_ctor quiet_env 0 world_init\<rparr>)"
    by (rule session_step.statement [of _ "New_loop 0"]) (simp_all add: session_start_def declared_def)
  then have step: "session_step quiet_env session_start first_step"
    by (simp add: session_start_def first_step_def)
  have "alive session_start = {}"
    by (auto simp: alive_def session_start_def world_init_def live_refs_def split: obj.splits)
  with sessions_refine_ownership [OF session_env_quiet _ step] show ?thesis
    by (simp add: session_reach_def)
qed

end
