(* ===== verification/Uvcc_Process.thy ===== *)
theory Uvcc_Process
  imports Uvcc_Stream
begin

text \<open>
  \<^verbatim>\<open>handle-misc.hpp\<close>: the class \<open>process\<close>. Its properties are kept here beside the handle instance and
  passed to the member functions as a state of their own; the endpoints of the child's
  standard streams, a vector of \<open>io\<close> objects, are cells of the store of variables.
\<close>

section \<open>The properties\<close>

definition UV_IGNORE :: "32 word" where "UV_IGNORE = 0x00"
definition UV_INHERIT_FD :: "32 word" where "UV_INHERIT_FD = 0x02"
definition UV_INHERIT_STREAM :: "32 word" where "UV_INHERIT_STREAM = 0x04"
definition UV_PROCESS_SETUID :: "32 word" where "UV_PROCESS_SETUID = 0x01"
definition UV_PROCESS_SETGID :: "32 word" where "UV_PROCESS_SETGID = 0x02"

datatype stdio_data = Stdio_fd int | Stdio_stream addr

record stdio_container =
  sc_flags :: "32 word"
  sc_data :: stdio_data

text \<open>
  \<open>spawn_options\<close> and the two vectors; \<open>stdio_count\<close> is a field of its own, and the pointer
  \<open>spawn_options.stdio\<close> is to the first vector whenever the count is not 0.
\<close>

record process_properties =
  spawn_flags :: "32 word"
  spawn_uid :: "32 word"
  spawn_gid :: "32 word"
  spawn_env :: "string list option"
  spawn_cwd :: "string option"
  spawn_file :: "string option"
  spawn_args :: "string list"
  stdio_count :: nat
  exit_cb_prop :: "cb option"
  stdio_uv_containers :: "stdio_container list"
  stdio_uvcc_endpoints :: "var list"

definition stdio_container_init :: stdio_container where
  "stdio_container_init = \<lparr>sc_flags = UV_IGNORE, sc_data = Stdio_fd (-1)\<rparr>"

definition process_properties_init :: process_properties where
  "process_properties_init = \<lparr>spawn_flags = 0, spawn_uid = 0, spawn_gid = 0, spawn_env = None,
     spawn_cwd = None, spawn_file = None, spawn_args = [], stdio_count = 0, exit_cb_prop = None,
     stdio_uv_containers = [], stdio_uvcc_endpoints = []\<rparr>"

text \<open>\<open>resize()\<close>: new containers are ignored, new endpoints are null.\<close>

primrec new_endpoints :: "nat \<Rightarrow> world \<Rightarrow> var list \<times> world" where
  "new_endpoints 0 w = ([], w)"
| "new_endpoints (Suc k) w =
     (let (v, w) = var_new None w; (vs, w) = new_endpoints k w in (v # vs, w))"

definition ensure_stdio_number ::
  "nat \<Rightarrow> process_properties \<times> world \<Rightarrow> process_properties \<times> world" where
  "ensure_stdio_number n s = (case s of (p, w) \<Rightarrow>
     if length (stdio_uv_containers p) \<le> n then
       (let k = n + 1 - length (stdio_uv_containers p);
            (vs, w) = new_endpoints (n + 1 - length (stdio_uvcc_endpoints p)) w
        in (p\<lparr>stdio_uv_containers := stdio_uv_containers p @ replicate k stdio_container_init,
              stdio_uvcc_endpoints := stdio_uvcc_endpoints p @ vs,
              stdio_count := length (stdio_uv_containers p) + k\<rparr>, w))
     else (p, w))"

section \<open>The member functions\<close>

definition process_ctor :: "env \<Rightarrow> addr \<Rightarrow> world \<Rightarrow> (addr \<times> process_properties \<times> world) res" where
  "process_ctor env l w =
     (let (a, w) = handle_create If_handle w in
      rbind (handle_mod a (\<lambda>i. i\<lparr>h_uv := (h_uv i)\<lparr>u_loop := Some l\<rparr>\<rparr>) w) (\<lambda>w.
      rbind (book_loop env a w) (\<lambda>w.
      Inr (a, process_properties_init, w))))"

definition set_container ::
  "nat \<Rightarrow> 32 word \<Rightarrow> stdio_data \<Rightarrow> process_properties \<Rightarrow> process_properties" where
  "set_container n f d p =
     p\<lparr>stdio_uv_containers := (stdio_uv_containers p)[n := \<lparr>sc_flags = f, sc_data = d\<rparr>]\<rparr>"

text \<open>
  The endpoint is passed by value, in the variable \<open>v\<close>, and moved into the vector; the caller
  destroys \<open>v\<close>. \<open>id()\<close> is the pointer to the instance.
\<close>

definition inherit_stdio ::
  "env \<Rightarrow> nat \<Rightarrow> var \<Rightarrow> process_properties \<times> world \<Rightarrow> (process_properties \<times> world) res" where
  "inherit_stdio env n v s =
     (let (p, w) = ensure_stdio_number n s in
      rbind (handle_ptr v w) (\<lambda>io.
      rbind (case io of
          None \<Rightarrow> Inr p
        | Some h \<Rightarrow>
            rbind (handle_at h w) (\<lambda>i.
            let t = iface_type i in
            if t = UV_NAMED_PIPE \<or> t = UV_STREAM \<or> t = UV_TCP \<or> t = UV_TTY then
              Inr (set_container n UV_INHERIT_STREAM (Stdio_stream h) p)
            else if t = UV_FILE then
              Inr (set_container n UV_INHERIT_FD (Stdio_fd (c_int (u_result (h_uv i)))) p)
            else Inr (set_container n UV_IGNORE (Stdio_fd (-1)) p))) (\<lambda>p.
      rbind (handle_move_assign env (stdio_uvcc_endpoints p ! n) v w) (\<lambda>w.
      Inr (p, w)))))"



definition set_uid :: "32 word \<Rightarrow> process_properties \<Rightarrow> process_properties" where
  "set_uid uid p =
     p\<lparr>spawn_flags := (if uid = -1 then and (spawn_flags p) (not UV_PROCESS_SETUID)
         else or (spawn_flags p) UV_PROCESS_SETUID), spawn_uid := uid\<rparr>"

definition set_gid :: "32 word \<Rightarrow> process_properties \<Rightarrow> process_properties" where
  "set_gid gid p =
     p\<lparr>spawn_flags := (if gid = -1 then and (spawn_flags p) (not UV_PROCESS_SETGID)
         else or (spawn_flags p) UV_PROCESS_SETGID), spawn_gid := gid\<rparr>"

definition set_environment :: "string list option \<Rightarrow> process_properties \<Rightarrow> process_properties" where
  "set_environment envp p = p\<lparr>spawn_env := envp\<rparr>"

definition set_working_dir :: "string option \<Rightarrow> process_properties \<Rightarrow> process_properties" where
  "set_working_dir cwd p = p\<lparr>spawn_cwd := cwd\<rparr>"

definition process_spawn ::
  "env \<Rightarrow> addr \<Rightarrow> string \<Rightarrow> string list \<Rightarrow> 32 word \<Rightarrow> process_properties \<times> world \<Rightarrow>
   (int \<times> process_properties \<times> world) res" where
  "process_spawn env a file args flags s = (case s of (p, w) \<Rightarrow>
     let p = p\<lparr>spawn_file := Some file, spawn_args := args, spawn_flags := or (spawn_flags p) flags\<rparr> in
     rbind (handle_at a w) (\<lambda>i.
     rbind (status_call env ''uv_spawn'' a
        [Ptr (u_loop (h_uv i)), Str file, Num (uint (spawn_flags p)), Num (int (stdio_count p))] w) (\<lambda>(r, w).
     Inr (r, p, w))))"

definition process_kill :: "env \<Rightarrow> addr \<Rightarrow> int \<Rightarrow> world \<Rightarrow> (int \<times> world) res" where
  "process_kill env a signum w = status_call env ''uv_process_kill'' a [Num signum] w"

definition process_kill_pid :: "env \<Rightarrow> int \<Rightarrow> int \<Rightarrow> world \<Rightarrow> int \<times> world" where
  "process_kill_pid env pid signum w = uv env ''uv_kill'' [Num pid, Num signum] w"

definition disable_stdio_inheritance :: "env \<Rightarrow> world \<Rightarrow> world" where
  "disable_stdio_inheritance env w = snd (uv env ''uv_disable_stdio_inheritance'' [] w)"

definition process_pid :: "addr \<Rightarrow> world \<Rightarrow> int res" where
  "process_pid a w = rbind (handle_at a w) (\<lambda>i. Inr (u_pid (h_uv i)))"

definition process_exit_cb :: "env \<Rightarrow> addr \<Rightarrow> int \<Rightarrow> int \<Rightarrow> process_properties \<Rightarrow> world \<Rightarrow> world res" where
  "process_exit_cb env a status signal p w =
     (case exit_cb_prop p of
         None \<Rightarrow> Inr w
       | Some c \<Rightarrow> with_handle env a (\<lambda>v. usr env c [v] [Num status, Num signal]) w)"

text \<open>The overload for constant arguments.\<close>

definition process_spawn_const ::
  "env \<Rightarrow> addr \<Rightarrow> string \<Rightarrow> string list \<Rightarrow> 32 word \<Rightarrow> process_properties \<times> world \<Rightarrow>
   (int \<times> process_properties \<times> world) res" where
  "process_spawn_const = process_spawn"

text \<open>The destructor of the properties destroys the endpoints.\<close>

fun drop_endpoints :: "env \<Rightarrow> var list \<Rightarrow> world \<Rightarrow> world res" where
  "drop_endpoints env [] w = Inr w"
| "drop_endpoints env (v # vs) w = rbind (handle_var_dtor env v w) (drop_endpoints env vs)"

section \<open>The table of standard streams\<close>

text \<open>
  The two vectors have the same length, which libuv is told, and every container that names a
  stream is backed by the endpoint at the same place, whose reference keeps the stream alive.
\<close>

definition stdio_table :: "process_properties \<times> world \<Rightarrow> bool" where
  "stdio_table s \<longleftrightarrow> (case s of (p, w) \<Rightarrow>
     length (stdio_uv_containers p) = stdio_count p \<and> length (stdio_uvcc_endpoints p) = stdio_count p \<and>
     distinct (stdio_uvcc_endpoints p) \<and>
     (\<forall>k < stdio_count p. \<exists>q. vars w (stdio_uvcc_endpoints p ! k) = Some q \<and> handle_rc.fits q \<and>
        (\<forall>h. sc_data (stdio_uv_containers p ! k) = Stdio_stream h \<longrightarrow> q = Some (HandleO h))))"









lemma set_container_simps [simp]:
  "stdio_count (set_container n f d p) = stdio_count p"
  "stdio_uvcc_endpoints (set_container n f d p) = stdio_uvcc_endpoints p"
  "n < length (stdio_uv_containers p) \<Longrightarrow>
   stdio_uv_containers (set_container n f d p) ! k =
     (if k = n then \<lparr>sc_flags = f, sc_data = d\<rparr> else stdio_uv_containers p ! k)"
  by (simp_all add: set_container_def nth_list_update)























text \<open>
  An empty endpoint leaves the container as it was but takes the place of the endpoint that backs
  it: a stream inherited before and cleared in this way is deleted with its last reference, and
  \<open>uv_spawn()\<close> is given a pointer to it. Here the process is to inherit the only reference to a
  TCP handle, then nothing.
\<close>

definition tcp_world :: world where
  "tcp_world = world_init\<lparr>handles := [0 \<mapsto> (handle_init If_stream)\<lparr>h_uv := uv_struct_init\<lparr>u_type := UV_TCP\<rparr>\<rparr>],
     vars := [1 \<mapsto> Some (HandleO 0), 2 \<mapsto> None], nxt := 3\<rparr>"

lemma inherit_nothing_dangles:
  "ok (\<lambda>(p, w). handles w 0 = None \<and> stdio_uv_containers p =
       [\<lparr>sc_flags = UV_INHERIT_STREAM, sc_data = Stdio_stream 0\<rparr>])
     (rbind (inherit_stdio quiet_env 0 1 (process_properties_init, tcp_world)) (inherit_stdio quiet_env 0 2))"
  by code_simp

section \<open>The rest of a process\<close>

text \<open>A new process has booked its loop and an empty table; \<open>uv_spawn()\<close> is yet to come.\<close>

lemma process_ctor_ok:
  assumes "winv E w" "loops w l = Some li"
  shows "ok (\<lambda>(a, p, w'). winv (inc (HandleO a) E) w' \<and> vars w' = vars w \<and> stdio_table (p, w') \<and>
      (\<exists>i. handles w' a = Some i \<and> h_loop i = Some l \<and> u_loop (h_uv i) = Some l)) (process_ctor env l w)"
proof -
  obtain a w1 where c: "handle_create If_handle w = (a, w1)" by force
  note w1 = handle_create_ok [OF assms(1) c]
  let ?i = "(handle_init If_handle)\<lparr>h_uv := (h_uv (handle_init If_handle))\<lparr>u_loop := Some l\<rparr>\<rparr>"
  let ?w = "handle_put a ?i w1"
  have w2: "winv (inc (HandleO a) E) ?w" "handles ?w a = Some ?i" "h_loop ?i = None" "u_loop (h_uv ?i) = Some l"
    "loops ?w l = Some li"
    by (rule winv_handle_put [OF w1(1,2)]) (use w1(5) assms(2) in \<open>simp_all add: store_simps handle_init_def owes_def\<close>)
  from book_loop_ok [OF w2, of env] w1(2,4) show ?thesis
    by (auto simp: process_ctor_def c handle_mod_def handle_at_def ok_iff store_simps stdio_table_def
        process_properties_init_def)
qed

text \<open>The exit handler passes the callback a copy of the process and gives it back.\<close>

lemma process_exit_cb_ok:
  assumes "client_ok K env" "winv E w" "handles w a = Some i"
  shows "ok (grown K E) (process_exit_cb env a status signal p w)"
proof (cases "exit_cb_prop p")
  case None
  with assms(2) show ?thesis by (simp add: process_exit_cb_def grownI)
next
  case (Some c)
  have "live_refs w (HandleO a) \<noteq> None" using assms(3) by (simp add: live_handle)
  from call_handle_grown [OF assms(1,2) this, of "[]" c "[Num status, Num signal]"] Some show ?thesis
    by (auto simp: process_exit_cb_def elim: ok_weaken)
qed

text \<open>The endpoints go with the process.\<close>

lemma drop_endpoints_ok:
  assumes "closes_loops env"
  shows "winv E w \<Longrightarrow> distinct vs \<Longrightarrow> \<forall>v \<in> set vs. \<exists>q. vars w v = Some q \<and> handle_rc.fits q \<Longrightarrow>
    ok (\<lambda>w'. winv E w' \<and> (\<forall>v \<in> set vs. vars w' v = None) \<and> (\<forall>v. v \<notin> set vs \<longrightarrow> vars w' v = vars w v))
      (drop_endpoints env vs w)"
proof (induction vs arbitrary: w)
  case (Cons v vs)
  then obtain q where q: "vars w v = Some q" "handle_rc.fits q" by auto
  from handle_rc.dtor_quiet [OF assms Cons.prems(1) q] obtain w1 where
    w1: "handle_var_dtor env v w = Inr w1" "winv E w1" "vars w1 = (vars w)(v := None)"
    by (auto simp: ok_iff handle_var_dtor_def)
  have "\<forall>v \<in> set vs. \<exists>q. vars w1 v = Some q \<and> handle_rc.fits q"
    using Cons.prems(2,3) w1(3) by auto
  from Cons.IH [OF w1(2) _ this] Cons.prems(2) w1 show ?case
    by (auto simp: ok_iff)
qed simp

text \<open>An identifier of -1 clears the flag, any other sets it; the other flags stay.\<close>

lemma set_uid_flags:
  "bit (spawn_flags (set_uid u p)) k \<longleftrightarrow> (if k = 0 then u \<noteq> -1 else bit (spawn_flags p) k)"
  "bit (spawn_flags (set_gid u p)) k \<longleftrightarrow> (if k = 1 then u \<noteq> -1 else bit (spawn_flags p) k)"
  by (auto simp: set_uid_def set_gid_def UV_PROCESS_SETUID_def UV_PROCESS_SETGID_def bit_simps dest: bit_imp_le_length)

end
