(* ===== verification/Uvcc_Mutex.thy ===== *)
theory Uvcc_Mutex
  imports Uvcc_World
begin

text \<open>
  \<^verbatim>\<open>threading.hpp\<close>: the class \<open>mutex\<close>, a wrapper of libuv's mutex \<open>m\<close>. That libuv excludes
  one thread from what another has locked is a hypothesis here; the class has to pass this on.
\<close>

section \<open>The class\<close>

definition mutex_ctor :: "env \<Rightarrow> addr \<Rightarrow> world \<Rightarrow> world res" where
  "mutex_ctor env m w =
     (let (r, w) = uv env ''uv_mutex_init'' [Ptr (Some m)] w in if r < 0 then Inl Runtime_error else Inr w)"

definition mutex_dtor :: "env \<Rightarrow> addr \<Rightarrow> world \<Rightarrow> world" where
  "mutex_dtor env m w = snd (uv env ''uv_mutex_destroy'' [Ptr (Some m)] w)"

definition mutex_lock :: "env \<Rightarrow> addr \<Rightarrow> world \<Rightarrow> world" where
  "mutex_lock env m w = snd (uv env ''uv_mutex_lock'' [Ptr (Some m)] w)"

definition mutex_try_lock :: "env \<Rightarrow> addr \<Rightarrow> world \<Rightarrow> bool \<times> world" where
  "mutex_try_lock env m w = (let (r, w) = uv env ''uv_mutex_trylock'' [Ptr (Some m)] w in (r = 0, w))"

definition mutex_unlock :: "env \<Rightarrow> addr \<Rightarrow> world \<Rightarrow> world" where
  "mutex_unlock env m w = snd (uv env ''uv_mutex_unlock'' [Ptr (Some m)] w)"

section \<open>Exclusion\<close>

text \<open>
  Whether the mutex is locked, from the calls recorded, the latest first: a lock that has returned, or
  an attempt libuv has answered with zero, and no unlocking since.
\<close>

primrec locked_rev :: "env \<Rightarrow> addr \<Rightarrow> event list \<Rightarrow> bool" where
  "locked_rev env m [] = False"
| "locked_rev env m (e # es) =
     (if e = Call ''uv_mutex_lock'' [Ptr (Some m)] then True
      else if e = Call ''uv_mutex_unlock'' [Ptr (Some m)] then False
      else if e = Call ''uv_mutex_trylock'' [Ptr (Some m)] then locked_rev env m es \<or> uv_ret env (rev es) e = 0
      else locked_rev env m es)"

definition mutex_locked :: "env \<Rightarrow> addr \<Rightarrow> world \<Rightarrow> bool" where
  "mutex_locked env m w \<longleftrightarrow> locked_rev env m (rev (trace w))"

text \<open>What libuv documents: \<open>uv_mutex_trylock()\<close> is zero exactly when the mutex was free.\<close>

definition excludes :: "env \<Rightarrow> bool" where
  "excludes env \<longleftrightarrow> (\<forall>es m. uv_ret env (rev es) (Call ''uv_mutex_trylock'' [Ptr (Some m)]) = 0 \<longleftrightarrow> \<not> locked_rev env m es)"

lemma mutex_ctor_throws:
  "mutex_ctor env m w = Inl e \<longleftrightarrow>
     e = Runtime_error \<and> uv_ret env (trace w) (Call ''uv_mutex_init'' [Ptr (Some m)]) < 0"
  by (auto simp: mutex_ctor_def uv_def Let_def)

lemma mutex_locked_after:
  "mutex_locked env m (mutex_lock env m w)" "\<not> mutex_locked env m (mutex_unlock env m w)"
  by (simp_all add: mutex_locked_def mutex_lock_def mutex_unlock_def uv_def emit_def)

lemma mutex_try_lock_excludes:
  assumes "excludes env"
  shows "fst (mutex_try_lock env m w) \<longleftrightarrow> \<not> mutex_locked env m w"
    "mutex_locked env m (snd (mutex_try_lock env m w))"
    "k \<noteq> m \<Longrightarrow> mutex_locked env k (snd (mutex_try_lock env m w)) = mutex_locked env k w"
  using assms [unfolded excludes_def, rule_format, of "rev (trace w)" m]
  by (auto simp: mutex_locked_def mutex_try_lock_def uv_def emit_def)

text \<open>A mutex that is locked can be taken again exactly after it has been unlocked.\<close>

lemma mutex_retake:
  assumes "excludes env"
  shows "\<not> fst (mutex_try_lock env m (mutex_lock env m w))"
    "fst (mutex_try_lock env m (mutex_unlock env m (mutex_lock env m w)))"
  by (simp_all add: mutex_try_lock_excludes [OF assms] mutex_locked_after)

end
