(* ===== verification/Spec2Isabelle.thy ===== *)
theory Spec2Isabelle
  imports Uvcc_Watchers Uvcc_Endian Uvcc_Output Uvcc_Any_Ptr Uvcc_Threads Uvcc_Termination Uvcc_Ownership Uvcc_Process Uvcc_Mutex
begin

text \<open>
  A verification development for uvcc, the C++ bindings of libuv (the headers under
  \<^verbatim>\<open>src/src/include/uvcc\<close>; the library is header-only).

  \<^bold>\<open>The program.\<close> A \<open>loop\<close>, \<open>handle\<close>, \<open>request\<close> or \<open>buffer\<close> is a variable that holds one pointer to a
  reference-counted instance on the heap; the instance contains the libuv structure, so
  that libuv's callbacks get back to it. Copying a variable takes a reference, destroying it
  gives one back, and the last reference deletes the instance: a handle is then closed and gives
  back the loop it has booked, a buffer may first be offered to its sink callback, a
  request runs the destructor of its properties. What libuv works on must outlive the
  program's variables: an active handle owns a reference to itself, and a running request owns
  references to itself and to every handle and buffer it was given, which its completion
  handler gives back after the client's callback. Almost everything that can go wrong in this
  library is a reference too many or too few.

  \<^bold>\<open>The model.\<close> \<open>Uvcc_World\<close> has the state: a \<open>world\<close> holds one store of instances per
  class, the program's variables (\<open>vars\<close>: out of scope, null, or a pointer), a counter for fresh
  addresses, and the record of all calls to libuv. The records \<open>loop_instance\<close>,
  \<open>handle_instance\<close>, \<open>buffer_instance\<close> and \<open>req_instance\<close> have the fields of the \<open>instance\<close> classes with
  the \<open>properties\<close> of all derived classes; deleting an instance removes it, and every access to an instance
  goes through the store, so a dangling pointer is the fault \<open>Use_after_free\<close>. Operations are
  functions from worlds to \<open>fault + result\<close> (\<open>Uvcc_Prelude\<close>): exceptions, null pointers, deleted
  instances, deadlocks and loops that do not end are values. \<open>ok P r\<close> says that an operation ends
  without a fault in a result that satisfies \<open>P\<close>. The record \<open>env\<close> is what is not part of the library: what
  libuv returns and writes into its structures, depending on all earlier calls, and the client's callbacks,
  which transform the world. What is assumed of it is always a named hypothesis:
  \<open>closes_loops\<close> (a loop can be closed in the end), \<open>library_inits\<close> (each of the initialisation functions
  the constructors call, \<open>loop_inits\<close>, enters the loop it is given into the structure when it succeeds;
  \<open>inits env ''uv_fs_open''\<close> says the same of opening a file), \<open>records_handles\<close> and \<open>records_send_handle\<close>
  (each of \<open>uv_tcp_connect\<close>, \<open>uv_shutdown\<close>, \<open>uv_write\<close>, \<open>uv_write2\<close> and
  \<open>uv_udp_send\<close> enters the handle into the request when it succeeds), \<open>client_ok K\<close> and \<open>class_env\<close> (callbacks
  respect the reference counts), \<open>bystanders\<close> (callbacks leave the variables of others alone and
  do not restart a request that is pending), \<open>hands_out\<close> (the allocation callback gives out buffers
  of one chunk). Nothing is supposed of what a function of libuv leaves in a structure when it fails, nor
  of any function these hypotheses do not name.
  \<open>quiet_env\<close> satisfies all of them and is what the witnesses use.

  \<^bold>\<open>The invariant.\<close> \<open>winv E w\<close> (\<open>Uvcc_Refcount\<close>) says that the count stored in every instance is the
  number of variables that hold it, of handles that have booked it, of references its own active
  state owns (\<open>owes\<close>), and of the references \<open>E\<close> lists as owned by someone else: a run in
  progress, a pending operation. \<open>E\<close> says of each operation what it takes and gives back.

  \<^bold>\<open>Theories, in the order of the library.\<close>
  \<^item> \<open>Uvcc_Utility\<close>, \<open>Uvcc_Threads\<close>: \<open>ref_count\<close> and \<open>spinlock\<close> of \<^verbatim>\<open>utility.hpp\<close>, alone and as
    interleavings of the atomic steps of any number of threads (\<open>ref_count_threads\<close>,
    \<open>spinlock_exclusion\<close>).
  \<^item> \<open>Uvcc_Mutex\<close>: \<open>mutex\<close> of \<^verbatim>\<open>threading.hpp\<close>, over a libuv that keeps other threads out.
  \<^item> \<open>Uvcc_Storage\<close>, \<open>Uvcc_Any_Ptr\<close>: type lists, \<open>aligned_storage\<close>, \<open>union_storage\<close>, \<open>type_storage\<close>
    and \<open>any_ptr\<close> of \<^verbatim>\<open>utility.hpp\<close>, as programs of constructions, resets, assignments and
    destructions: each object constructed is destroyed exactly once.
  \<^item> \<open>Uvcc_Endian\<close>, \<open>Uvcc_Netstruct\<close>: \<^verbatim>\<open>endian.hpp\<close> and \<^verbatim>\<open>netstruct.hpp\<close>, on words and on the bytes of
    the address structures.
  \<^item> \<open>Uvcc_Pointer\<close>: the constructors, assignments, \<open>swap\<close> and destructor the four wrapper
    classes repeat, with the locales \<open>refcounted\<close> and \<open>refcounted_quiet\<close>, which state what \<open>ref()\<close> and
    \<open>unref()\<close> must promise and prove the wrapper's operations from that; interpreted for each
    class in its theory and for all of them at once in \<open>Uvcc_Objects\<close>.
  \<^item> \<open>Uvcc_Loop\<close>, \<open>Uvcc_Handle\<close>, \<open>Uvcc_Buffer\<close>, \<open>Uvcc_Request\<close>: \<^verbatim>\<open>loop.hpp\<close>, \<^verbatim>\<open>handle-base.hpp\<close>,
    \<^verbatim>\<open>buffer.hpp\<close> and \<^verbatim>\<open>request-base.hpp\<close>, instances and wrapper classes; for buffers also the
    layout of the allocated block.
  \<^item> \<open>Uvcc_Callback\<close>, \<open>Uvcc_Ctor\<close>: calling the client, and what the constructors of handles
    share. \<open>gives_copy\<close> and \<open>gives_request\<close> state the whole course of a handler: a variable for a new
    reference, the call of the client with it, its destruction, and what comes after, or the latter alone
    when there is no callback.
  \<^item> \<open>Uvcc_Io\<close>, \<open>Uvcc_Stream\<close>, \<open>Uvcc_Watchers\<close>, \<open>Uvcc_Process\<close>: \<^verbatim>\<open>handle-io.hpp\<close>,
    \<^verbatim>\<open>handle-fs.hpp\<close>, \<^verbatim>\<open>handle-stream.hpp\<close>, \<^verbatim>\<open>handle-udp.hpp\<close> and \<^verbatim>\<open>handle-misc.hpp\<close>: the reading
    commands with their state table, allocation and read handlers (\<open>data_delivered\<close>: the client gets the handle,
    the buffer and the offset, which is then advanced), constructors and options,
    accepting, the watchers with their commands and handlers, and child processes (\<open>table_is\<close>: the table
    of standard streams entry by entry).
  \<^item> \<open>Uvcc_Pending\<close>, \<open>Uvcc_Net_Request\<close>, \<open>Uvcc_Fs_Request\<close>, \<open>Uvcc_Fs_Proofs\<close>, \<open>Uvcc_Output\<close>:
    the requests of \<^verbatim>\<open>request-stream.hpp\<close>, \<^verbatim>\<open>request-udp.hpp\<close>, \<^verbatim>\<open>request-misc.hpp\<close>,
    \<^verbatim>\<open>request-dns.hpp\<close>, \<^verbatim>\<open>request-fs.hpp\<close> and \<^verbatim>\<open>request-io.hpp\<close>. \<open>started E F a P\<close> describes the
    outcome of a run: an error with nothing held, or a \<open>pending\<close> operation that owns \<open>F\<close>, and
    \<open>answered\<close> that the result is what libuv has returned for the call of that name; the
    handlers are proved from \<open>pending\<close>.
  \<^item> \<open>Uvcc_Termination\<close>: the loops that wait for libuv.
  \<^item> \<open>Uvcc_Frame\<close>, \<open>Uvcc_Run_Frame\<close>: what the operations leave alone, in particular the
    requests of others.
  \<^item> \<open>Uvcc_Objects\<close>, \<open>Uvcc_Operations\<close>, \<open>Uvcc_Commands\<close>, \<open>Uvcc_Session_Frame\<close>, \<open>Uvcc_Session\<close>: the parts
    together. \<open>Uvcc_Objects\<close> runs programs of variables of all classes under a check of scopes and classes
    and gives each statement its meaning on the variables (\<open>rebinds\<close>); the one statement that passes the check
    and still fails is \<open>moved_loop\<close>. \<open>Uvcc_Operations\<close> puts the runs and
    handlers of all request classes under one datatype, \<open>Uvcc_Commands\<close> the reading commands, the
    commands of the watchers, listening, the options and the events of handles.
    \<open>Uvcc_Session\<close> interleaves all of these, with accepting connections, opening files in the background, and
    any number of operations pending and completing in
    any order: no step touches a deleted instance, and at the end nothing is left but what is
    active.
  \<^item> \<open>Uvcc_Ownership\<close>: the abstract specification. \<open>needed\<close> is what can be reached from the variables,
    the pending operations and the active handles, \<open>own_step\<close> a machine of variables and pending
    operations without counts or instances. In every state a session reaches, the instances alive are
    those needed (\<open>lifetimes_exact\<close>), and every step of a session is a step of the machine
    (\<open>sessions_refine_ownership\<close>).

  \<^bold>\<open>What a session leaves out.\<close> The client's callbacks of a session come back with nothing started
  (the handlers are proved for callbacks that do, \<open>client_ok K\<close>, but which operations
  are pending then is not followed). Timers are repeating ones, an \<open>async\<close> handle has one event on the way at
  a time and a stream is read from while a variable refers to it: outside of these the handlers are
  wrong, as \<open>timer_oneshot_released_twice\<close>, \<open>async_coalesced_leak\<close> and
  \<open>io_read_cb_stop_use_after_free\<close> show. Files are read with requests, not with the reading commands, which stop too late and leak (\<open>file_read_stop_use_after_free\<close>,
  \<open>file_read_start_leaks_buffer\<close>). A process and its endpoints are treated on their own in \<open>Uvcc_Process\<close>.

  \<^bold>\<open>Bounds and fuel.\<close> \<open>run_fuel\<close> bounds the rounds of the non-blocking runs in the destructor of a
  loop; \<open>loop_dtor_ends\<close> shows that one more than the number of rounds after which libuv has nothing left
  to do is enough. The loop that asks for the name of a pipe has fuel 2, which \<open>pipe_names_end\<close> shows to be
  enough when libuv answers with the size it needs. The compare-and-exchange of
  \<open>ref_count::inc()\<close> is given the values its failed attempts see. Lengths and sizes of buffers are
  64-bit words, address structures lists of bytes; reference counts are integers that stay positive by the
  invariant and are not bounded by the range of \<open>int\<close>.

  \<^bold>\<open>Not modelled.\<close> libuv (\<^verbatim>\<open>src/libuv-x64-v1.9.1.build10\<close>) is the environment of the model. Memory
  orders are not distinguished: an atomic access is one step. Constraints on template arguments, \<open>static_assert\<close>,
  and the size and alignment of the storages are checked by the compiler. \<open>data()\<close> and \<open>id()\<close> give out raw
  pointers. The destroy callbacks are entries in the record of calls. \<open>loop::Default()\<close>
  is one more loop. \<open>udp_send::getpeername()\<close> (\<^verbatim>\<open>request-udp.hpp\<close>) is a template no program can
  instantiate, since its cast is ill-formed. \<^verbatim>\<open>debug.hpp\<close> only prints, and the umbrella headers only include. Code the preprocessor leaves out
  is not modelled, but for the class template \<open>loop_watcher\<close>, the common form of three classes. The code for Windows is modelled where it is a definition of its own (byte
  order), otherwise the code for Unix-like systems is.
\<close>

end
